theory Spec2Isabelle
  imports Complex_Main "HOL-Library.Monad_Syntax"
begin

section \<open>JavaScript values and operators used by the generator\<close>

text \<open>
  The generator is TypeScript running on JavaScript numbers and strings. Numbers that the
  code only ever uses as counters and indices (bar numbers, MIDI numbers, scale degrees,
  progression positions) are modelled as \<open>int\<close>; velocities, ticks, tempo and every
  quantity computed with fractions are modelled as \<open>real\<close> (IEEE doubles are idealised
  as reals). An uncaught \<open>TypeError\<close> is the value \<open>None\<close> of an \<open>option\<close> result.

  The integers of the model are the numbers of the code as long as every value stays
  within \<open>Number.MAX_SAFE_INTEGER\<close>, where the arithmetic of doubles on integers is exact;
  beyond it the code rounds (\<open>2^53 + 1\<close> is \<open>2^53\<close>), prints octaves in exponent form and
  may repeat a \<open>while\<close> loop forever, none of which the model does. A quotient is the
  code's when the divisor is not zero; the code divides by the number of bars inside the
  bar loop only, where it is positive, and by the tempo. Statements that depend on the
  value of such a number bound it by \<open>MAX_SAFE_INTEGER\<close> or keep the divisor away from
  zero. \<open>Math.floor\<close> is the floor of the real number, which is the code's floor unless
  rounding moves the double across an integer.
\<close>

definition MAX_SAFE_INTEGER :: int where
  "MAX_SAFE_INTEGER = 2 ^ 53 - 1"

text \<open>A value that may sit where the code expects a pitch name: a string, or the
  \<open>NaN\<close> that \<open>undefined + number\<close> produces, or \<open>undefined\<close> itself.\<close>

datatype jsval = Str string | NaN | Undefined

text \<open>The remainder operator \<open>%\<close> on integers: the result has the sign of the dividend.\<close>

definition jsrem :: "int \<Rightarrow> int \<Rightarrow> int" where
  "jsrem a b = sgn a * (\<bar>a\<bar> mod \<bar>b\<bar>)"

text \<open>\<open>xs[i]\<close> for an integer \<open>i\<close>: \<open>undefined\<close> (here \<open>None\<close>) outside the array.\<close>

definition at_index :: "'a list \<Rightarrow> int \<Rightarrow> 'a option" where
  "at_index xs i = (if 0 \<le> i \<and> i < int (length xs) then Some (xs ! nat i) else None)"

text \<open>\<open>Array.prototype.indexOf\<close>: the first index holding the value, or \<open>-1\<close>.\<close>

fun indexOf :: "'a list \<Rightarrow> 'a \<Rightarrow> int" where
  "indexOf [] x = -1"
| "indexOf (y # ys) x = (if y = x then 0 else (let r = indexOf ys x in if r = -1 then -1 else r + 1))"

text \<open>\<open>Array.prototype.findIndex\<close>: the first index whose element satisfies the test,
  or \<open>-1\<close>. The test may raise, and is run on the elements in order until it succeeds.\<close>

fun findIndex :: "('a \<Rightarrow> bool option) \<Rightarrow> 'a list \<Rightarrow> int option" where
  "findIndex p [] = Some (-1)"
| "findIndex p (y # ys) =
     do { b \<leftarrow> p y;
          if b then Some 0
          else do { r \<leftarrow> findIndex p ys; Some (if r = -1 then -1 else r + 1) } }"

text \<open>Decimal digits: \<open>\d\<close> of the regular expressions, \<open>parseInt\<close> on a digit string, and
  the conversion of an integer to a string that \<open>+\<close> performs.\<close>

definition is_digit :: "char \<Rightarrow> bool" where
  "is_digit c = (c \<in> set ''0123456789'')"

definition digit_val :: "char \<Rightarrow> nat" where
  "digit_val c = nat (indexOf ''0123456789'' c)"

definition digit_char :: "nat \<Rightarrow> char" where
  "digit_char d = ''0123456789'' ! d"

definition parse_nat :: "string \<Rightarrow> nat" where
  "parse_nat ds = foldl (\<lambda>n c. 10 * n + digit_val c) 0 ds"

definition parseInt :: "string \<Rightarrow> int" where
  "parseInt ds = int (parse_nat ds)"

fun string_of_nat :: "nat \<Rightarrow> string" where
  "string_of_nat n =
     (if n < 10 then [digit_char n] else string_of_nat (n div 10) @ [digit_char (n mod 10)])"

declare string_of_nat.simps [simp del]

definition number_to_string :: "int \<Rightarrow> string" where
  "number_to_string i = (if i < 0 then CHR ''-'' # string_of_nat (nat (- i)) else string_of_nat (nat i))"

text \<open>\<open>x + n\<close> for a number \<open>n\<close>: concatenation when \<open>x\<close> is a string, \<open>NaN\<close> otherwise.\<close>

fun plus_number :: "jsval \<Rightarrow> int \<Rightarrow> jsval" where
  "plus_number (Str s) n = Str (s @ number_to_string n)"
| "plus_number NaN n = NaN"
| "plus_number Undefined n = NaN"

text \<open>\<open>s.replace(/\d+$/, '')\<close>: the string without its trailing digits.\<close>

definition strip_digits :: "string \<Rightarrow> string" where
  "strip_digits s = rev (dropWhile is_digit (rev s))"

text \<open>\<open>x.replace(/\d+$/, '')\<close> on a value: a \<open>TypeError\<close> unless \<open>x\<close> is a string.\<close>

fun replace_digits :: "jsval \<Rightarrow> string option" where
  "replace_digits (Str s) = Some (strip_digits s)"
| "replace_digits NaN = None"
| "replace_digits Undefined = None"

text \<open>
  A property read \<open>T[k]\<close> on an object literal \<open>T\<close> finds an own property, or a member
  inherited from \<open>Object.prototype\<close> (a function, or the prototype object itself for
  \<open>__proto__\<close>), or nothing. Every inherited member is truthy, so \<open>T[k] || d\<close> yields the
  default \<open>d\<close> only when the key is absent altogether.
\<close>

datatype 'a property = Own 'a | Inherited | Absent

definition OBJECT_PROTOTYPE :: "string list" where
  "OBJECT_PROTOTYPE =
     [''constructor'', ''__defineGetter__'', ''__defineSetter__'', ''hasOwnProperty'',
      ''__lookupGetter__'', ''__lookupSetter__'', ''isPrototypeOf'', ''propertyIsEnumerable'',
      ''toString'', ''valueOf'', ''__proto__'', ''toLocaleString'']"

definition get_property :: "(string \<times> 'a) list \<Rightarrow> string \<Rightarrow> 'a property" where
  "get_property T k =
     (case map_of T k of
        Some v \<Rightarrow> Own v
      | None \<Rightarrow> if k \<in> set OBJECT_PROTOTYPE then Inherited else Absent)"

text \<open>\<open>p || d\<close> for a property read \<open>p\<close> whose own values are all truthy.\<close>

fun or_default :: "'a property \<Rightarrow> 'a \<Rightarrow> 'a property" where
  "or_default (Own v) d = Own v"
| "or_default Inherited d = Inherited"
| "or_default Absent d = Own d"

section \<open>Music theory (music-theory.ts)\<close>

definition NOTES :: "string list" where
  "NOTES = [''C'', ''C#'', ''D'', ''D#'', ''E'', ''F'', ''F#'', ''G'', ''G#'', ''A'', ''A#'', ''B'']"

text \<open>\<open>NOTES[i]\<close>.\<close>

definition NOTES_at :: "int \<Rightarrow> jsval" where
  "NOTES_at i = (case at_index NOTES i of Some s \<Rightarrow> Str s | None \<Rightarrow> Undefined)"

text \<open>\<open>NOTES.indexOf(x)\<close> for a value \<open>x\<close>; only strings are found.\<close>

fun NOTES_indexOf :: "jsval \<Rightarrow> int" where
  "NOTES_indexOf (Str s) = indexOf NOTES s"
| "NOTES_indexOf NaN = -1"
| "NOTES_indexOf Undefined = -1"

definition SCALES :: "(string \<times> int list) list" where
  "SCALES =
     [(''major'', [0, 2, 4, 5, 7, 9, 11]),
      (''minor'', [0, 2, 3, 5, 7, 8, 10]),
      (''dorian'', [0, 2, 3, 5, 7, 9, 10]),
      (''mixolydian'', [0, 2, 4, 5, 7, 9, 10]),
      (''pentatonic'', [0, 2, 4, 7, 9]),
      (''minorPentatonic'', [0, 3, 5, 7, 10]),
      (''blues'', [0, 3, 5, 6, 7, 10]),
      (''chromatic'', [0, 1, 2, 3, 4, 5, 6, 7, 8, 9, 10, 11])]"

definition SCALES_major :: "int list" where
  "SCALES_major = [0, 2, 4, 5, 7, 9, 11]"

definition CHORDS :: "(string \<times> int list) list" where
  "CHORDS =
     [(''major'', [0, 4, 7]),
      (''minor'', [0, 3, 7]),
      (''dim'', [0, 3, 6]),
      (''aug'', [0, 4, 8]),
      (''maj7'', [0, 4, 7, 11]),
      (''min7'', [0, 3, 7, 10]),
      (''dom7'', [0, 4, 7, 10]),
      (''sus2'', [0, 2, 7]),
      (''sus4'', [0, 5, 7])]"

definition CHORDS_major :: "int list" where
  "CHORDS_major = [0, 4, 7]"

definition PROGRESSIONS :: "(string \<times> (int \<times> string) list) list" where
  "PROGRESSIONS =
     [(''pop'', [(0, ''major''), (5, ''major''), (3, ''minor''), (4, ''major'')]),
      (''jazz'', [(1, ''min7''), (4, ''dom7''), (0, ''maj7''), (0, ''maj7'')]),
      (''blues'',
         [(0, ''dom7''), (0, ''dom7''), (0, ''dom7''), (0, ''dom7''),
          (3, ''dom7''), (3, ''dom7''), (0, ''dom7''), (0, ''dom7''),
          (4, ''dom7''), (3, ''dom7''), (0, ''dom7''), (4, ''dom7'')]),
      (''ambient'', [(0, ''maj7''), (2, ''minor''), (4, ''major''), (3, ''minor'')]),
      (''lofi'', [(0, ''maj7''), (3, ''min7''), (4, ''dom7''), (0, ''maj7'')]),
      (''classical'', [(0, ''major''), (3, ''major''), (4, ''major''), (0, ''major'')]),
      (''electronic'', [(0, ''minor''), (5, ''minor''), (3, ''major''), (4, ''major'')])]"

definition PROGRESSIONS_pop :: "(int \<times> string) list" where
  "PROGRESSIONS_pop = [(0, ''major''), (5, ''major''), (3, ''minor''), (4, ''major'')]"

definition PROGRESSIONS_ambient :: "(int \<times> string) list" where
  "PROGRESSIONS_ambient = [(0, ''maj7''), (2, ''minor''), (4, ''major''), (3, ''minor'')]"

text \<open>The regular expression \<open>/^([A-G]#?)(\d+)$/\<close>: the two captured groups of a match.\<close>

definition all_digits :: "string \<Rightarrow> bool" where
  "all_digits ds = (ds \<noteq> [] \<and> list_all is_digit ds)"

fun match_note :: "string \<Rightarrow> (string \<times> string) option" where
  "match_note [] = None"
| "match_note (c # rest) =
     (if c \<in> set ''ABCDEFG'' then
        (case rest of
           [] \<Rightarrow> None
         | d # ds \<Rightarrow>
             if d = CHR ''#'' then (if all_digits ds then Some ([c, d], ds) else None)
             else (if all_digits rest then Some ([c], rest) else None))
      else None)"

text \<open>\<open>noteToMidi\<close>: \<open>note.match\<close> raises on a value that is not a string.\<close>

fun noteToMidi :: "jsval \<Rightarrow> int option" where
  "noteToMidi (Str note) =
     (case match_note note of
        None \<Rightarrow> Some 60
      | Some (noteName, octave) \<Rightarrow> Some (indexOf NOTES noteName + (parseInt octave + 1) * 12))"
| "noteToMidi NaN = None"
| "noteToMidi Undefined = None"

definition midiToNote :: "int \<Rightarrow> jsval" where
  "midiToNote midi =
     (let octave = midi div 12 - 1;
          noteIndex = jsrem midi 12
      in plus_number (NOTES_at noteIndex) octave)"

text \<open>The callback shared by \<open>getScale\<close> and \<open>getChord\<close>.\<close>

definition note_of_interval :: "int \<Rightarrow> int \<Rightarrow> int \<Rightarrow> jsval" where
  "note_of_interval rootIndex octave interval =
     (let noteIndex = jsrem (rootIndex + interval) 12;
          noteOctave = octave + (rootIndex + interval) div 12
      in plus_number (NOTES_at noteIndex) noteOctave)"

text \<open>\<open>getScale\<close> of music-theory.ts; \<open>pattern.map\<close> raises when the pattern is an
  inherited member.\<close>

definition getScale :: "string \<Rightarrow> string \<Rightarrow> int \<Rightarrow> jsval list option" where
  "getScale rootNote scaleType octave =
     (let rootIndex = indexOf NOTES rootNote
      in case or_default (get_property SCALES scaleType) SCALES_major of
           Own pattern \<Rightarrow> Some (map (note_of_interval rootIndex octave) pattern)
         | _ \<Rightarrow> None)"

definition getChord :: "jsval \<Rightarrow> string \<Rightarrow> int \<Rightarrow> jsval list option" where
  "getChord rootNote chordType octave =
     (let rootIndex = NOTES_indexOf rootNote
      in case or_default (get_property CHORDS chordType) CHORDS_major of
           Own pattern \<Rightarrow> Some (map (note_of_interval rootIndex octave) pattern)
         | _ \<Rightarrow> None)"

text \<open>\<open>getChordFromDegree\<close>. When the scale is an inherited member, or the degree is
  outside the scale, \<open>scale[...]\<close> is \<open>undefined\<close>, the root index is \<open>NaN\<close> and the
  chord root read from \<open>NOTES\<close> is \<open>undefined\<close>.\<close>

definition getChordFromDegree :: "string \<Rightarrow> string \<Rightarrow> int \<Rightarrow> string \<Rightarrow> int \<Rightarrow> jsval list option" where
  "getChordFromDegree rootNote scaleType degree chordType octave =
     (let rootIndex = indexOf NOTES rootNote;
          chordRootInterval =
            (case or_default (get_property SCALES scaleType) SCALES_major of
               Own scale \<Rightarrow> at_index scale (jsrem degree (int (length scale)))
             | _ \<Rightarrow> None);
          chordRoot =
            (case chordRootInterval of
               Some i \<Rightarrow> NOTES_at (jsrem (rootIndex + i) 12)
             | None \<Rightarrow> Undefined)
      in getChord chordRoot chordType octave)"

text \<open>\<open>getProgression\<close>: an unknown style gets the pop progression.\<close>

definition getProgression :: "string \<Rightarrow> (int \<times> string) list property" where
  "getProgression style = or_default (get_property PROGRESSIONS style) PROGRESSIONS_pop"

section \<open>The generator (generator.ts): helpers and tables\<close>

text \<open>
  \<open>Math.random()\<close> is the only source of non-determinism. A run is modelled against the
  sequence \<open>rnd\<close> of the values its calls return, \<open>rnd k\<close> being the value of call number
  \<open>k\<close>; a function that draws a varying number of values returns the number of the next
  call along with its result. The helpers \<open>humanizeTiming\<close> and \<open>humanizeVelocity\<close> draw
  exactly one value each, passed as \<open>r\<close>.
\<close>

type_synonym rng = "nat \<Rightarrow> real"

definition humanizeTiming :: "real \<Rightarrow> real \<Rightarrow> real \<Rightarrow> real" where
  "humanizeTiming r tick amount =
     (let varied = tick + of_int \<lfloor>(r - 0.5) * amount * 2\<rfloor>
      in max 0 varied)"

definition humanizeVelocity :: "real \<Rightarrow> real \<Rightarrow> real \<Rightarrow> real" where
  "humanizeVelocity r vel amount =
     (let varied = vel + of_int \<lfloor>(r - 0.5) * amount * 2\<rfloor>
      in min 127 (max 1 varied))"

text \<open>\<open>generateMotif\<close>: two draws, then two per note (the step and its direction).\<close>

fun motif_loop :: "rng \<Rightarrow> nat \<Rightarrow> int \<Rightarrow> nat \<Rightarrow> int \<Rightarrow> int list" where
  "motif_loop rnd k scaleLength 0 current = []"
| "motif_loop rnd k scaleLength (Suc n) current =
     (let step = (if rnd k < 0.7 then (if rnd (k + 1) < 0.5 then 1 else -1)
                  else (if rnd (k + 1) < 0.5 then 2 else -2))
      in current # motif_loop rnd (k + 2) scaleLength n (max 0 (min (scaleLength - 1) (current + step))))"

definition generateMotif :: "rng \<Rightarrow> nat \<Rightarrow> int \<Rightarrow> int list \<times> nat" where
  "generateMotif rnd k scaleLength =
     (let motifLength = 4 + \<lfloor>rnd k * 4\<rfloor>;
          current = \<lfloor>rnd (k + 1) * 3\<rfloor> + 2
      in (motif_loop rnd (k + 2) scaleLength (nat motifLength) current,
          k + 2 + 2 * nat motifLength))"

definition varyMotif :: "int list \<Rightarrow> int \<Rightarrow> int \<Rightarrow> int list" where
  "varyMotif motif variation scaleLength =
     (let c = jsrem variation 4
      in if c = 0 then motif
         else if c = 1 then map (\<lambda>n. min (scaleLength - 1) (n + 2)) motif
         else if c = 2 then rev motif
         else if c = 3 then map (\<lambda>n. max 0 (scaleLength - 1 - n)) motif
         else motif)"

record DrumPattern =
  kick :: "int list"
  snare :: "int list"
  hihat :: "int list"
  ride :: "int list option"

definition DRUM_PATTERNS_lofi :: DrumPattern where
  "DRUM_PATTERNS_lofi =
     \<lparr>kick  = [1,0,0,0, 0,0,0,0, 1,0,0,0, 0,0,0,0],
      snare = [0,0,0,0, 1,0,0,0, 0,0,0,0, 1,0,0,0],
      hihat = [1,0,1,0, 1,0,1,0, 1,0,1,0, 1,0,1,0],
      ride = None\<rparr>"

definition DRUM_PATTERNS_ambient :: DrumPattern where
  "DRUM_PATTERNS_ambient =
     \<lparr>kick  = [1,0,0,0, 0,0,0,0, 0,0,0,0, 0,0,0,0],
      snare = [0,0,0,0, 0,0,0,0, 0,0,0,0, 0,0,0,0],
      hihat = [0,0,0,0, 0,0,0,0, 0,0,0,0, 0,0,0,0],
      ride = None\<rparr>"

definition DRUM_PATTERNS :: "(string \<times> DrumPattern) list" where
  "DRUM_PATTERNS =
     [(''ambient'', DRUM_PATTERNS_ambient),
      (''lofi'', DRUM_PATTERNS_lofi),
      (''electronic'',
         \<lparr>kick  = [1,0,0,0, 1,0,0,0, 1,0,0,0, 1,0,0,0],
          snare = [0,0,0,0, 1,0,0,0, 0,0,0,0, 1,0,0,0],
          hihat = [1,1,1,1, 1,1,1,1, 1,1,1,1, 1,1,1,1],
          ride = None\<rparr>),
      (''classical'',
         \<lparr>kick  = [0,0,0,0, 0,0,0,0, 0,0,0,0, 0,0,0,0],
          snare = [0,0,0,0, 0,0,0,0, 0,0,0,0, 0,0,0,0],
          hihat = [0,0,0,0, 0,0,0,0, 0,0,0,0, 0,0,0,0],
          ride = None\<rparr>),
      (''jazz'',
         \<lparr>kick  = [1,0,0,0, 0,0,1,0, 0,0,0,0, 0,0,1,0],
          snare = [0,0,0,0, 0,0,0,0, 0,0,0,0, 0,0,0,0],
          hihat = [0,0,0,0, 0,0,0,0, 0,0,0,0, 0,0,0,0],
          ride = Some [1,0,1,1, 0,1,1,0, 1,1,0,1, 1,0,1,0]\<rparr>)]"

text \<open>The arpeggio shapes the chord generator uses (\<open>ARPEGGIO_PATTERNS.up\<close> and
  \<open>.upDown\<close>).\<close>

definition ARPEGGIO_up :: "int list list" where
  "ARPEGGIO_up = [[0], [1], [2], [3]]"

definition ARPEGGIO_upDown :: "int list list" where
  "ARPEGGIO_upDown = [[0], [1], [2], [3], [2], [1]]"

datatype SongSection = Intro | Verse | Build | Climax | Outro

datatype Intensity = Minimal | Light | Full | Building

text \<open>The \<open>drums\<close> field of a section: \<open>'none'\<close>, or the intensity handed to
  \<open>generateDrums\<close>.\<close>

datatype Drums = NoDrums | Drums Intensity

record SectionConfig =
  cfg_melody :: bool
  cfg_chords :: bool
  cfg_bass :: bool
  cfg_pad :: bool
  cfg_drums :: Drums
  density :: real
  velocityMod :: real

fun SECTION_CONFIGS :: "SongSection \<Rightarrow> SectionConfig" where
  "SECTION_CONFIGS Intro =
     \<lparr>cfg_melody = False, cfg_chords = True, cfg_bass = True, cfg_pad = True,
      cfg_drums = NoDrums, density = 0.3, velocityMod = -15\<rparr>"
| "SECTION_CONFIGS Verse =
     \<lparr>cfg_melody = True, cfg_chords = True, cfg_bass = True, cfg_pad = True,
      cfg_drums = Drums Light, density = 0.6, velocityMod = -5\<rparr>"
| "SECTION_CONFIGS Build =
     \<lparr>cfg_melody = True, cfg_chords = True, cfg_bass = True, cfg_pad = True,
      cfg_drums = Drums Building, density = 0.8, velocityMod = 5\<rparr>"
| "SECTION_CONFIGS Climax =
     \<lparr>cfg_melody = True, cfg_chords = True, cfg_bass = True, cfg_pad = True,
      cfg_drums = Drums Full, density = 1.0, velocityMod = 15\<rparr>"
| "SECTION_CONFIGS Outro =
     \<lparr>cfg_melody = True, cfg_chords = False, cfg_bass = True, cfg_pad = True,
      cfg_drums = Drums Minimal, density = 0.4, velocityMod = -10\<rparr>"

datatype ExtensionDirection = Continue | DirBuild | Peak | WindDown | Contrast

definition getSongSection :: "int \<Rightarrow> int \<Rightarrow> int \<Rightarrow> ExtensionDirection \<Rightarrow> SongSection" where
  "getSongSection barNumber totalBars totalBarsOffset extensionDirection =
     (if totalBarsOffset > 0 then
        (let localProgress = real_of_int barNumber / real_of_int totalBars
         in case extensionDirection of
              DirBuild \<Rightarrow>
                if localProgress < 0.3 then Verse
                else if localProgress < 0.7 then Build
                else Climax
            | Peak \<Rightarrow>
                if localProgress < 0.1 then Build
                else if localProgress < 0.85 then Climax
                else Climax
            | WindDown \<Rightarrow>
                if localProgress < 0.2 then Verse
                else if localProgress < 0.6 then Verse
                else Outro
            | Contrast \<Rightarrow>
                if localProgress < 0.25 then Intro
                else if localProgress < 0.5 then Verse
                else if localProgress < 0.75 then Build
                else Climax
            | Continue \<Rightarrow>
                (let overallProgress =
                       real_of_int (totalBarsOffset + barNumber)
                         / real_of_int (totalBarsOffset + totalBars + 32)
                 in if overallProgress < 0.2 then Verse
                    else if overallProgress < 0.4 then Build
                    else if overallProgress < 0.7 then Climax
                    else if overallProgress < 0.9 then Build
                    else Outro))
      else
        (let progress = real_of_int barNumber / real_of_int totalBars
         in if progress < 0.1 then Intro
            else if progress < 0.35 then Verse
            else if progress < 0.6 then Build
            else if progress < 0.85 then Climax
            else Outro))"

datatype PhraseType = Question | Answer

record Phrase =
  phrase_type :: PhraseType
  phrase_bars :: int
  targetResolution :: int

text \<open>\<open>getPhraseType\<close> draws one value, \<open>r\<close>.\<close>

definition getPhraseType :: "real \<Rightarrow> int \<Rightarrow> Phrase" where
  "getPhraseType r barNumber =
     (let phraseBar = jsrem barNumber 4
      in if phraseBar < 2
         then \<lparr>phrase_type = Question, phrase_bars = 2, targetResolution = (if r > 0.5 then 4 else 1)\<rparr>
         else \<lparr>phrase_type = Answer, phrase_bars = 2, targetResolution = (if r > 0.6 then 0 else 2)\<rparr>)"

datatype Level = Soft | Medium | Loud

datatype Direction = DynBuilding | Fading | Stable

record Dynamics =
  level :: Level
  direction :: Direction
  velocityTrend :: real

fun levelMap :: "Level \<Rightarrow> real" where
  "levelMap Soft = 55"
| "levelMap Medium = 72"
| "levelMap Loud = 88"

definition getBaseVelocity :: "Dynamics \<Rightarrow> int \<Rightarrow> int \<Rightarrow> real" where
  "getBaseVelocity dyn currentBar totalBars =
     (let base = levelMap (level dyn);
          phrasePos = jsrem currentBar 4;
          phraseDynamic = real_of_int (if phrasePos < 2 then phrasePos * 3 else (3 - phrasePos) * 3);
          progress = real_of_int currentBar / real_of_int totalBars;
          arcDynamic = sin (progress * pi) * 8
      in min 100 (max 40 (base + velocityTrend dyn * 10 + phraseDynamic + arcDynamic)))"

definition getProgressionRate :: "string \<Rightarrow> int property" where
  "getProgressionRate style =
     or_default
       (get_property
          [(''ambient'', 4), (''lofi'', 2), (''electronic'', 2), (''classical'', 1), (''jazz'', 1)]
          style)
       2"

text \<open>\<open>evolveDynamics\<close> draws one value in its \<open>stable\<close> branch only; the flag tells the
  caller whether the draw \<open>r\<close> was used.\<close>

definition evolveDynamics :: "real \<Rightarrow> Dynamics \<Rightarrow> int \<Rightarrow> int \<Rightarrow> Dynamics \<times> bool" where
  "evolveDynamics r dyn currentBar totalBars =
     (let progress = real_of_int currentBar / real_of_int totalBars;
          (dir, trend, drew) =
            (if progress < 0.2 then (DynBuilding, min 1 (velocityTrend dyn + 0.15), False)
             else if progress < 0.7 then (Stable, velocityTrend dyn + (r - 0.5) * 0.1, True)
             else if progress < 0.9 then (DynBuilding, min 1.2 (velocityTrend dyn + 0.1), False)
             else (Fading, max (-0.3) (velocityTrend dyn - 0.1), False));
          trend' = max (-1) (min 1.2 trend);
          lvl = (if trend' > 0.6 then Loud else if trend' < -0.2 then Soft else Medium)
      in (\<lparr>level = lvl, direction = dir, velocityTrend = trend'\<rparr>, drew))"

text \<open>The generator's own \<open>getScale\<close> helper (bottom of generator.ts), which shadows
  nothing: generator.ts does not import the one of music-theory.ts.\<close>

definition generator_patterns :: "(string \<times> int list) list" where
  "generator_patterns =
     [(''major'', [0, 2, 4, 5, 7, 9, 11]),
      (''minor'', [0, 2, 3, 5, 7, 8, 10]),
      (''dorian'', [0, 2, 3, 5, 7, 9, 10]),
      (''mixolydian'', [0, 2, 4, 5, 7, 9, 10]),
      (''pentatonic'', [0, 2, 4, 7, 9])]"

definition generator_getScale :: "string \<Rightarrow> string \<Rightarrow> int \<Rightarrow> jsval list option" where
  "generator_getScale rootNote mode octave =
     (let rootIdx = indexOf NOTES rootNote
      in case or_default (get_property generator_patterns mode) [0, 2, 4, 5, 7, 9, 11] of
           Own pattern \<Rightarrow> Some (map (note_of_interval rootIdx octave) pattern)
         | _ \<Rightarrow> None)"

record StyleParams =
  sp_tempo :: "real \<times> real"
  noteDensity :: real
  velocityRange :: "real \<times> real"
  octaveRange :: "int \<times> int"
  preferredScales :: "string list"
  rhythmPatterns :: "string list"
  useSustain :: bool

definition STYLE_PARAMS_ambient :: StyleParams where
  "STYLE_PARAMS_ambient =
     \<lparr>sp_tempo = (60, 80), noteDensity = 0.3, velocityRange = (40, 80), octaveRange = (3, 5),
      preferredScales = [''major'', ''dorian''], rhythmPatterns = [''sparse'', ''straight''],
      useSustain = True\<rparr>"

definition STYLE_PARAMS :: "(string \<times> StyleParams) list" where
  "STYLE_PARAMS =
     [(''ambient'', STYLE_PARAMS_ambient),
      (''lofi'',
         \<lparr>sp_tempo = (70, 90), noteDensity = 0.5, velocityRange = (50, 90), octaveRange = (3, 5),
          preferredScales = [''pentatonic'', ''dorian''], rhythmPatterns = [''syncopated'', ''offbeat''],
          useSustain = True\<rparr>),
      (''electronic'',
         \<lparr>sp_tempo = (120, 140), noteDensity = 0.7, velocityRange = (70, 110), octaveRange = (2, 6),
          preferredScales = [''minor'', ''minorPentatonic''], rhythmPatterns = [''driving'', ''syncopated''],
          useSustain = False\<rparr>),
      (''classical'',
         \<lparr>sp_tempo = (80, 120), noteDensity = 0.6, velocityRange = (50, 100), octaveRange = (3, 6),
          preferredScales = [''major'', ''minor''], rhythmPatterns = [''straight'', ''triplet''],
          useSustain = True\<rparr>),
      (''jazz'',
         \<lparr>sp_tempo = (100, 140), noteDensity = 0.6, velocityRange = (60, 100), octaveRange = (3, 5),
          preferredScales = [''dorian'', ''mixolydian''], rhythmPatterns = [''syncopated'', ''triplet''],
          useSustain = True\<rparr>)]"

record Instruments =
  ins_melody :: int
  ins_chords :: int
  ins_bass :: int
  ins_pad :: int

definition instruments_ambient :: Instruments where
  "instruments_ambient = \<lparr>ins_melody = 89, ins_chords = 52, ins_bass = 39, ins_pad = 92\<rparr>"

definition getInstrumentsForStyle :: "string \<Rightarrow> Instruments property" where
  "getInstrumentsForStyle style =
     or_default
       (get_property
          [(''ambient'', instruments_ambient),
           (''lofi'', \<lparr>ins_melody = 5, ins_chords = 1, ins_bass = 33, ins_pad = 89\<rparr>),
           (''electronic'', \<lparr>ins_melody = 81, ins_chords = 63, ins_bass = 38, ins_pad = 95\<rparr>),
           (''classical'', \<lparr>ins_melody = 41, ins_chords = 49, ins_bass = 43, ins_pad = 49\<rparr>),
           (''jazz'', \<lparr>ins_melody = 66, ins_chords = 1, ins_bass = 33, ins_pad = 52\<rparr>)]
          style)
       instruments_ambient"

section \<open>Track generators\<close>

record NoteEvent =
  pitch :: "jsval list"
  duration :: jsval
  velocity :: real
  startTick :: real
  channel :: "nat option"

type_synonym track = "NoteEvent list"

text \<open>\<open>track.addEvent(new MidiWriter.NoteEvent({...}))\<close> appends to the track.\<close>

definition addEvent :: "track \<Rightarrow> NoteEvent \<Rightarrow> track" where
  "addEvent t ev = t @ [ev]"

text \<open>A loop whose body may raise: the first \<open>TypeError\<close> ends it.\<close>

fun for_each :: "('a \<Rightarrow> 's \<Rightarrow> 's option) \<Rightarrow> 'a list \<Rightarrow> 's \<Rightarrow> 's option" where
  "for_each f [] s = Some s"
| "for_each f (x # xs) s = (case f x s of None \<Rightarrow> None | Some s' \<Rightarrow> for_each f xs s')"

text \<open>\<open>xs.forEach((x, i) => track.addEvent(...))\<close> where each event draws twice: first for
  its velocity (\<open>humanizeVelocity\<close>), then for its start tick (\<open>humanizeTiming\<close>). The
  event builder \<open>mk\<close> receives the index, the element and the two draws.\<close>

fun emit_each :: "(int \<Rightarrow> 'a \<Rightarrow> real \<Rightarrow> real \<Rightarrow> NoteEvent) \<Rightarrow> rng \<Rightarrow> int \<Rightarrow> 'a list
                    \<Rightarrow> track \<times> nat \<Rightarrow> track \<times> nat" where
  "emit_each mk rnd i [] (t, k) = (t, k)"
| "emit_each mk rnd i (x # xs) (t, k) =
     emit_each mk rnd (i + 1) xs (addEvent t (mk i x (rnd k) (rnd (k + 1))), k + 2)"

text \<open>\<open>xs[i]\<close> as a value, and the truthiness of a pattern slot.\<close>

definition value_at :: "jsval list \<Rightarrow> int \<Rightarrow> jsval" where
  "value_at xs i = (case at_index xs i of Some v \<Rightarrow> v | None \<Rightarrow> Undefined)"

definition hit :: "int list \<Rightarrow> int \<Rightarrow> bool" where
  "hit xs i = (case at_index xs i of Some v \<Rightarrow> v \<noteq> 0 | None \<Rightarrow> False)"

subsection \<open>Drums\<close>

fun intensityMults :: "Intensity \<Rightarrow> real" where
  "intensityMults Minimal = 0.6"
| "intensityMults Light = 0.8"
| "intensityMults Full = 1.0"
| "intensityMults Building = 1.15"

definition drum_event :: "string \<Rightarrow> real \<Rightarrow> real \<Rightarrow> NoteEvent" where
  "drum_event p v t =
     \<lparr>pitch = [Str p], duration = Str ''16'', velocity = v, startTick = t, channel = Some 10\<rparr>"

text \<open>The fill that replaces the pattern in the last four slots: a snare roll, and a low
  tom on slots 13 and 15.\<close>

definition drum_fill :: "rng \<Rightarrow> real \<Rightarrow> real \<Rightarrow> real \<Rightarrow> int \<Rightarrow> track \<times> nat \<Rightarrow> track \<times> nat" where
  "drum_fill rnd tick baseVelocity intensityMult i = (\<lambda>(t, k).
     (let t1 = addEvent t
                 (drum_event ''D2''
                    (humanizeVelocity (rnd k)
                       (of_int \<lfloor>baseVelocity * intensityMult * (0.8 + (of_int i - 12) * 0.1)\<rfloor>) 5)
                    (humanizeTiming (rnd (k + 1)) tick 2))
      in if i = 13 \<or> i = 15
         then (addEvent t1
                 (drum_event ''G2''
                    (humanizeVelocity (rnd (k + 2)) (of_int \<lfloor>baseVelocity * intensityMult * 0.85\<rfloor>) 5)
                    (humanizeTiming (rnd (k + 3)) tick 2)),
               k + 4)
         else (t1, k + 2)))"

definition drum_kick :: "rng \<Rightarrow> DrumPattern \<Rightarrow> real \<Rightarrow> real \<Rightarrow> real \<Rightarrow> Intensity \<Rightarrow> int
                           \<Rightarrow> track \<times> nat \<Rightarrow> track \<times> nat" where
  "drum_kick rnd pattern tick baseVelocity intensityMult intensity i = (\<lambda>(t, k).
     if hit (kick pattern) i \<and> (intensity \<noteq> Minimal \<or> i = 0)
     then (addEvent t
             (drum_event ''C2''
                (humanizeVelocity (rnd k) (of_int \<lfloor>baseVelocity * intensityMult\<rfloor>) 5)
                (humanizeTiming (rnd (k + 1)) tick 2)),
           k + 2)
     else (t, k))"

text \<open>The snare, hi-hat and ride draw for the density gate only when the slot is set.\<close>

definition drum_snare :: "rng \<Rightarrow> DrumPattern \<Rightarrow> real \<Rightarrow> real \<Rightarrow> real \<Rightarrow> real \<Rightarrow> int
                            \<Rightarrow> track \<times> nat \<Rightarrow> track \<times> nat" where
  "drum_snare rnd pattern tick baseVelocity intensityMult densityMult i = (\<lambda>(t, k).
     if hit (snare pattern) i
     then (if rnd k < densityMult
           then (addEvent t
                   (drum_event ''D2''
                      (humanizeVelocity (rnd (k + 1)) (of_int \<lfloor>baseVelocity * 0.9 * intensityMult\<rfloor>) 6)
                      (humanizeTiming (rnd (k + 2)) tick 3)),
                 k + 3)
           else (t, k + 1))
     else (t, k))"

definition drum_ghost :: "rng \<Rightarrow> string \<Rightarrow> real \<Rightarrow> real \<Rightarrow> Intensity \<Rightarrow> int
                            \<Rightarrow> track \<times> nat \<Rightarrow> track \<times> nat" where
  "drum_ghost rnd style tick baseVelocity intensity i = (\<lambda>(t, k).
     if (style = ''lofi'' \<or> style = ''jazz'') \<and> intensity \<noteq> Minimal \<and> (i = 6 \<or> i = 10)
     then (if rnd k > 0.5
           then (addEvent t
                   (drum_event ''D2''
                      (humanizeVelocity (rnd (k + 1)) (of_int \<lfloor>baseVelocity * 0.35\<rfloor>) 8)
                      (humanizeTiming (rnd (k + 2)) tick 5)),
                 k + 3)
           else (t, k + 1))
     else (t, k))"

definition drum_hihat :: "rng \<Rightarrow> DrumPattern \<Rightarrow> real \<Rightarrow> real \<Rightarrow> real \<Rightarrow> real \<Rightarrow> Intensity \<Rightarrow> int
                            \<Rightarrow> track \<times> nat \<Rightarrow> track \<times> nat" where
  "drum_hihat rnd pattern tick baseVelocity intensityMult densityMult intensity i = (\<lambda>(t, k).
     if hit (hihat pattern) i
     then (if rnd k < densityMult
           then (let isOffbeat = (jsrem i 2 = 1);
                     useOpenHihat = (intensity = Building \<and> jsrem i 4 = 2)
                 in (addEvent t
                       (drum_event (if useOpenHihat then ''A#2'' else ''F#2'')
                          (humanizeVelocity (rnd (k + 1))
                             (of_int \<lfloor>(baseVelocity - 20) * (if isOffbeat then 0.7 else 1) * intensityMult\<rfloor>) 10)
                          (humanizeTiming (rnd (k + 2)) tick 4)),
                     k + 3))
           else (t, k + 1))
     else (t, k))"

definition drum_ride :: "rng \<Rightarrow> DrumPattern \<Rightarrow> real \<Rightarrow> real \<Rightarrow> real \<Rightarrow> real \<Rightarrow> int
                           \<Rightarrow> track \<times> nat \<Rightarrow> track \<times> nat" where
  "drum_ride rnd pattern tick baseVelocity intensityMult densityMult i = (\<lambda>(t, k).
     if (case ride pattern of Some r \<Rightarrow> hit r i | None \<Rightarrow> False)
     then (if rnd k < densityMult
           then (addEvent t
                   (drum_event ''D#3''
                      (humanizeVelocity (rnd (k + 1)) (of_int \<lfloor>baseVelocity * 0.6 * intensityMult\<rfloor>) 8)
                      (humanizeTiming (rnd (k + 2)) tick 5)),
                 k + 3)
           else (t, k + 1))
     else (t, k))"

text \<open>One of the sixteen slots of a bar. Outside a fill the slot reads \<open>pattern.kick[i]\<close>,
  which raises when the pattern is an inherited member.\<close>

definition drum_slot :: "rng \<Rightarrow> DrumPattern property \<Rightarrow> int \<Rightarrow> string \<Rightarrow> real \<Rightarrow> Direction
                           \<Rightarrow> Intensity \<Rightarrow> bool \<Rightarrow> int \<Rightarrow> track \<times> nat \<Rightarrow> (track \<times> nat) option" where
  "drum_slot rnd pattern barNumber style baseVelocity dir intensity addFill i tk =
     (let ticksPerSixteenth = 32;
          intensityMult = intensityMults intensity *
            (if dir = DynBuilding then 1.1 else if dir = Fading then 0.9 else 1.0);
          densityMult = (if intensity = Minimal then 0.4 else if intensity = Light then 0.7 else 1.0);
          tick = real_of_int (barNumber * 512 + i * ticksPerSixteenth)
      in if addFill \<and> i \<ge> 12 then Some (drum_fill rnd tick baseVelocity intensityMult i tk)
         else (case pattern of
                 Own p \<Rightarrow>
                   Some (drum_ride rnd p tick baseVelocity intensityMult densityMult i
                          (drum_hihat rnd p tick baseVelocity intensityMult densityMult intensity i
                            (drum_ghost rnd style tick baseVelocity intensity i
                              (drum_snare rnd p tick baseVelocity intensityMult densityMult i
                                (drum_kick rnd p tick baseVelocity intensityMult intensity i tk)))))
               | _ \<Rightarrow> None))"

text \<open>\<open>DRUM_PATTERNS[style] || DRUM_PATTERNS.lofi\<close>.\<close>

definition drumPatternFor :: "string \<Rightarrow> DrumPattern property" where
  "drumPatternFor style = or_default (get_property DRUM_PATTERNS style) DRUM_PATTERNS_lofi"

definition generateDrums :: "rng \<Rightarrow> track \<times> nat \<Rightarrow> int \<Rightarrow> string \<Rightarrow> real \<Rightarrow> Direction
                               \<Rightarrow> Intensity \<Rightarrow> bool \<Rightarrow> (track \<times> nat) option" where
  "generateDrums rnd tk barNumber style baseVelocity dir intensity addFill =
     (let pattern = drumPatternFor style
      in for_each (drum_slot rnd pattern barNumber style baseVelocity dir intensity addFill) [0..15] tk)"

subsection \<open>Pad\<close>

definition generatePad :: "real \<Rightarrow> track \<Rightarrow> jsval list \<Rightarrow> int \<Rightarrow> real \<Rightarrow> track" where
  "generatePad r t chordNotes barNumber baseVelocity =
     addEvent t
       \<lparr>pitch = chordNotes, duration = Str ''1'',
        velocity = humanizeVelocity r (of_int \<lfloor>baseVelocity * 0.4\<rfloor>) 5,
        startTick = real_of_int (barNumber * 512), channel = None\<rparr>"

subsection \<open>Chords\<close>

text \<open>The syncopated hits of lofi and jazz: one draw decides whether the hit sounds, two
  more shape it.\<close>

fun chord_hits :: "rng \<Rightarrow> (int \<Rightarrow> real \<Rightarrow> real \<Rightarrow> NoteEvent) \<Rightarrow> real \<Rightarrow> int list
                     \<Rightarrow> track \<times> nat \<Rightarrow> track \<times> nat" where
  "chord_hits rnd mk threshold [] (t, k) = (t, k)"
| "chord_hits rnd mk threshold (pos # ps) (t, k) =
     (if rnd k > threshold
      then chord_hits rnd mk threshold ps (addEvent t (mk pos (rnd (k + 1)) (rnd (k + 2))), k + 3)
      else chord_hits rnd mk threshold ps (t, k + 1))"

definition generateChords :: "rng \<Rightarrow> track \<times> nat \<Rightarrow> jsval list \<Rightarrow> int \<Rightarrow> real \<Rightarrow> string
                                \<Rightarrow> StyleParams \<Rightarrow> SongSection \<Rightarrow> track \<times> nat" where
  "generateChords rnd tk chordNotes barNumber baseVelocity style styleParams section =
     (let tick = barNumber * 512;
          n = int (length chordNotes);
          sectionSparsity = (if section = Intro then 0.5 else if section = Outro then 0.6
                             else if section = Climax then 1.2 else 1.0)
      in if style = ''ambient'' then
           (let arpPattern = (if section = Climax then ARPEGGIO_upDown else ARPEGGIO_up);
                noteDuration = (if section = Intro then 256 else 128)
            in emit_each
                 (\<lambda>i indices rv rt.
                    \<lparr>pitch = map (\<lambda>idx. value_at chordNotes (jsrem idx n)) indices,
                     duration = Str (if section = Intro then ''2'' else ''4''),
                     velocity = humanizeVelocity rv (of_int \<lfloor>baseVelocity * 0.6 * sectionSparsity\<rfloor>) 8,
                     startTick = humanizeTiming rt (real_of_int (tick + i * noteDuration)) 10,
                     channel = None\<rparr>)
                 rnd 0 arpPattern tk)
         else if style = ''electronic'' then
           (let arpPattern = (if section = Climax then ARPEGGIO_upDown else ARPEGGIO_up);
                noteCount = (if section = Intro then 4 else if section = Climax then 16 else 8)
            in emit_each
                 (\<lambda>i _ rv rt.
                    (let noteIdx = (case at_index arpPattern (jsrem i (int (length arpPattern))) of
                                      Some (x # _) \<Rightarrow> x | _ \<Rightarrow> 0);
                         note = value_at chordNotes (jsrem noteIdx n)
                     in \<lparr>pitch = [note], duration = Str ''16'',
                         velocity = humanizeVelocity rv (of_int \<lfloor>baseVelocity * 0.7 * sectionSparsity\<rfloor>) 10,
                         startTick = humanizeTiming rt (real_of_int tick + real_of_int i * (512 / real_of_int noteCount)) 3,
                         channel = None\<rparr>))
                 rnd 0 [0..noteCount - 1] tk)
         else if style = ''lofi'' \<or> style = ''jazz'' then
           (let hits = (if section = Intro then [0, 8]
                        else if section = Climax then [0, 2, 4, 6, 8, 10, 12, 14]
                        else [0, 3, 6, 10, 14])
            in chord_hits rnd
                 (\<lambda>pos rv rt.
                    (let swingDelay = (if style = ''jazz'' \<and> jsrem pos 2 = 1 then 8 else 0)
                     in \<lparr>pitch = chordNotes, duration = Str ''8'',
                         velocity = humanizeVelocity rv (of_int \<lfloor>baseVelocity * 0.65 * sectionSparsity\<rfloor>) 12,
                         startTick = humanizeTiming rt (real_of_int (tick + pos * 32 + swingDelay)) 8,
                         channel = None\<rparr>))
                 (0.3 * (2 - sectionSparsity)) hits tk)
         else if useSustain styleParams \<or> section = Intro \<or> section = Outro then
           (case tk of (t, k) \<Rightarrow>
              (addEvent t
                 \<lparr>pitch = chordNotes, duration = Str ''1'',
                  velocity = humanizeVelocity (rnd k) (of_int \<lfloor>baseVelocity * 0.7 * sectionSparsity\<rfloor>) 5,
                  startTick = real_of_int tick, channel = None\<rparr>,
               k + 1))
         else
           (let beats = (if section = Climax then 4 else if section = Verse then 4 else 2)
            in emit_each
                 (\<lambda>beat _ rv rt.
                    \<lparr>pitch = chordNotes, duration = Str ''4'',
                     velocity = humanizeVelocity rv (of_int \<lfloor>baseVelocity * 0.65 * sectionSparsity\<rfloor>) 8,
                     startTick = humanizeTiming rt (real_of_int (tick + beat * 128)) 5,
                     channel = None\<rparr>)
                 rnd 0 [0..beats - 1] tk))"

subsection \<open>Bass\<close>

text \<open>\<open>chordNotes[j]?.replace(/\d+$/, '') + octave\<close>: the optional chain stops at
  \<open>undefined\<close> only, and \<open>undefined + octave\<close> is \<open>NaN\<close>.\<close>

definition chord_tone_in_octave :: "jsval list \<Rightarrow> int \<Rightarrow> int \<Rightarrow> jsval option" where
  "chord_tone_in_octave chordNotes j octave =
     (case value_at chordNotes j of
        Str s \<Rightarrow> Some (Str (strip_digits s @ number_to_string octave))
      | NaN \<Rightarrow> None
      | Undefined \<Rightarrow> Some NaN)"

definition bass_event :: "jsval \<Rightarrow> string \<Rightarrow> real \<Rightarrow> real \<Rightarrow> NoteEvent" where
  "bass_event note dur v t = \<lparr>pitch = [note], duration = Str dur, velocity = v, startTick = t, channel = None\<rparr>"

definition generateBass :: "rng \<Rightarrow> track \<times> nat \<Rightarrow> string \<Rightarrow> jsval list \<Rightarrow> int \<Rightarrow> real \<Rightarrow> string
                              \<Rightarrow> SongSection \<Rightarrow> (track \<times> nat) option" where
  "generateBass rnd tk bassRoot chordNotes barNumber baseVelocity style section =
     (let tick = barNumber * 512;
          rootNote = strip_digits bassRoot;
          octave = 2;
          root = Str (rootNote @ number_to_string octave)
      in do {
           third \<leftarrow> chord_tone_in_octave chordNotes 1 octave;
           fifth \<leftarrow> chord_tone_in_octave chordNotes 2 octave;
           let octaveUp = Str (rootNote @ number_to_string (octave + 1));
               nextRootIdx = indexOf NOTES rootNote;
               approachNote = plus_number (NOTES_at (jsrem (nextRootIdx + 11) 12)) octave;
               bassVelocity = real_of_int \<lfloor>baseVelocity * 0.85\<rfloor>
           in Some
             (if section = Intro \<or> section = Outro then
                (case tk of (t, k) \<Rightarrow>
                   (addEvent t
                      (bass_event root ''1'' (humanizeVelocity (rnd k) (bassVelocity - 10) 5) (real_of_int tick)),
                    k + 1))
              else if style = ''jazz'' then
                (let walkingNotes = (if section = Climax then [root, third, fifth, approachNote]
                                     else [root, fifth, root, approachNote])
                 in emit_each
                      (\<lambda>i note rv rt.
                         (let swingDelay = (if i = 1 \<or> i = 3 then 12 else 0)
                          in bass_event note ''4'' (humanizeVelocity rv bassVelocity 8)
                               (humanizeTiming rt (real_of_int (tick + i * 128 + swingDelay)) 10)))
                      rnd 0 walkingNotes tk)
              else if style = ''lofi'' then
                (let lazyOffset = 5;
                     pattern =
                       (if section = Climax
                        then [(0, root, ''8''), (2, root, ''16''), (4, third, ''8''), (6, fifth, ''8''),
                              (8, root, ''8''), (10, fifth, ''16''), (12, third, ''8''), (14, root, ''8'')]
                        else [(0, root, ''8''), (3, root, ''16''), (6, fifth, ''8''),
                              (8, root, ''8''), (11, third, ''16''), (14, fifth, ''8'')])
                 in emit_each
                      (\<lambda>_ (pos, note, dur) rv rt.
                         bass_event note dur (humanizeVelocity rv bassVelocity 10)
                           (humanizeTiming rt (real_of_int (tick + pos * 32 + lazyOffset)) 8))
                      rnd 0 pattern tk)
              else if style = ''electronic'' then
                (let noteCount = (if section = Climax then 16 else 8)
                 in emit_each
                      (\<lambda>i _ rv rt.
                         (let note = (if jsrem i 2 = 0 then root
                                      else if section = Climax \<and> jsrem i 4 = 1 then fifth else octaveUp)
                          in bass_event note (if section = Climax then ''16'' else ''8'')
                               (humanizeVelocity rv (bassVelocity + (if section = Climax then 15 else 10)) 5)
                               (humanizeTiming rt (real_of_int tick + real_of_int i * (512 / real_of_int noteCount)) 3)))
                      rnd 0 [0..noteCount - 1] tk)
              else if style = ''classical'' then
                (let alberti = (if section = Climax
                                then [root, fifth, third, fifth, root, third, fifth, third]
                                else [root, fifth, third, fifth, root, fifth, third, fifth])
                 in emit_each
                      (\<lambda>i note rv rt.
                         bass_event note ''8'' (humanizeVelocity rv (bassVelocity - 10) 8)
                           (humanizeTiming rt (real_of_int (tick + i * 64)) 5))
                      rnd 0 alberti tk)
              else if section = Climax then
                (case tk of (t, k) \<Rightarrow>
                   (addEvent
                      (addEvent t
                         (bass_event root ''2'' (humanizeVelocity (rnd k) (bassVelocity - 10) 5) (real_of_int tick)))
                      (bass_event octaveUp ''2'' (humanizeVelocity (rnd (k + 1)) (bassVelocity - 5) 5)
                         (real_of_int (tick + 256))),
                    k + 2))
              else
                (case tk of (t, k) \<Rightarrow>
                   (addEvent t
                      (bass_event root ''1'' (humanizeVelocity (rnd k) (bassVelocity - 15) 5) (real_of_int tick)),
                    k + 1)))
         })"

subsection \<open>Melody\<close>

text \<open>The two \<open>while\<close> loops that move a MIDI number into the octave range.\<close>

function raise_to :: "int \<Rightarrow> int \<Rightarrow> int" where
  "raise_to lo midi = (if midi < lo then raise_to lo (midi + 12) else midi)"
  by pat_completeness auto
termination
  by (relation "measure (\<lambda>(lo, midi). nat (lo - midi))") auto

function lower_to :: "int \<Rightarrow> int \<Rightarrow> int" where
  "lower_to hi midi = (if midi > hi then lower_to hi (midi - 12) else midi)"
  by pat_completeness auto
termination
  by (relation "measure (\<lambda>(hi, midi). nat (midi - hi))") auto

declare raise_to.simps [simp del] lower_to.simps [simp del]

text \<open>\<open>allPositions.filter(...)\<close>: one draw per candidate position, in order.\<close>

fun filter_positions :: "rng \<Rightarrow> nat \<Rightarrow> (int \<Rightarrow> real) \<Rightarrow> int list \<Rightarrow> int list" where
  "filter_positions rnd k chance [] = []"
| "filter_positions rnd k chance (pos # ps) =
     (if rnd k < chance pos then pos # filter_positions rnd (k + 1) chance ps
      else filter_positions rnd (k + 1) chance ps)"

definition strongBeats :: "int list" where
  "strongBeats = [0, 8]"

text \<open>The state of the \<open>notePositions.forEach\<close> loop: the track, \<open>currentNote\<close>,
  \<open>motifIdx\<close> and the number of the next draw.\<close>

record MelodyState =
  ms_track :: track
  ms_currentNote :: jsval
  ms_motifIdx :: nat
  ms_draws :: nat

text \<open>The two tests handed to \<open>scale.findIndex\<close>: the same note name as the chord tone
  (both stripped of their octave), and the same pitch class as the target.\<close>

definition same_name :: "jsval \<Rightarrow> jsval \<Rightarrow> bool option" where
  "same_name chordTone s =
     do { a \<leftarrow> replace_digits s; b \<leftarrow> replace_digits chordTone; Some (a = b) }"

definition same_pitch_class :: "int \<Rightarrow> jsval \<Rightarrow> bool option" where
  "same_pitch_class targetMidi s =
     do { m \<leftarrow> noteToMidi s; Some (jsrem m 12 = jsrem targetMidi 12) }"

text \<open>The last alternative of the target choice: a step towards the root of the chord
  when a strong beat follows among the note positions, a random step of one or two
  semitones (two draws) otherwise.\<close>

definition approach_target :: "rng \<Rightarrow> jsval list \<Rightarrow> int list \<Rightarrow> int \<Rightarrow> int \<Rightarrow> nat
                                 \<Rightarrow> (int \<times> nat) option" where
  "approach_target rnd chordNotes notePositions i currentMidi k0 =
     (let nextStrongBeat =
            list_ex (\<lambda>idx. int idx > i \<and> notePositions ! idx \<in> set strongBeats)
              [0..<length notePositions]
      in if nextStrongBeat then
           do {
             nextTargetMidi \<leftarrow> noteToMidi (value_at chordNotes 0);
             Some (currentMidi + (if nextTargetMidi > currentMidi then 1 else -1), k0)
           }
         else
           (let step = (if rnd k0 > 0.5 then 1 else -1)
            in Some (currentMidi + step * (if rnd (k0 + 1) > 0.7 then 2 else 1), k0 + 2)))"

text \<open>The first part of the loop body: the target scale degree and MIDI number of the
  note, with the updated \<open>motifIdx\<close> and draw counter.\<close>

definition melody_target :: "rng \<Rightarrow> jsval list \<Rightarrow> jsval list \<Rightarrow> int list \<Rightarrow> int list \<Rightarrow> bool
                               \<Rightarrow> int \<Rightarrow> int \<Rightarrow> int \<Rightarrow> int \<Rightarrow> jsval \<Rightarrow> nat \<Rightarrow> nat
                               \<Rightarrow> (int \<times> int \<times> nat \<times> nat) option" where
  "melody_target rnd scale chordNotes motif notePositions isEndOfPhrase
       phraseTargetScaleDegree phraseTargetMidi i pos currentNote motifIdx k =
     (let isLastNoteOfPhrase = (i = int (length notePositions) - 1 \<and> isEndOfPhrase);
          isStrongBeat = (pos \<in> set strongBeats);
          n = int (length scale)
      in if isLastNoteOfPhrase then
           Some (phraseTargetScaleDegree, phraseTargetMidi, motifIdx, k)
         else if isStrongBeat then
           (let chordToneIdx = \<lfloor>rnd k * real (length chordNotes)\<rfloor>;
                chordTone = value_at chordNotes chordToneIdx
            in do {
                 found \<leftarrow> findIndex (same_name chordTone) scale;
                 let (targetScaleDegree, motifIdx') =
                       (if found = -1
                        then (if motifIdx < length motif then (motif ! motifIdx, motifIdx + 1) else (0, motifIdx))
                        else (found, motifIdx));
                 targetMidi \<leftarrow> noteToMidi (value_at scale (jsrem targetScaleDegree n));
                 Some (targetScaleDegree, targetMidi, motifIdx', k + 1)
               })
         else if motifIdx < length motif \<and> rnd k > 0.4 then
           (let targetScaleDegree = motif ! motifIdx
            in do {
                 targetMidi \<leftarrow> noteToMidi (value_at scale (jsrem targetScaleDegree n));
                 Some (targetScaleDegree, targetMidi, motifIdx + 1, k + 1)
               })
         else
           (let k0 = (if motifIdx < length motif then k + 1 else k)
            in do {
                 currentMidi \<leftarrow> noteToMidi currentNote;
                 (targetMidi, k1) \<leftarrow> approach_target rnd chordNotes notePositions i currentMidi k0;
                 found \<leftarrow> findIndex (same_pitch_class targetMidi) scale;
                 Some (if found = -1 then 0 else found, targetMidi, motifIdx, k1)
               }))"

text \<open>The octave adjustment of the loop body: into the style's octave range, then back
  towards the previous note when the leap is too wide (one draw when it is, one more when
  the note is pulled back).\<close>

definition adjust_midi :: "rng \<Rightarrow> StyleParams \<Rightarrow> string \<Rightarrow> int \<Rightarrow> int \<Rightarrow> nat \<Rightarrow> int \<times> nat" where
  "adjust_midi rnd styleParams style midi0 prevMidi k =
     (let midi1 = raise_to ((fst (octaveRange styleParams) + 1) * 12) midi0;
          midi2 = lower_to ((snd (octaveRange styleParams) + 1) * 12 + 11) midi1;
          maxInterval = (if style = ''jazz'' then 9 else if style = ''classical'' then 8 else 6);
          far = (\<bar>midi2 - prevMidi\<bar> > maxInterval);
          pull = (far \<and> rnd k > 0.15)
      in if pull
         then (let dir = (if midi2 > prevMidi then 1 else -1)
               in (prevMidi + dir * (if rnd (k + 1) > 0.5 then 3 else 2), k + 2))
         else (midi2, if far then k + 1 else k))"

text \<open>The loop body for the note at index \<open>i\<close> and position \<open>pos\<close>.\<close>

definition melody_note :: "rng \<Rightarrow> jsval list \<Rightarrow> jsval list \<Rightarrow> int list \<Rightarrow> int list \<Rightarrow> int \<Rightarrow> real
                             \<Rightarrow> StyleParams \<Rightarrow> Phrase \<Rightarrow> string \<Rightarrow> int list \<Rightarrow> int
                             \<Rightarrow> int \<times> int \<Rightarrow> MelodyState \<Rightarrow> MelodyState option" where
  "melody_note rnd scale chordNotes motif notePositions barNumber baseVelocity
       styleParams phrase style chordMidis phraseTargetMidi = (\<lambda>(i, pos) st.
     (let tick = barNumber * 512;
          isEndOfPhrase = (jsrem (barNumber + 1) 2 = 0);
          isLastNoteOfPhrase = (i = int (length notePositions) - 1 \<and> isEndOfPhrase);
          currentNote = ms_currentNote st
      in do {
           (targetScaleDegree, targetMidi, motifIdx', k1) \<leftarrow>
             melody_target rnd scale chordNotes motif notePositions isEndOfPhrase
               (targetResolution phrase) phraseTargetMidi i pos currentNote (ms_motifIdx st) (ms_draws st);
           let note0 = value_at scale (jsrem targetScaleDegree (int (length scale)));
           midi0 \<leftarrow> (if targetMidi \<noteq> 0 then Some targetMidi else noteToMidi note0);
           prevMidi \<leftarrow> noteToMidi currentNote;
           let (midi, k2) = adjust_midi rnd styleParams style midi0 prevMidi k1;
               note = midiToNote midi;
               isChordTone = (jsrem midi 12 \<in> set chordMidis);
               isDownbeat = (pos = 0 \<or> pos = 8);
               velocity0 = baseVelocity + (if isChordTone then 8 else 0) + (if isDownbeat then 5 else 0);
               phraseProgress = real_of_int i / real_of_int (max 1 (int (length notePositions) - 1));
               velocity1 = (if phrase_type phrase = Question
                            then velocity0 + of_int \<lfloor>phraseProgress * 8\<rfloor>
                            else velocity0 - of_int \<lfloor>phraseProgress * 6\<rfloor>);
               lazy = (\<not> (style = ''jazz'' \<and> \<not> isDownbeat) \<and> style = ''lofi'');
               timingOffset = (if style = ''jazz'' \<and> \<not> isDownbeat then 8
                               else if style = ''lofi'' then \<lfloor>rnd k2 * 6\<rfloor> + 2 else 0);
               k3 = (if lazy then k2 + 1 else k2);
               velocity2 = humanizeVelocity (rnd k3) velocity1 10;
               k4 = k3 + 1;
               held = (isLastNoteOfPhrase \<and> phrase_type phrase = Answer);
               durations = (if style = ''ambient'' then [Str ''4'', Str ''2'', Str ''4'']
                            else [Str ''8'', Str ''8'', Str ''4'', Str ''8'', Str ''16'']);
               dur = (if held then Str ''4''
                      else if isDownbeat then (if rnd k4 > 0.5 then Str ''4'' else Str ''8'')
                      else value_at durations \<lfloor>rnd k4 * real (length durations)\<rfloor>);
               k5 = (if held then k4 else k4 + 1);
               ev = \<lparr>pitch = [note], duration = dur, velocity = velocity2,
                     startTick = humanizeTiming (rnd k5) (real_of_int (tick + pos * 32 + timingOffset))
                                   (if style = ''lofi'' then 10 else 6),
                     channel = None\<rparr>
           in Some \<lparr>ms_track = addEvent (ms_track st) ev, ms_currentNote = note,
                    ms_motifIdx = motifIdx', ms_draws = k5 + 1\<rparr>
         }))"

text \<open>The positions of the bar that get a note: eight draws filter the candidates, and
  the closing bar of an answer phrase drops position 14 for a rest.\<close>

definition note_positions :: "rng \<Rightarrow> nat \<Rightarrow> Phrase \<Rightarrow> int \<Rightarrow> real \<Rightarrow> int list" where
  "note_positions rnd k phrase barNumber effectiveDensity =
     (let isEndOfPhrase = (jsrem (barNumber + 1) 2 = 0);
          phraseDensityMod = (if phrase_type phrase = Answer \<and> isEndOfPhrase then 0.7 else 1.0);
          allPositions = [0, 2, 4, 6, 8, 10, 12, 14];
          chance = (\<lambda>pos. if pos \<in> set strongBeats then effectiveDensity * 1.3
                           else effectiveDensity * phraseDensityMod);
          filtered = filter_positions rnd k chance allPositions
      in if phrase_type phrase = Answer \<and> isEndOfPhrase \<and> 14 \<in> set filtered
         then butlast filtered else filtered)"

definition generateMelody :: "rng \<Rightarrow> track \<times> nat \<Rightarrow> jsval list \<Rightarrow> jsval list \<Rightarrow> int list \<Rightarrow> int \<Rightarrow> real
                                \<Rightarrow> StyleParams \<Rightarrow> jsval \<Rightarrow> Phrase \<Rightarrow> real \<Rightarrow> string
                                \<Rightarrow> (track \<times> jsval \<times> nat) option" where
  "generateMelody rnd tk scale chordNotes motif barNumber baseVelocity styleParams lastNote
       phrase effectiveDensity style =
     (case tk of (t, k) \<Rightarrow>
      do {
        chordMidis0 \<leftarrow> those (map noteToMidi chordNotes);
        let chordMidis = map (\<lambda>n. jsrem n 12) chordMidis0;
        let notePositions = note_positions rnd k phrase barNumber effectiveDensity;
        let phraseTargetNote = value_at scale (jsrem (targetResolution phrase) (int (length scale)));
        phraseTargetMidi \<leftarrow> noteToMidi phraseTargetNote;
        st \<leftarrow> for_each
                (melody_note rnd scale chordNotes motif notePositions barNumber baseVelocity
                   styleParams phrase style chordMidis phraseTargetMidi)
                (zip [0..int (length notePositions) - 1] notePositions)
                \<lparr>ms_track = t, ms_currentNote = lastNote, ms_motifIdx = 0, ms_draws = k + 8\<rparr>;
        Some (ms_track st, ms_currentNote st, ms_draws st)
      })"

section \<open>The segment orchestrator: generateSegment\<close>

record EndingNotes =
  en_melody :: "(jsval \<times> real) list"
  en_bass :: "(string \<times> real) list"
  en_chords :: "(jsval list \<times> real) list"

record ContinuationContext =
  ctx_key :: string
  ctx_mode :: string
  ctx_tempo :: real
  ctx_style :: string
  ctx_progressionPosition :: int
  ctx_currentChord :: "string option"
  ctx_currentChordType :: "string option"
  ctx_lastNotes :: EndingNotes
  ctx_dynamics :: Dynamics
  ctx_totalBars :: int
  ctx_motif :: "int list option"

text \<open>Every field of the options is optional; an absent field takes its default.\<close>

record GenerationOptions =
  opt_bars :: "int option"
  opt_key :: "string option"
  opt_mode :: "string option"
  opt_tempo :: "real option"
  opt_style :: "string option"
  opt_totalBarsOffset :: "int option"
  opt_extensionDirection :: "ExtensionDirection option"

definition default_to :: "'a option \<Rightarrow> 'a \<Rightarrow> 'a" where
  "default_to x d = (case x of Some v \<Rightarrow> v | None \<Rightarrow> d)"

record SegmentInfo =
  seg_bars :: int
  seg_durationSeconds :: real
  seg_endingNotes :: EndingNotes
  seg_endingChord :: string
  seg_endingChordType :: string
  seg_progressionPosition :: int
  seg_dynamics :: Dynamics
  seg_motif :: "int list"

text \<open>The result: the five tracks handed to the MIDI writer (whose byte encoding is not
  modelled), the tempo and instruments set on them, and the segment info.\<close>

record GenerationResult =
  res_melodyTrack :: track
  res_chordTrack :: track
  res_bassTrack :: track
  res_padTrack :: track
  res_drumTrack :: track
  res_tempo :: real
  res_instruments :: Instruments
  segmentInfo :: SegmentInfo

text \<open>The variables the bar loop updates.\<close>

record BarState =
  st_progressionPos :: int
  st_dynamics :: Dynamics
  st_motifVariation :: int
  st_lastMelodyNote :: jsval
  st_endingNotes :: EndingNotes
  st_melodyTrack :: track
  st_chordTrack :: track
  st_bassTrack :: track
  st_padTrack :: track
  st_drumTrack :: track
  st_draws :: nat

text \<open>The truthiness of a value used as a pitch name: only a non-empty string.\<close>

fun truthy :: "jsval \<Rightarrow> bool" where
  "truthy (Str s) = (s \<noteq> [])"
| "truthy NaN = False"
| "truthy Undefined = False"

text \<open>Line 347: the chord of a bar is read from the progression at
  \<open>progressionPos % progression.length\<close>; destructuring \<open>undefined\<close> raises.\<close>

definition resolveChord :: "(int \<times> string) list \<Rightarrow> int \<Rightarrow> (int \<times> string) option" where
  "resolveChord progression progressionPos =
     at_index progression (jsrem progressionPos (int (length progression)))"

text \<open>Line 358: the velocity handed to the track generators.\<close>

definition barBaseVelocity :: "Dynamics \<Rightarrow> int \<Rightarrow> int \<Rightarrow> SectionConfig \<Rightarrow> real" where
  "barBaseVelocity dyn bar bars sectionConfig =
     getBaseVelocity dyn bar bars + velocityMod sectionConfig"

text \<open>Lines 410 to 415: the progression advances every \<open>progressionRate\<close> bars. A rate
  that is an inherited member makes the remainder \<open>NaN\<close>, which never equals 0.\<close>

definition nextPosition :: "(int \<times> string) list \<Rightarrow> int \<Rightarrow> int" where
  "nextPosition progression progressionPos = jsrem (progressionPos + 1) (int (length progression))"

definition advanceProgression :: "string \<Rightarrow> (int \<times> string) list \<Rightarrow> int \<Rightarrow> int \<times> int \<Rightarrow> int \<times> int" where
  "advanceProgression style progression bar = (\<lambda>(progressionPos, motifVariation).
     (case getProgressionRate style of
        Own progressionRate \<Rightarrow>
          if jsrem (bar + 1) progressionRate = 0
          then (nextPosition progression progressionPos, motifVariation + 1)
          else (progressionPos, motifVariation)
      | _ \<Rightarrow> (progressionPos, motifVariation)))"

text \<open>The body of the bar loop.\<close>

definition generateBar :: "rng \<Rightarrow> int \<Rightarrow> string \<Rightarrow> string \<Rightarrow> string \<Rightarrow> int \<Rightarrow> ExtensionDirection
                             \<Rightarrow> StyleParams \<Rightarrow> jsval list \<Rightarrow> (int \<times> string) list \<Rightarrow> int list
                             \<Rightarrow> int \<Rightarrow> BarState \<Rightarrow> BarState option" where
  "generateBar rnd bars key mode style totalBarsOffset extensionDirection styleParams scale
       progression motif bar st =
     do {
       (chordDegree, chordType) \<leftarrow> resolveChord progression (st_progressionPos st);
       chordNotes \<leftarrow> getChordFromDegree key mode chordDegree chordType 3;
       chordNotesHigh \<leftarrow> getChordFromDegree key mode chordDegree chordType 4;
       chordRootName \<leftarrow> replace_digits (value_at chordNotes 0);
       let bassRoot = chordRootName @ ''2'';
       let section = getSongSection bar bars totalBarsOffset extensionDirection;
       let sectionConfig = SECTION_CONFIGS section;
       let phrase = getPhraseType (rnd (st_draws st)) bar;
       let k0 = st_draws st + 1;
       let baseVelocity = barBaseVelocity (st_dynamics st) bar bars sectionConfig;
       let isLastBarOfSection = (getSongSection (bar + 1) bars 0 Continue \<noteq> section);
       (drumTrack, k1) \<leftarrow>
         (case cfg_drums sectionConfig of
            NoDrums \<Rightarrow> Some (st_drumTrack st, k0)
          | Drums intensity \<Rightarrow>
              generateDrums rnd (st_drumTrack st, k0) bar style baseVelocity
                (direction (st_dynamics st)) intensity isLastBarOfSection);
       let (padTrack, k2) =
         (if cfg_pad sectionConfig \<and>
             (style = ''ambient'' \<or> style = ''electronic'' \<or> section = Intro \<or> section = Outro)
          then (generatePad (rnd k1) (st_padTrack st) chordNotesHigh bar
                  (baseVelocity * (if section = Climax then 1.1 else 0.9)), k1 + 1)
          else (st_padTrack st, k1));
       let (chordTrack, k3) =
         (if cfg_chords sectionConfig
          then generateChords rnd (st_chordTrack st, k2) chordNotes bar baseVelocity style styleParams section
          else (st_chordTrack st, k2));
       (bassTrack, k4) \<leftarrow>
         (if cfg_bass sectionConfig
          then generateBass rnd (st_bassTrack st, k3) bassRoot chordNotes bar baseVelocity style section
          else Some (st_bassTrack st, k3));
       (melodyTrack, lastMelodyNote, k5) \<leftarrow>
         (if cfg_melody sectionConfig
          then (let currentMotif = varyMotif motif (st_motifVariation st) (int (length scale));
                    effectiveDensity = noteDensity styleParams * density sectionConfig
                in generateMelody rnd (st_melodyTrack st, k4) scale chordNotes currentMotif bar
                     baseVelocity styleParams (st_lastMelodyNote st) phrase effectiveDensity style)
          else Some (st_melodyTrack st, st_lastMelodyNote st, k4));
       let endingNotes =
         (if bar \<ge> bars - 2
          then \<lparr>en_melody = en_melody (st_endingNotes st) @ [(lastMelodyNote, baseVelocity)],
                en_bass = en_bass (st_endingNotes st) @ [(bassRoot, baseVelocity)],
                en_chords = en_chords (st_endingNotes st) @ [(chordNotes, baseVelocity)]\<rparr>
          else st_endingNotes st);
       let (progressionPos, motifVariation) =
         advanceProgression style progression bar (st_progressionPos st, st_motifVariation st);
       let (dynamics', drew) = evolveDynamics (rnd k5) (st_dynamics st) bar bars;
       Some \<lparr>st_progressionPos = progressionPos, st_dynamics = dynamics',
             st_motifVariation = motifVariation, st_lastMelodyNote = lastMelodyNote,
             st_endingNotes = endingNotes, st_melodyTrack = melodyTrack, st_chordTrack = chordTrack,
             st_bassTrack = bassTrack, st_padTrack = padTrack, st_drumTrack = drumTrack,
             st_draws = (if drew then k5 + 1 else k5)\<rparr>
     }"

text \<open>Lines 329 to 343: the state before the first bar.\<close>

definition initialState :: "rng \<Rightarrow> jsval list \<Rightarrow> ContinuationContext option \<Rightarrow> int list \<times> BarState" where
  "initialState rnd scale continuationContext =
     (let progressionPos =
            (case continuationContext of
               Some c \<Rightarrow> (if ctx_progressionPosition c \<noteq> 0 then ctx_progressionPosition c else 0)
             | None \<Rightarrow> 0);
          dynamics0 =
            (case continuationContext of
               Some c \<Rightarrow> ctx_dynamics c
             | None \<Rightarrow> \<lparr>level = Medium, direction = Stable, velocityTrend = 0\<rparr>);
          (motif, k) =
            (case (case continuationContext of Some c \<Rightarrow> ctx_motif c | None \<Rightarrow> None) of
               Some m \<Rightarrow> (m, 0)
             | None \<Rightarrow> generateMotif rnd 0 (int (length scale)));
          lastNote =
            (case continuationContext of
               Some c \<Rightarrow> (case en_melody (ctx_lastNotes c) of (n, _) # _ \<Rightarrow> n | [] \<Rightarrow> Undefined)
             | None \<Rightarrow> Undefined);
          lastMelodyNote =
            (if truthy lastNote then lastNote
             else (case motif of m0 # _ \<Rightarrow> value_at scale m0 | [] \<Rightarrow> Undefined))
      in (motif,
          \<lparr>st_progressionPos = progressionPos, st_dynamics = dynamics0, st_motifVariation = 0,
           st_lastMelodyNote = lastMelodyNote,
           st_endingNotes = \<lparr>en_melody = [], en_bass = [], en_chords = []\<rparr>,
           st_melodyTrack = [], st_chordTrack = [], st_bassTrack = [], st_padTrack = [],
           st_drumTrack = [], st_draws = k\<rparr>))"

text \<open>\<open>STYLE_PARAMS[style] || STYLE_PARAMS.ambient\<close>.\<close>

definition styleParamsFor :: "string \<Rightarrow> StyleParams property" where
  "styleParamsFor style = or_default (get_property STYLE_PARAMS style) STYLE_PARAMS_ambient"

text \<open>
  Lines 295 to 343 of \<open>generateSegment\<close>: the tables, the scale, the motif and the state
  before the first bar. When the style names an inherited member, the style parameters,
  the instruments and the progression are all that member; the first use of the
  progression (line 347, or line 427 when there is no bar) then raises, so the model
  raises as soon as it has read the tables.
\<close>

record Setup =
  su_scale :: "jsval list"
  su_styleParams :: StyleParams
  su_instruments :: Instruments
  su_progression :: "(int \<times> string) list"
  su_motif :: "int list"
  su_state :: BarState

definition segmentSetup :: "rng \<Rightarrow> GenerationOptions \<Rightarrow> ContinuationContext option \<Rightarrow> Setup option" where
  "segmentSetup rnd options continuationContext =
     (let key = default_to (opt_key options) ''C'';
          mode = default_to (opt_mode options) ''major'';
          style = default_to (opt_style options) ''ambient''
      in do {
           scale \<leftarrow> generator_getScale key mode 4;
           styleParams \<leftarrow> (case styleParamsFor style of Own sp \<Rightarrow> Some sp | _ \<Rightarrow> None);
           instruments \<leftarrow> (case getInstrumentsForStyle style of Own ins \<Rightarrow> Some ins | _ \<Rightarrow> None);
           progression \<leftarrow> (case getProgression style of Own p \<Rightarrow> Some p | _ \<Rightarrow> None);
           let (motif, st0) = initialState rnd scale continuationContext;
           Some \<lparr>su_scale = scale, su_styleParams = styleParams, su_instruments = instruments,
                 su_progression = progression, su_motif = motif, su_state = st0\<rparr>
         })"

text \<open>The bar loop of lines 346 to 419, run for the bars \<open>0, ..., n - 1\<close> of a segment of
  \<open>bars\<close> bars: the state in which bar \<open>n\<close> starts.\<close>

definition stateAfterBars :: "rng \<Rightarrow> GenerationOptions \<Rightarrow> Setup \<Rightarrow> int \<Rightarrow> BarState option" where
  "stateAfterBars rnd options su n =
     (let bars = default_to (opt_bars options) 16;
          key = default_to (opt_key options) ''C'';
          mode = default_to (opt_mode options) ''major'';
          style = default_to (opt_style options) ''ambient'';
          totalBarsOffset = default_to (opt_totalBarsOffset options) 0;
          extensionDirection = default_to (opt_extensionDirection options) Continue
      in for_each
           (generateBar rnd bars key mode style totalBarsOffset extensionDirection
              (su_styleParams su) (su_scale su) (su_progression su) (su_motif su))
           [0..n - 1] (su_state su))"

text \<open>The chord that bar \<open>b\<close> of the segment resolves at line 347.\<close>

definition barChord :: "rng \<Rightarrow> GenerationOptions \<Rightarrow> ContinuationContext option \<Rightarrow> int
                          \<Rightarrow> (int \<times> string) option" where
  "barChord rnd options continuationContext b =
     do {
       su \<leftarrow> segmentSetup rnd options continuationContext;
       st \<leftarrow> stateAfterBars rnd options su b;
       resolveChord (su_progression su) (st_progressionPos st)
     }"

definition generateSegment :: "rng \<Rightarrow> GenerationOptions \<Rightarrow> ContinuationContext option
                                 \<Rightarrow> GenerationResult option" where
  "generateSegment rnd options continuationContext =
     (let bars = default_to (opt_bars options) 16;
          key = default_to (opt_key options) ''C'';
          mode = default_to (opt_mode options) ''major'';
          tempo = default_to (opt_tempo options) 90
      in do {
           su \<leftarrow> segmentSetup rnd options continuationContext;
           st \<leftarrow> stateAfterBars rnd options su bars;
           let progression = su_progression su;
           let progressionPos = st_progressionPos st;
           let durationSeconds = (real_of_int bars * 4 / tempo) * 60;
           finalChord \<leftarrow>
             at_index progression
               (jsrem (progressionPos - 1 + int (length progression)) (int (length progression)));
           finalChordNotes \<leftarrow> getChordFromDegree key mode (fst finalChord) (snd finalChord) 3;
           endingChord \<leftarrow> replace_digits (value_at finalChordNotes 0);
           Some \<lparr>res_melodyTrack = st_melodyTrack st, res_chordTrack = st_chordTrack st,
                 res_bassTrack = st_bassTrack st, res_padTrack = st_padTrack st,
                 res_drumTrack = st_drumTrack st, res_tempo = tempo,
                 res_instruments = su_instruments su,
                 segmentInfo =
                   \<lparr>seg_bars = bars, seg_durationSeconds = durationSeconds,
                    seg_endingNotes = st_endingNotes st, seg_endingChord = endingChord,
                    seg_endingChordType = snd finalChord, seg_progressionPosition = progressionPos,
                    seg_dynamics = st_dynamics st, seg_motif = su_motif su\<rparr>\<rparr>
         })"

section \<open>Predicates used in the statements\<close>

text \<open>A value that is a string.\<close>

fun is_Str :: "jsval \<Rightarrow> bool" where
  "is_Str (Str s) = True"
| "is_Str NaN = False"
| "is_Str Undefined = False"

text \<open>The contract of \<open>Math.random()\<close>: every draw lies in \<open>[0, 1)\<close>.\<close>

definition unit_interval :: "rng \<Rightarrow> bool" where
  "unit_interval rnd = (\<forall>k. 0 \<le> rnd k \<and> rnd k < 1)"

definition nonneg_list :: "int list \<Rightarrow> bool" where
  "nonneg_list xs = list_all (\<lambda>x. 0 \<le> x) xs"

text \<open>A progression as the tables hold them: not empty, with scale degrees that are not
  negative and chord types that are not names of inherited members.\<close>

definition chord_types_ok :: "(int \<times> string) list \<Rightarrow> bool" where
  "chord_types_ok p = (p \<noteq> [] \<and> list_all (\<lambda>(d, t). 0 \<le> d \<and> t \<notin> set OBJECT_PROTOTYPE) p)"

text \<open>The invariant of the bar loop: the progression position is not negative and the
  last melody note is a string.\<close>

definition bar_inv :: "BarState \<Rightarrow> bool" where
  "bar_inv st = (0 \<le> st_progressionPos st \<and> is_Str (st_lastMelodyNote st))"

text \<open>What the bar loop needs of a setup.\<close>

definition setup_ok :: "Setup \<Rightarrow> bool" where
  "setup_ok su =
     (list_all is_Str (su_scale su) \<and> su_scale su \<noteq> [] \<and> chord_types_ok (su_progression su) \<and>
      nonneg_list (su_motif su) \<and> -1 \<le> fst (octaveRange (su_styleParams su)) \<and>
      -1 \<le> snd (octaveRange (su_styleParams su)) \<and> bar_inv (su_state su))"

text \<open>
  A continuation context the generator can work from: its progression position is not
  negative, and when it carries a motif, the motif has no negative entry and either the
  context has a last melody note (a non-empty string) or the first entry of the motif is
  a degree of the scale.
\<close>

definition valid_context :: "int \<Rightarrow> ContinuationContext \<Rightarrow> bool" where
  "valid_context scaleLength c =
     (0 \<le> ctx_progressionPosition c \<and>
      (case ctx_motif c of
         None \<Rightarrow> True
       | Some m \<Rightarrow>
           nonneg_list m \<and>
           ((case en_melody (ctx_lastNotes c) of (n, _) # _ \<Rightarrow> truthy n | [] \<Rightarrow> False)
            \<or> (case m of m0 # _ \<Rightarrow> m0 < scaleLength | [] \<Rightarrow> False))))"

text \<open>
  The inputs on which \<open>generateSegment\<close> is shown to return: draws in \<open>[0, 1)\<close>, a key that
  is one of the twelve names of \<open>NOTES\<close>, a mode and a style that are not names of
  members inherited from \<open>Object.prototype\<close>, and no context or a valid one (the scale
  has five notes in the pentatonic mode and seven otherwise).
\<close>

definition valid_input :: "rng \<Rightarrow> GenerationOptions \<Rightarrow> ContinuationContext option \<Rightarrow> bool" where
  "valid_input rnd options continuationContext =
     (unit_interval rnd \<and>
      default_to (opt_key options) ''C'' \<in> set NOTES \<and>
      default_to (opt_mode options) ''major'' \<notin> set OBJECT_PROTOTYPE \<and>
      default_to (opt_style options) ''ambient'' \<notin> set OBJECT_PROTOTYPE \<and>
      (case continuationContext of
         None \<Rightarrow> True
       | Some c \<Rightarrow>
           valid_context (if default_to (opt_mode options) ''major'' = ''pentatonic'' then 5 else 7) c))"

text \<open>
  Inputs on which the integers of the model are the numbers of the code: the bar count,
  the bar offset, the progression position and the motif entries of the context within
  \<open>MAX_SAFE_INTEGER\<close>, and the MIDI number of the context's last melody note as well.
\<close>

definition safe_note :: "jsval \<Rightarrow> bool" where
  "safe_note n = (case noteToMidi n of Some m \<Rightarrow> m \<le> MAX_SAFE_INTEGER | None \<Rightarrow> True)"

definition safe_context :: "ContinuationContext \<Rightarrow> bool" where
  "safe_context c =
     (ctx_progressionPosition c \<le> MAX_SAFE_INTEGER \<and>
      (case ctx_motif c of None \<Rightarrow> True | Some m \<Rightarrow> list_all (\<lambda>x. x \<le> MAX_SAFE_INTEGER) m) \<and>
      (case en_melody (ctx_lastNotes c) of (n, _) # _ \<Rightarrow> safe_note n | [] \<Rightarrow> True))"

definition safe_input :: "GenerationOptions \<Rightarrow> ContinuationContext option \<Rightarrow> bool" where
  "safe_input options continuationContext =
     (default_to (opt_bars options) 16 \<le> MAX_SAFE_INTEGER \<and>
      \<bar>default_to (opt_totalBarsOffset options) 0\<bar> \<le> MAX_SAFE_INTEGER \<and>
      (case continuationContext of None \<Rightarrow> True | Some c \<Rightarrow> safe_context c))"

text \<open>The supported pitch names in canonical form: a name of \<open>NOTES\<close> followed by the
  decimal digits of an octave number, without leading zeros.\<close>

definition canonical_octave :: "string \<Rightarrow> bool" where
  "canonical_octave ds = (all_digits ds \<and> (hd ds \<noteq> CHR ''0'' \<or> ds = ''0''))"

lemma jsrem_nonneg: "0 \<le> a \<Longrightarrow> 0 < b \<Longrightarrow> jsrem a b = a mod b"
  by (cases "a = 0") (simp_all add: jsrem_def)

lemma jsrem_range: "0 \<le> a \<Longrightarrow> 0 < b \<Longrightarrow> 0 \<le> jsrem a b \<and> jsrem a b < b"
  by (simp add: jsrem_nonneg)

lemma indexOf_ge: "-1 \<le> indexOf xs x"
  by (induction xs) (auto simp: Let_def)

lemma indexOf_mem:
  "x \<in> set xs \<Longrightarrow> 0 \<le> indexOf xs x \<and> indexOf xs x < int (length xs) \<and> xs ! nat (indexOf xs x) = x"
proof (induction xs)
  case Nil
  then show ?case by simp
next
  case (Cons y ys)
  show ?case
  proof (cases "y = x")
    case True
    then show ?thesis by simp
  next
    case False
    with Cons.prems have "x \<in> set ys" by simp
    from Cons.IH [OF this] False show ?thesis
      by (simp add: Let_def nat_add_distrib)
  qed
qed

lemma length_NOTES: "length NOTES = 12"
  by (simp add: NOTES_def)

lemma NOTES_at_Str: "0 \<le> i \<Longrightarrow> i < 12 \<Longrightarrow> \<exists>s. NOTES_at i = Str s \<and> s \<in> set NOTES"
  by (simp add: NOTES_at_def at_index_def length_NOTES)

lemma note_of_interval_Str:
  assumes "0 \<le> r" "0 \<le> i"
  shows "is_Str (note_of_interval r oct i)"
proof -
  have "0 \<le> jsrem (r + i) 12 \<and> jsrem (r + i) 12 < 12"
    using assms by (intro jsrem_range) simp_all
  then obtain s where "NOTES_at (jsrem (r + i) 12) = Str s"
    using NOTES_at_Str by blast
  then show ?thesis by (simp add: note_of_interval_def Let_def)
qed

lemma get_property_cases:
  "k \<notin> set OBJECT_PROTOTYPE \<Longrightarrow>
     or_default (get_property T k) d = Own (case map_of T k of Some v \<Rightarrow> v | None \<Rightarrow> d)"
  by (simp add: get_property_def split: option.splits)

lemma map_of_pred:
  "list_all (\<lambda>(k, v). P v) T \<Longrightarrow> P d \<Longrightarrow> P (case map_of T k of Some v \<Rightarrow> v | None \<Rightarrow> d)"
  by (induction T) (auto split: option.splits)

lemma CHORDS_ok: "list_all (\<lambda>(k, v). nonneg_list v \<and> 3 \<le> length v) CHORDS"
  by (simp add: CHORDS_def nonneg_list_def)

lemma SCALES_ok: "list_all (\<lambda>(k, v). nonneg_list v \<and> 5 \<le> length v) SCALES"
  by (simp add: SCALES_def nonneg_list_def)

lemma generator_patterns_ok:
  "list_all (\<lambda>(k, v). nonneg_list v \<and> (length v = 7 \<or> length v = 5)) generator_patterns"
  by (simp add: generator_patterns_def nonneg_list_def)

lemma map_note_Str:
  "0 \<le> r \<Longrightarrow> nonneg_list p \<Longrightarrow> list_all is_Str (map (note_of_interval r oct) p)"
  by (induction p) (simp_all add: nonneg_list_def note_of_interval_Str)

lemma getChord_total:
  assumes "name \<in> set NOTES" "chordType \<notin> set OBJECT_PROTOTYPE"
  shows "\<exists>notes. getChord (Str name) chordType oct = Some notes \<and> list_all is_Str notes \<and> 3 \<le> length notes"
proof -
  define p where "p = (case map_of CHORDS chordType of Some v \<Rightarrow> v | None \<Rightarrow> CHORDS_major)"
  have p: "nonneg_list p \<and> 3 \<le> length p"
    unfolding p_def
    by (rule map_of_pred [OF CHORDS_ok]) (simp add: CHORDS_major_def nonneg_list_def)
  have own: "or_default (get_property CHORDS chordType) CHORDS_major = Own p"
    unfolding p_def by (rule get_property_cases [OF assms(2)])
  have r: "0 \<le> indexOf NOTES name" using indexOf_mem [OF assms(1)] by simp
  show ?thesis
    using p map_note_Str [OF r, of p oct]
    by (simp add: getChord_def own)
qed

lemma getChordFromDegree_total:
  assumes "key \<in> set NOTES" "mode \<notin> set OBJECT_PROTOTYPE" "0 \<le> degree" "chordType \<notin> set OBJECT_PROTOTYPE"
  shows "\<exists>notes. getChordFromDegree key mode degree chordType oct = Some notes
            \<and> list_all is_Str notes \<and> 3 \<le> length notes"
proof -
  define sc where "sc = (case map_of SCALES mode of Some v \<Rightarrow> v | None \<Rightarrow> SCALES_major)"
  have s: "nonneg_list sc \<and> 5 \<le> length sc"
    unfolding sc_def
    by (rule map_of_pred [OF SCALES_ok]) (simp add: SCALES_major_def nonneg_list_def)
  have own: "or_default (get_property SCALES mode) SCALES_major = Own sc"
    unfolding sc_def by (rule get_property_cases [OF assms(2)])
  define j where "j = jsrem degree (int (length sc))"
  have len: "0 < int (length sc)" using s by linarith
  have j: "0 \<le> j \<and> j < int (length sc)"
    unfolding j_def using assms(3) len by (rule jsrem_range)
  then have at: "at_index sc j = Some (sc ! nat j)" by (simp add: at_index_def)
  have "nat j < length sc" using j by linarith
  then have "sc ! nat j \<in> set sc" by (rule nth_mem)
  then have i: "0 \<le> sc ! nat j" using s by (simp add: nonneg_list_def list_all_iff)
  have r: "0 \<le> indexOf NOTES key" using indexOf_mem [OF assms(1)] by simp
  have "0 \<le> jsrem (indexOf NOTES key + sc ! nat j) 12 \<and> jsrem (indexOf NOTES key + sc ! nat j) 12 < 12"
    using r i by (intro jsrem_range) simp_all
  then obtain name where n: "NOTES_at (jsrem (indexOf NOTES key + sc ! nat j) 12) = Str name" "name \<in> set NOTES"
    using NOTES_at_Str by blast
  have "getChordFromDegree key mode degree chordType oct = getChord (Str name) chordType oct"
    unfolding getChordFromDegree_def own Let_def
    using at n(1) by (simp add: j_def)
  then show ?thesis using getChord_total [OF n(2) assms(4)] by simp
qed

lemma generator_getScale_total:
  assumes "key \<in> set NOTES" "mode \<notin> set OBJECT_PROTOTYPE"
  shows "\<exists>scale. generator_getScale key mode oct = Some scale \<and> list_all is_Str scale
            \<and> (length scale = 7 \<or> length scale = 5)"
proof -
  define p where "p = (case map_of generator_patterns mode of Some v \<Rightarrow> v | None \<Rightarrow> [0, 2, 4, 5, 7, 9, 11])"
  have p: "nonneg_list p \<and> (length p = 7 \<or> length p = 5)"
    unfolding p_def
    by (rule map_of_pred [OF generator_patterns_ok]) (simp add: nonneg_list_def)
  have own: "or_default (get_property generator_patterns mode) [0, 2, 4, 5, 7, 9, 11] = Own p"
    unfolding p_def by (rule get_property_cases [OF assms(2)])
  have r: "0 \<le> indexOf NOTES key" using indexOf_mem [OF assms(1)] by simp
  show ?thesis
    using p map_note_Str [OF r, of p oct]
    by (simp add: generator_getScale_def own)
qed

lemma PROGRESSIONS_ok: "list_all (\<lambda>(k, v). chord_types_ok v) PROGRESSIONS"
  by (simp add: PROGRESSIONS_def chord_types_ok_def OBJECT_PROTOTYPE_def)

lemma getProgression_ok:
  assumes "style \<notin> set OBJECT_PROTOTYPE"
  shows "\<exists>p. getProgression style = Own p \<and> chord_types_ok p"
proof -
  define p where "p = (case map_of PROGRESSIONS style of Some v \<Rightarrow> v | None \<Rightarrow> PROGRESSIONS_pop)"
  have "chord_types_ok p"
    unfolding p_def
    by (rule map_of_pred [OF PROGRESSIONS_ok])
       (simp add: PROGRESSIONS_pop_def chord_types_ok_def OBJECT_PROTOTYPE_def)
  moreover have "getProgression style = Own p"
    unfolding p_def getProgression_def by (rule get_property_cases [OF assms])
  ultimately show ?thesis by blast
qed

lemma parse_nonneg: "0 \<le> parseInt ds"
  by (simp add: parseInt_def)

lemma noteToMidi_Str: "\<exists>m. noteToMidi (Str s) = Some m \<and> 11 \<le> m"
proof (cases "match_note s")
  case None
  then show ?thesis by simp
next
  case (Some a)
  obtain nm oc where a: "a = (nm, oc)" by (cases a)
  have "-1 \<le> indexOf NOTES nm" by (rule indexOf_ge)
  moreover have "0 \<le> parseInt oc" by (rule parse_nonneg)
  ultimately show ?thesis using Some a by simp
qed

lemma noteToMidi_is_Str: "is_Str v \<Longrightarrow> \<exists>m. noteToMidi v = Some m \<and> 11 \<le> m"
  using noteToMidi_Str by (cases v) simp_all

lemma midiToNote_Str: "0 \<le> m \<Longrightarrow> is_Str (midiToNote m)"
proof -
  assume m: "0 \<le> m"
  have "0 \<le> jsrem m 12 \<and> jsrem m 12 < 12" using m by (intro jsrem_range) simp_all
  then obtain s where "NOTES_at (jsrem m 12) = Str s" using NOTES_at_Str by blast
  then show ?thesis by (simp add: midiToNote_def Let_def)
qed

lemma digit_char_val: "is_digit c \<Longrightarrow> digit_char (digit_val c) = c"
  by (auto simp: is_digit_def digit_char_def digit_val_def)

lemma digit_val_lt: "is_digit c \<Longrightarrow> digit_val c < 10"
  by (auto simp: is_digit_def digit_val_def)

lemma parse_nat_snoc: "parse_nat (ds @ [c]) = 10 * parse_nat ds + digit_val c"
  by (simp add: parse_nat_def)

lemma digit_val_pos: "is_digit c \<Longrightarrow> c \<noteq> CHR ''0'' \<Longrightarrow> 0 < digit_val c"
  by (auto simp: is_digit_def digit_val_def)

lemma parse_nat_pos:
  "ds \<noteq> [] \<Longrightarrow> list_all is_digit ds \<Longrightarrow> hd ds \<noteq> CHR ''0'' \<Longrightarrow> 0 < parse_nat ds"
proof (induction ds rule: rev_induct)
  case Nil
  then show ?case by simp
next
  case (snoc c ds)
  show ?case
  proof (cases "ds = []")
    case True
    with snoc.prems show ?thesis
      by (simp add: parse_nat_def digit_val_pos)
  next
    case False
    with snoc have "0 < parse_nat ds" by simp
    then show ?thesis by (simp add: parse_nat_snoc)
  qed
qed

lemma string_of_parse:
  "ds \<noteq> [] \<Longrightarrow> list_all is_digit ds \<Longrightarrow> hd ds \<noteq> CHR ''0'' \<or> ds = ''0'' \<Longrightarrow> string_of_nat (parse_nat ds) = ds"
proof (induction ds rule: rev_induct)
  case Nil
  then show ?case by simp
next
  case (snoc c ds)
  have c: "is_digit c" using snoc.prems by simp
  show ?case
  proof (cases "ds = []")
    case True
    then show ?thesis
      using c by (simp add: parse_nat_def string_of_nat.simps digit_val_lt digit_char_val)
  next
    case False
    with snoc.prems have hd: "hd ds \<noteq> CHR ''0''" and dg: "list_all is_digit ds"
      by auto
    have pos: "0 < parse_nat ds" using parse_nat_pos [OF False dg hd] .
    have IH: "string_of_nat (parse_nat ds) = ds" using snoc.IH False dg hd by simp
    have lt: "digit_val c < 10" using c by (rule digit_val_lt)
    have "string_of_nat (10 * parse_nat ds + digit_val c)
        = string_of_nat ((10 * parse_nat ds + digit_val c) div 10) @ [digit_char ((10 * parse_nat ds + digit_val c) mod 10)]"
      using pos by (subst string_of_nat.simps) simp
    also have "(10 * parse_nat ds + digit_val c) div 10 = parse_nat ds" using lt by simp
    also have "(10 * parse_nat ds + digit_val c) mod 10 = digit_val c" using lt by simp
    finally show ?thesis using IH c by (simp add: parse_nat_snoc digit_char_val)
  qed
qed

lemma match_note_NOTES:
  "name \<in> set NOTES \<Longrightarrow> all_digits ds \<Longrightarrow> match_note (name @ ds) = Some (name, ds)"
  by (cases ds) (auto simp: NOTES_def all_digits_def is_digit_def)

lemma indexOf_NOTES_range: "name \<in> set NOTES \<Longrightarrow> 0 \<le> indexOf NOTES name \<and> indexOf NOTES name < 12"
  using indexOf_mem [of name NOTES] by (simp add: NOTES_def)

lemma NOTES_at_indexOf: "name \<in> set NOTES \<Longrightarrow> NOTES_at (indexOf NOTES name) = Str name"
  using indexOf_mem [of name NOTES] by (simp add: NOTES_at_def at_index_def)

lemma midi_mod: "0 \<le> (i::int) \<Longrightarrow> i < 12 \<Longrightarrow> 0 \<le> n \<Longrightarrow> (i + (n + 1) * 12) mod 12 = i"
  by presburger

lemma midi_div: "0 \<le> (i::int) \<Longrightarrow> i < 12 \<Longrightarrow> 0 \<le> n \<Longrightarrow> (i + (n + 1) * 12) div 12 - 1 = n"
  by presburger

lemma roundtrip:
  assumes n: "name \<in> set NOTES" and d: "all_digits ds" and c: "hd ds \<noteq> CHR ''0'' \<or> ds = ''0''"
  shows "map_option midiToNote (noteToMidi (Str (name @ ds))) = Some (Str (name @ ds))"
proof -
  let ?i = "indexOf NOTES name"
  let ?n = "parse_nat ds"
  have i: "0 \<le> ?i" "?i < 12" using indexOf_NOTES_range [OF n] by simp_all
  have m: "noteToMidi (Str (name @ ds)) = Some (?i + (int ?n + 1) * 12)"
    by (simp add: match_note_NOTES [OF n d] parseInt_def)
  have r: "jsrem (?i + (int ?n + 1) * 12) 12 = ?i"
  proof -
    have "(?i + (int ?n + 1) * 12) mod 12 = ?i" by (rule midi_mod) (use i in simp_all)
    moreover have "0 \<le> ?i + (int ?n + 1) * 12" using i by simp
    ultimately show ?thesis by (simp only: jsrem_nonneg)
  qed
  have q: "(?i + (int ?n + 1) * 12) div 12 - 1 = int ?n"
    by (rule midi_div) (use i in simp_all)
  have s: "number_to_string (int ?n) = ds"
    using d c by (simp add: number_to_string_def all_digits_def string_of_parse)
  have t: "midiToNote (?i + (int ?n + 1) * 12) = Str (name @ ds)"
    unfolding midiToNote_def Let_def r q NOTES_at_indexOf [OF n] by (simp add: s)
  show ?thesis
    by (simp only: m option.map t)
qed

lemma noteToMidi_NOTES:
  assumes "name \<in> set NOTES" and "all_digits ds"
  shows "noteToMidi (Str (name @ ds)) = Some (indexOf NOTES name + (parseInt ds + 1) * 12)"
  by (simp add: match_note_NOTES [OF assms])

text \<open>
  Claim C4, as amended. For every name of \<open>NOTES\<close> (the twelve sharp-form names) followed
  by an octave number written in decimal without leading zeros, and such that the MIDI
  number of the pitch is within \<open>MAX_SAFE_INTEGER\<close>, the string matches the pattern of
  \<open>noteToMidi\<close>, its MIDI number is \<open>noteIndex + (octave + 1) * 12\<close>, and
  \<open>midiToNote (noteToMidi p)\<close> is the string itself. The pattern \<open>[A-G]#?\d+\<close> also accepts
  \<open>E#\<close> and \<open>B#\<close>, which are not in \<open>NOTES\<close>, and octaves with leading zeros; the round
  trip does not hold there, nor for octaves so large that the sum is rounded.
\<close>

theorem pitch_round_trip:
  assumes "name \<in> set NOTES" and "canonical_octave ds"
    and "indexOf NOTES name + (parseInt ds + 1) * 12 \<le> MAX_SAFE_INTEGER"
  shows "match_note (name @ ds) = Some (name, ds)
       \<and> noteToMidi (Str (name @ ds)) = Some (indexOf NOTES name + (parseInt ds + 1) * 12)
       \<and> map_option midiToNote (noteToMidi (Str (name @ ds))) = Some (Str (name @ ds))"
  using assms(1,2) match_note_NOTES [of name ds] roundtrip [of name ds] noteToMidi_NOTES [of name ds]
  by (simp add: canonical_octave_def)

text \<open>The round trip at \<open>F#3\<close>, whose MIDI number is 54.\<close>

theorem pitch_round_trip_witness:
  "''F#'' \<in> set NOTES \<and> canonical_octave ''3''
   \<and> indexOf NOTES ''F#'' + (parseInt ''3'' + 1) * 12 \<le> MAX_SAFE_INTEGER
   \<and> noteToMidi (Str ''F#3'') = Some 54
   \<and> map_option midiToNote (noteToMidi (Str ''F#3'')) = Some (Str ''F#3'')"
proof -
  have n: "''F#'' \<in> set NOTES" by (simp add: NOTES_def)
  have c: "canonical_octave ''3''" by (simp add: canonical_octave_def all_digits_def is_digit_def)
  have v: "indexOf NOTES ''F#'' + (parseInt ''3'' + 1) * 12 = 54" by code_simp
  have b: "indexOf NOTES ''F#'' + (parseInt ''3'' + 1) * 12 \<le> MAX_SAFE_INTEGER"
    unfolding v by (simp add: MAX_SAFE_INTEGER_def)
  have e: "''F#'' @ ''3'' = ''F#3''" by simp
  note t = pitch_round_trip [OF n c b, unfolded e v]
  show ?thesis
    by (intro conjI n c b t [THEN conjunct2, THEN conjunct1] t [THEN conjunct2, THEN conjunct2])
qed

text \<open>The string \<open>E#4\<close> matches the pattern, and comes back as \<open>B3\<close>.\<close>

theorem pitch_round_trip_counterexample:
  "match_note ''E#4'' = Some (''E#'', ''4'')
   \<and> map_option midiToNote (noteToMidi (Str ''E#4'')) = Some (Str ''B3'')"
  by (simp add: all_digits_def is_digit_def NOTES_def parseInt_def parse_nat_def digit_val_def
        midiToNote_def jsrem_def NOTES_at_def at_index_def number_to_string_def
        string_of_nat.simps digit_char_def)

lemma for_each_inv:
  assumes "P s" and "\<And>x s. x \<in> set xs \<Longrightarrow> P s \<Longrightarrow> \<exists>s'. f x s = Some s' \<and> P s'"
  shows "\<exists>s'. for_each f xs s = Some s' \<and> P s'"
  using assms
proof (induction xs arbitrary: s)
  case Nil
  then show ?case by simp
next
  case (Cons x xs)
  from Cons.prems obtain s1 where s1: "f x s = Some s1" "P s1" by (meson list.set_intros(1))
  have "\<exists>s'. for_each f xs s1 = Some s' \<and> P s'"
    by (rule Cons.IH [OF s1(2)]) (use Cons.prems(2) in auto)
  then show ?case using s1 by simp
qed

lemma for_each_preserves:
  assumes "for_each f xs s = Some s'" and "P s"
    and "\<And>x s s'. x \<in> set xs \<Longrightarrow> P s \<Longrightarrow> f x s = Some s' \<Longrightarrow> P s'"
  shows "P s'"
  using assms
proof (induction xs arbitrary: s)
  case Nil
  then show ?case by simp
next
  case (Cons x xs)
  from Cons.prems(1) obtain s1 where s1: "f x s = Some s1" "for_each f xs s1 = Some s'"
    by (auto split: option.splits)
  have "P s1" using Cons.prems(3) [OF _ Cons.prems(2) s1(1)] by simp
  then show ?case using Cons.IH [OF s1(2)] Cons.prems(3) by auto
qed

lemma drumPatternFor_Own:
  "style \<notin> set OBJECT_PROTOTYPE \<Longrightarrow> \<exists>p. drumPatternFor style = Own p"
  by (simp add: drumPatternFor_def get_property_cases)

lemma generateDrums_total:
  assumes "style \<notin> set OBJECT_PROTOTYPE"
  shows "\<exists>tk'. generateDrums rnd tk barNumber style baseVelocity dir intensity addFill = Some tk'"
proof -
  obtain p where p: "drumPatternFor style = Own p" using drumPatternFor_Own [OF assms] by blast
  have "\<exists>s'. for_each (drum_slot rnd (Own p) barNumber style baseVelocity dir intensity addFill) [0..15] tk = Some s' \<and> True"
    by (rule for_each_inv) (simp_all add: drum_slot_def Let_def)
  then show ?thesis by (simp add: generateDrums_def p)
qed

lemma value_at_Str:
  assumes "list_all is_Str xs" "0 \<le> i" "i < int (length xs)"
  shows "\<exists>s. value_at xs i = Str s"
proof -
  have "nat i < length xs" using assms by linarith
  then have "xs ! nat i \<in> set xs" by (rule nth_mem)
  then have "is_Str (xs ! nat i)" using assms(1) by (simp add: list_all_iff)
  then show ?thesis using assms by (cases "xs ! nat i") (simp_all add: value_at_def at_index_def)
qed

lemma chord_tone_total:
  assumes "list_all is_Str chordNotes" "0 \<le> j" "j < int (length chordNotes)"
  shows "\<exists>v. chord_tone_in_octave chordNotes j oct = Some v"
  using value_at_Str [OF assms] by (auto simp: chord_tone_in_octave_def)

lemma generateBass_total:
  assumes "list_all is_Str chordNotes" "3 \<le> length chordNotes"
  shows "\<exists>tk'. generateBass rnd tk bassRoot chordNotes barNumber baseVelocity style section = Some tk'"
proof -
  obtain third where t: "chord_tone_in_octave chordNotes 1 2 = Some third"
    using chord_tone_total [OF assms(1), of 1 2] assms(2) by auto
  obtain fifth where f: "chord_tone_in_octave chordNotes 2 2 = Some fifth"
    using chord_tone_total [OF assms(1), of 2 2] assms(2) by auto
  show ?thesis by (simp add: generateBass_def Let_def t f)
qed

lemma raise_to_ge: "lo \<le> raise_to lo m"
  by (induction lo m rule: raise_to.induct) (simp add: raise_to.simps)

lemma lower_to_ge: "min m (hi - 11) \<le> lower_to hi m"
proof (induction hi m rule: lower_to.induct)
  case (1 hi midi)
  show ?case
  proof (cases "midi > hi")
    case True
    with 1 have "min (midi - 12) (hi - 11) \<le> lower_to hi (midi - 12)" by simp
    with True show ?thesis by (subst lower_to.simps) simp
  next
    case False
    then show ?thesis by (subst lower_to.simps) simp
  qed
qed

lemma findIndex_total:
  assumes "\<And>y. y \<in> set ys \<Longrightarrow> \<exists>b. p y = Some b"
  shows "\<exists>r. findIndex p ys = Some r \<and> -1 \<le> r \<and> r < int (length ys)"
  using assms
proof (induction ys)
  case Nil
  then show ?case by simp
next
  case (Cons y ys)
  obtain b where b: "p y = Some b" using Cons.prems by auto
  obtain r where r: "findIndex p ys = Some r" "-1 \<le> r" "r < int (length ys)"
    using Cons.IH Cons.prems by auto
  show ?case using b r by simp
qed

lemma replace_digits_Str: "is_Str v \<Longrightarrow> \<exists>s. replace_digits v = Some s"
  by (cases v) simp_all

lemma floor_unit:
  assumes "0 \<le> r" "r < 1" "0 < n"
  shows "0 \<le> \<lfloor>r * real n\<rfloor> \<and> \<lfloor>r * real n\<rfloor> < int n"
proof -
  have "0 \<le> r * real n" using assms by simp
  moreover have "r * real n < real n" using assms by simp
  ultimately show ?thesis by (simp add: floor_less_iff)
qed

lemma scale_degree_midi:
  assumes "list_all is_Str scale" "scale \<noteq> []" "0 \<le> d"
  shows "\<exists>m. noteToMidi (value_at scale (jsrem d (int (length scale)))) = Some m \<and> 11 \<le> m"
proof -
  have len: "0 < int (length scale)" using assms(2) by simp
  have "0 \<le> jsrem d (int (length scale)) \<and> jsrem d (int (length scale)) < int (length scale)"
    using assms(3) len by (rule jsrem_range)
  then obtain s where "value_at scale (jsrem d (int (length scale))) = Str s"
    using value_at_Str [OF assms(1)] by blast
  then show ?thesis using noteToMidi_Str [of s] by simp
qed

lemma same_name_total: "is_Str c \<Longrightarrow> is_Str s \<Longrightarrow> \<exists>b. same_name c s = Some b"
  by (cases c; cases s) (simp_all add: same_name_def)

lemma same_pitch_class_total: "is_Str s \<Longrightarrow> \<exists>b. same_pitch_class m s = Some b"
  using noteToMidi_is_Str [of s] by (auto simp: same_pitch_class_def)

lemma findIndex_scale:
  assumes "list_all is_Str scale" "\<And>s. is_Str s \<Longrightarrow> \<exists>b. p s = Some b"
  shows "\<exists>r. findIndex p scale = Some r \<and> -1 \<le> r"
proof -
  have "\<exists>r. findIndex p scale = Some r \<and> -1 \<le> r \<and> r < int (length scale)"
    by (rule findIndex_total) (use assms in \<open>auto simp: list_all_iff\<close>)
  then show ?thesis by blast
qed

lemma motif_nth_nonneg: "nonneg_list motif \<Longrightarrow> i < length motif \<Longrightarrow> 0 \<le> motif ! i"
  by (simp add: nonneg_list_def list_all_length)

lemma approach_target_total:
  assumes "list_all is_Str chordNotes" "chordNotes \<noteq> []" "11 \<le> cm"
  shows "\<exists>tm k1. approach_target rnd chordNotes notePositions i cm k0 = Some (tm, k1) \<and> 9 \<le> tm"
proof -
  have "\<exists>s. value_at chordNotes 0 = Str s"
    using assms by (intro value_at_Str) simp_all
  then obtain nt where nt: "noteToMidi (value_at chordNotes 0) = Some nt"
    using noteToMidi_Str by fastforce
  show ?thesis
    using nt assms(3) by (simp add: approach_target_def Let_def)
qed

lemma melody_target_total:
  assumes scale: "list_all is_Str scale" "scale \<noteq> []"
    and chords: "list_all is_Str chordNotes" "chordNotes \<noteq> []"
    and motif: "nonneg_list motif"
    and rnd: "unit_interval rnd"
    and cur: "is_Str currentNote"
    and pt: "9 \<le> ptm"
  shows "\<exists>tsd tm mi k'.
           melody_target rnd scale chordNotes motif notePositions eop ptsd ptm i pos currentNote motifIdx k
             = Some (tsd, tm, mi, k') \<and> 9 \<le> tm"
proof -
  let ?last = "i = int (length notePositions) - 1 \<and> eop"
  let ?strong = "pos \<in> set strongBeats"
  consider (last) "?last"
    | (strong) "\<not> ?last" "?strong"
    | (motif) "\<not> ?last" "\<not> ?strong" "motifIdx < length motif \<and> rnd k > 0.4"
    | (other) "\<not> ?last" "\<not> ?strong" "\<not> (motifIdx < length motif \<and> rnd k > 0.4)"
    by blast
  then show ?thesis
  proof cases
    case last
    then show ?thesis using pt by (simp add: melody_target_def Let_def)
  next
    case strong
    define idx where "idx = \<lfloor>rnd k * real (length chordNotes)\<rfloor>"
    have "0 \<le> idx \<and> idx < int (length chordNotes)"
      unfolding idx_def using rnd chords(2) by (intro floor_unit) (simp_all add: unit_interval_def)
    then obtain c where c: "value_at chordNotes idx = Str c"
      using value_at_Str [OF chords(1)] by blast
    obtain found where f: "findIndex (same_name (Str c)) scale = Some found" "-1 \<le> found"
      using findIndex_scale [OF scale(1), of "same_name (Str c)"] same_name_total [of "Str c"] by auto
    define tsd where "tsd = (if found = -1
                        then (if motifIdx < length motif then motif ! motifIdx else 0)
                        else found)"
    have "0 \<le> tsd"
      unfolding tsd_def using f(2) motif_nth_nonneg [OF motif] by auto
    then obtain tm where tm: "noteToMidi (value_at scale (jsrem tsd (int (length scale)))) = Some tm" "11 \<le> tm"
      using scale_degree_midi [OF scale] by blast
    show ?thesis
      using strong tm c f(1)
      by (auto simp: melody_target_def Let_def idx_def [symmetric] tsd_def split: if_splits)
  next
    case motif
    have "0 \<le> motif ! motifIdx" using motif_nth_nonneg [OF assms(5)] motif(3) by simp
    then obtain tm where tm: "noteToMidi (value_at scale (jsrem (motif ! motifIdx) (int (length scale)))) = Some tm" "11 \<le> tm"
      using scale_degree_midi [OF scale] by blast
    show ?thesis
      using motif tm by (auto simp: melody_target_def Let_def)
  next
    case other
    define k0 where "k0 = (if motifIdx < length motif then k + 1 else k)"
    obtain cm where cm: "noteToMidi currentNote = Some cm" "11 \<le> cm"
      using noteToMidi_is_Str [OF cur] by blast
    obtain tm k1 where ap: "approach_target rnd chordNotes notePositions i cm k0 = Some (tm, k1)" "9 \<le> tm"
      using approach_target_total [OF chords cm(2)] by blast
    obtain found where f: "findIndex (same_pitch_class tm) scale = Some found"
      using findIndex_scale [OF scale(1), of "same_pitch_class tm"] same_pitch_class_total by auto
    show ?thesis
      using other cm ap f
      by (auto simp: melody_target_def Let_def k0_def [symmetric])
  qed
qed

lemma adjust_midi_nonneg:
  assumes "-1 \<le> fst (octaveRange sp)" "-1 \<le> snd (octaveRange sp)" "11 \<le> prevMidi"
  shows "0 \<le> fst (adjust_midi rnd sp style midi0 prevMidi k)"
proof -
  define lo where "lo = (fst (octaveRange sp) + 1) * 12"
  define hi where "hi = (snd (octaveRange sp) + 1) * 12 + 11"
  have lo: "0 \<le> lo" unfolding lo_def using assms(1) by simp
  have hi: "0 \<le> hi - 11" unfolding hi_def using assms(2) by simp
  have "min (raise_to lo midi0) (hi - 11) \<le> lower_to hi (raise_to lo midi0)"
    by (rule lower_to_ge)
  moreover have "lo \<le> raise_to lo midi0" by (rule raise_to_ge)
  ultimately have m2: "0 \<le> lower_to hi (raise_to lo midi0)" using lo hi by linarith
  show ?thesis
    unfolding adjust_midi_def Let_def lo_def [symmetric] hi_def [symmetric]
    using m2 assms(3) by auto
qed

lemma melody_note_total:
  assumes scale: "list_all is_Str scale" "scale \<noteq> []"
    and chords: "list_all is_Str chordNotes" "chordNotes \<noteq> []"
    and motif: "nonneg_list motif"
    and rnd: "unit_interval rnd"
    and cur: "is_Str (ms_currentNote st)"
    and pt: "9 \<le> ptm"
    and oct: "-1 \<le> fst (octaveRange sp)" "-1 \<le> snd (octaveRange sp)"
  shows "\<exists>st'. melody_note rnd scale chordNotes motif notePositions barNumber bv sp phrase style
                  chordMidis ptm (i, pos) st = Some st' \<and> is_Str (ms_currentNote st')"
proof -
  obtain tsd tm mi k1 where
    t: "melody_target rnd scale chordNotes motif notePositions (jsrem (barNumber + 1) 2 = 0)
          (targetResolution phrase) ptm i pos (ms_currentNote st) (ms_motifIdx st) (ms_draws st)
        = Some (tsd, tm, mi, k1)" and tm: "9 \<le> tm"
    using melody_target_total [OF scale chords motif rnd cur pt] by blast
  obtain pm where pm: "noteToMidi (ms_currentNote st) = Some pm" "11 \<le> pm"
    using noteToMidi_is_Str [OF cur] by blast
  obtain midi k2 where a: "adjust_midi rnd sp style tm pm k1 = (midi, k2)"
    by (cases "adjust_midi rnd sp style tm pm k1")
  have "0 \<le> midi" using adjust_midi_nonneg [OF oct pm(2), of rnd style tm k1] a by simp
  then have "is_Str (midiToNote midi)" by (rule midiToNote_Str)
  then show ?thesis
    using t tm pm a by (simp add: melody_note_def Let_def)
qed

lemma those_noteToMidi: "list_all is_Str xs \<Longrightarrow> \<exists>ms. those (map noteToMidi xs) = Some ms"
proof (induction xs)
  case Nil
  then show ?case by simp
next
  case (Cons x xs)
  then obtain ms where "those (map noteToMidi xs) = Some ms" by auto
  moreover obtain m where "noteToMidi x = Some m" using noteToMidi_is_Str [of x] Cons.prems by auto
  ultimately show ?case by simp
qed

lemma generateMelody_total:
  assumes scale: "list_all is_Str scale" "scale \<noteq> []"
    and chords: "list_all is_Str chordNotes" "chordNotes \<noteq> []"
    and motif: "nonneg_list motif"
    and rnd: "unit_interval rnd"
    and cur: "is_Str lastNote"
    and tr: "0 \<le> targetResolution phrase"
    and oct: "-1 \<le> fst (octaveRange sp)" "-1 \<le> snd (octaveRange sp)"
  shows "\<exists>t' note k'. generateMelody rnd tk scale chordNotes motif barNumber bv sp lastNote phrase dens style
                  = Some (t', note, k') \<and> is_Str note"
proof -
  obtain t k where tk: "tk = (t, k)" by (cases tk)
  obtain ms where ms: "those (map noteToMidi chordNotes) = Some ms"
    using those_noteToMidi [OF chords(1)] by blast
  obtain ptm where ptm: "noteToMidi (value_at scale (jsrem (targetResolution phrase) (int (length scale)))) = Some ptm"
    "11 \<le> ptm"
    using scale_degree_midi [OF scale tr] by blast
  then have p9: "9 \<le> ptm" by simp
  define st0 where "st0 = \<lparr>ms_track = t, ms_currentNote = lastNote, ms_motifIdx = 0, ms_draws = k + 8\<rparr>"
  have c0: "is_Str (ms_currentNote st0)" using cur by (simp add: st0_def)
  have fe: "\<exists>s'. for_each
                (melody_note rnd scale chordNotes motif np barNumber bv sp phrase style cm ptm)
                ps st0 = Some s' \<and> is_Str (ms_currentNote s')" for np cm ps
  proof (rule for_each_inv [where P = "\<lambda>s. is_Str (ms_currentNote s)", OF c0])
    fix x :: "int \<times> int" and s :: MelodyState
    assume "is_Str (ms_currentNote s)"
    then show "\<exists>s'. melody_note rnd scale chordNotes motif np barNumber bv sp phrase style cm ptm x s
                  = Some s' \<and> is_Str (ms_currentNote s')"
      using melody_note_total [OF scale chords motif rnd _ p9 oct, of s np barNumber bv phrase style cm "fst x" "snd x"]
      by simp
  qed
  show ?thesis
    using fe [of "note_positions rnd k phrase barNumber dens" "map (\<lambda>n. jsrem n 12) ms"
                 "zip [0..int (length (note_positions rnd k phrase barNumber dens)) - 1]
                      (note_positions rnd k phrase barNumber dens)"]
    by (auto simp: generateMelody_def tk Let_def st0_def [symmetric] ms ptm(1))
qed

lemma resolveChord_total:
  assumes "chord_types_ok progression" "0 \<le> pos"
  shows "\<exists>d t. resolveChord progression pos = Some (d, t) \<and> 0 \<le> d \<and> t \<notin> set OBJECT_PROTOTYPE"
proof -
  have len: "0 < int (length progression)" using assms(1) by (simp add: chord_types_ok_def)
  define j where "j = jsrem pos (int (length progression))"
  have j: "0 \<le> j \<and> j < int (length progression)"
    unfolding j_def using assms(2) len by (rule jsrem_range)
  then have "nat j < length progression" by linarith
  then have "progression ! nat j \<in> set progression" by (rule nth_mem)
  then have "case progression ! nat j of (d, t) \<Rightarrow> 0 \<le> d \<and> t \<notin> set OBJECT_PROTOTYPE"
    using assms(1) by (simp add: chord_types_ok_def list_all_iff)
  moreover have "resolveChord progression pos = Some (progression ! nat j)"
    using j by (simp add: resolveChord_def at_index_def j_def)
  ultimately show ?thesis by (cases "progression ! nat j") auto
qed

lemma varyMotif_nonneg:
  assumes "nonneg_list motif" "0 < n"
  shows "nonneg_list (varyMotif motif v n)"
  using assms by (auto simp: varyMotif_def nonneg_list_def Let_def list_all_iff)

lemma getPhraseType_target: "0 \<le> targetResolution (getPhraseType r bar)"
  by (simp add: getPhraseType_def Let_def)

lemma advanceProgression_nonneg:
  assumes "0 \<le> pos" "progression \<noteq> []"
  shows "0 \<le> fst (advanceProgression style progression bar (pos, mv))"
proof -
  have len: "0 < int (length progression)" using assms(2) by simp
  have "0 \<le> pos + 1" using assms(1) by simp
  then have "0 \<le> jsrem (pos + 1) (int (length progression))"
    using len jsrem_range by blast
  then show ?thesis
    using assms(1) by (simp add: advanceProgression_def nextPosition_def split: property.splits)
qed

lemma generateBar_total:
  assumes key: "key \<in> set NOTES" and mode: "mode \<notin> set OBJECT_PROTOTYPE"
    and style: "style \<notin> set OBJECT_PROTOTYPE"
    and prog: "chord_types_ok progression"
    and scale: "list_all is_Str scale" "scale \<noteq> []"
    and motif: "nonneg_list motif"
    and rnd: "unit_interval rnd"
    and oct: "-1 \<le> fst (octaveRange sp)" "-1 \<le> snd (octaveRange sp)"
    and inv: "bar_inv st"
  shows "\<exists>st'. generateBar rnd bars key mode style off dir sp scale progression motif bar st = Some st'
            \<and> bar_inv st'"
proof -
  have pos: "0 \<le> st_progressionPos st" and cur: "is_Str (st_lastMelodyNote st)"
    using inv by (simp_all add: bar_inv_def)
  obtain d t where rc: "resolveChord progression (st_progressionPos st) = Some (d, t)"
    and d: "0 \<le> d" and t: "t \<notin> set OBJECT_PROTOTYPE"
    using resolveChord_total [OF prog pos] by blast
  obtain cn where cn: "getChordFromDegree key mode d t 3 = Some cn" "list_all is_Str cn" "3 \<le> length cn"
    using getChordFromDegree_total [OF key mode d t] by blast
  obtain cnh where cnh: "getChordFromDegree key mode d t 4 = Some cnh"
    using getChordFromDegree_total [OF key mode d t] by blast
  have l0: "0 < int (length cn)" using cn(3) by linarith
  have "\<exists>s. value_at cn 0 = Str s" using cn(2) l0 by (intro value_at_Str) simp_all
  then obtain name where name: "replace_digits (value_at cn 0) = Some name"
    by auto
  have cne: "cn \<noteq> []" using l0 by auto
  have dr: "generateDrums rnd tk b style bv dr i f \<noteq> None" for tk b bv dr i f
    using generateDrums_total [OF style] by (metis option.distinct(1))
  have ba: "generateBass rnd tk rootv cn b bv style sec \<noteq> None" for tk rootv b bv sec
    using generateBass_total [OF cn(2) cn(3)] by (metis option.distinct(1))
  have len: "0 < int (length scale)" using scale(2) by simp
  have me: "\<exists>t' note k'. generateMelody rnd tk scale cn (varyMotif motif v (int (length scale))) b bv sp
                (st_lastMelodyNote st) (getPhraseType r bar) dens style = Some (t', note, k') \<and> is_Str note"
    for tk v b bv r dens
    by (rule generateMelody_total [OF scale cn(2) cne varyMotif_nonneg [OF motif len] rnd cur
            getPhraseType_target oct])
  have me1: "generateMelody rnd tk scale cn (varyMotif motif v (int (length scale))) b bv sp
                (st_lastMelodyNote st) (getPhraseType r bar) dens style \<noteq> None" for tk v b bv r dens
    using me [of tk v b bv r dens] by auto
  have me2: "generateMelody rnd tk scale cn (varyMotif motif v (int (length scale))) b bv sp
                (st_lastMelodyNote st) (getPhraseType r bar) dens style = Some (t', nt, k') \<Longrightarrow> is_Str nt"
    for tk v b bv r dens t' nt k'
    using me [of tk v b bv r dens] by auto
  have adv: "0 \<le> p" if "advanceProgression style progression bar (st_progressionPos st, mv) = (p, q)" for mv p q
    using advanceProgression_nonneg [OF pos, of progression style bar mv] prog that
    by (simp add: chord_types_ok_def)
  have dr': "\<exists>a b. generateDrums rnd tk bn style bv dr i f = Some (a, b)" for tk bn bv dr i f
    using dr [of tk bn bv dr i f] by auto
  have ba': "\<exists>a b. generateBass rnd tk rootv cn bn bv style sec = Some (a, b)" for tk rootv bn bv sec
    using ba [of tk rootv bn bv sec] by auto
  have me': "\<exists>a aa b. generateMelody rnd tk scale cn (varyMotif motif v (int (length scale))) b' bv sp
                (st_lastMelodyNote st) (getPhraseType r bar) dens style = Some (a, aa, b)" for tk v b' bv r dens
    using me [of tk v b' bv r dens] by auto
  have total: "generateBar rnd bars key mode style off dir sp scale progression motif bar st \<noteq> None"
    by (simp add: generateBar_def rc cn(1) cnh name Let_def case_prod_beta bind_eq_None_conv
          dr' ba' me' split: Drums.splits)
  have pres: "bar_inv st'"
    if g: "generateBar rnd bars key mode style off dir sp scale progression motif bar st = Some st'" for st'
  proof (cases "cfg_melody (SECTION_CONFIGS (getSongSection bar bars off dir))")
    case True
    show ?thesis
      using g me2 adv
      by (auto simp: generateBar_def rc cn(1) cnh name Let_def bar_inv_def True
               split: Option.bind_splits prod.splits)
  next
    case False
    show ?thesis
      using g adv cur
      by (auto simp: generateBar_def rc cn(1) cnh name Let_def bar_inv_def False
               split: Option.bind_splits prod.splits)
  qed
  show ?thesis using total pres by auto
qed

lemma motif_loop_nonneg: "0 \<le> current \<Longrightarrow> nonneg_list (motif_loop rnd k len n current)"
  by (induction n arbitrary: k current) (simp_all add: nonneg_list_def Let_def)

lemma truthy_is_Str: "truthy v \<Longrightarrow> is_Str v"
  by (cases v) simp_all

lemma generateMotif_ok:
  assumes "unit_interval rnd"
  shows "\<exists>m0 ms. fst (generateMotif rnd k len) = m0 # ms \<and> 0 \<le> m0 \<and> m0 < 5
            \<and> nonneg_list (m0 # ms)"
proof -
  have r0: "0 \<le> rnd k" and r1: "0 \<le> rnd (k + 1)" "rnd (k + 1) < 1"
    using assms by (simp_all add: unit_interval_def)
  define n where "n = nat (4 + \<lfloor>rnd k * 4\<rfloor>)"
  have "0 \<le> \<lfloor>rnd k * 4\<rfloor>" using r0 by simp
  then have "0 < n" unfolding n_def by linarith
  then obtain n' where n': "n = Suc n'" by (cases n) simp_all
  define c where "c = \<lfloor>rnd (k + 1) * 3\<rfloor> + 2"
  have "0 \<le> \<lfloor>rnd (k + 1) * 3\<rfloor>" using r1 by simp
  moreover have "\<lfloor>rnd (k + 1) * 3\<rfloor> < 3" using r1 by (simp add: floor_less_iff)
  ultimately have c: "0 \<le> c" "c < 5" unfolding c_def by linarith+
  have f: "fst (generateMotif rnd k len) = motif_loop rnd (k + 2) len n c"
    by (simp add: generateMotif_def Let_def n_def c_def)
  have "nonneg_list (motif_loop rnd (k + 2) len n c)" using c(1) by (rule motif_loop_nonneg)
  then show ?thesis using c unfolding f n' by (simp add: Let_def)
qed

lemma scale_length:
  assumes "mode \<notin> set OBJECT_PROTOTYPE" "generator_getScale key mode oct = Some scale"
  shows "int (length scale) = (if mode = ''pentatonic'' then 5 else 7)"
  using assms(2)
  by (auto simp: generator_getScale_def get_property_cases [OF assms(1)] generator_patterns_def
           split: if_splits)

lemma initialState_ok:
  assumes rnd: "unit_interval rnd"
    and scale: "list_all is_Str scale" "5 \<le> length scale"
    and ctx: "case ctx of None \<Rightarrow> True | Some c \<Rightarrow> valid_context (int (length scale)) c"
  shows "nonneg_list (fst (initialState rnd scale ctx)) \<and> bar_inv (snd (initialState rnd scale ctx))"
proof -
  obtain m0 ms where g: "fst (generateMotif rnd 0 (int (length scale))) = m0 # ms"
      "0 \<le> m0" "m0 < 5" "nonneg_list (m0 # ms)"
    using generateMotif_ok [OF rnd] by blast
  obtain gm gk where gm: "generateMotif rnd 0 (int (length scale)) = (gm, gk)"
    by (cases "generateMotif rnd 0 (int (length scale))")
  have gm': "gm = m0 # ms" using g(1) gm by simp
  have v: "is_Str (value_at scale i)" if "0 \<le> i" "i < int (length scale)" for i
    using value_at_Str [OF scale(1) that] by auto
  have v0: "is_Str (value_at scale m0)" using g(2,3) scale(2) by (intro v) linarith+
  show ?thesis
  proof (cases ctx)
    case None
    then show ?thesis
      using g(4) v0 by (simp add: initialState_def Let_def gm gm' bar_inv_def)
  next
    case (Some c)
    with ctx have vc: "valid_context (int (length scale)) c" by simp
    then have pos: "0 \<le> ctx_progressionPosition c" by (simp add: valid_context_def)
    show ?thesis
    proof (cases "ctx_motif c")
      case None
      show ?thesis
        using g(4) v0 pos truthy_is_Str
        by (auto simp: initialState_def Let_def Some None gm gm' bar_inv_def split: list.splits)
    next
      case (Some m)
      with vc have m: "nonneg_list m" by (simp add: valid_context_def)
      have "is_Str (value_at scale x)" if "m = x # xs" "x < int (length scale)" for x xs
        using m that by (intro v) (simp_all add: nonneg_list_def)
      then show ?thesis
        using vc m pos truthy_is_Str
        by (auto simp: initialState_def Let_def \<open>ctx = Some c\<close> Some bar_inv_def valid_context_def
                 split: list.splits)
    qed
  qed
qed

lemma STYLE_PARAMS_ok:
  "list_all (\<lambda>(k, v). -1 \<le> fst (octaveRange v) \<and> -1 \<le> snd (octaveRange v)) STYLE_PARAMS"
  by (simp add: STYLE_PARAMS_def STYLE_PARAMS_ambient_def)

lemma styleParamsFor_ok:
  assumes "style \<notin> set OBJECT_PROTOTYPE"
  shows "\<exists>sp. styleParamsFor style = Own sp \<and> -1 \<le> fst (octaveRange sp) \<and> -1 \<le> snd (octaveRange sp)"
proof -
  define sp where "sp = (case map_of STYLE_PARAMS style of Some v \<Rightarrow> v | None \<Rightarrow> STYLE_PARAMS_ambient)"
  have "-1 \<le> fst (octaveRange sp) \<and> -1 \<le> snd (octaveRange sp)"
    unfolding sp_def
    by (rule map_of_pred [OF STYLE_PARAMS_ok]) (simp add: STYLE_PARAMS_ambient_def)
  moreover have "styleParamsFor style = Own sp"
    unfolding sp_def styleParamsFor_def by (rule get_property_cases [OF assms])
  ultimately show ?thesis by blast
qed

lemma getInstruments_Own:
  "style \<notin> set OBJECT_PROTOTYPE \<Longrightarrow> \<exists>ins. getInstrumentsForStyle style = Own ins"
  by (simp add: getInstrumentsForStyle_def get_property_cases)

lemma segmentSetup_total:
  assumes "valid_input rnd options ctx"
  shows "\<exists>su. segmentSetup rnd options ctx = Some su \<and> setup_ok su"
proof -
  define key where "key = default_to (opt_key options) ''C''"
  define mode where "mode = default_to (opt_mode options) ''major''"
  define style where "style = default_to (opt_style options) ''ambient''"
  have rnd: "unit_interval rnd" and key: "key \<in> set NOTES" and mode: "mode \<notin> set OBJECT_PROTOTYPE"
    and style: "style \<notin> set OBJECT_PROTOTYPE"
    and ctx: "case ctx of None \<Rightarrow> True | Some c \<Rightarrow> valid_context (if mode = ''pentatonic'' then 5 else 7) c"
    using assms by (auto simp: valid_input_def key_def mode_def style_def split: option.splits)
  obtain scale where sc: "generator_getScale key mode 4 = Some scale" "list_all is_Str scale"
      "length scale = 7 \<or> length scale = 5"
    using generator_getScale_total [OF key mode] by blast
  have sl: "int (length scale) = (if mode = ''pentatonic'' then 5 else 7)"
    using scale_length [OF mode sc(1)] .
  obtain sp where sp: "styleParamsFor style = Own sp" "-1 \<le> fst (octaveRange sp)" "-1 \<le> snd (octaveRange sp)"
    using styleParamsFor_ok [OF style] by blast
  obtain ins where ins: "getInstrumentsForStyle style = Own ins"
    using getInstruments_Own [OF style] by blast
  obtain p where p: "getProgression style = Own p" "chord_types_ok p"
    using getProgression_ok [OF style] by blast
  have l5: "5 \<le> length scale" using sc(3) by auto
  have i: "nonneg_list (fst (initialState rnd scale ctx)) \<and> bar_inv (snd (initialState rnd scale ctx))"
    by (rule initialState_ok [OF rnd sc(2) l5]) (use ctx in \<open>simp only: sl\<close>)
  have ne: "scale \<noteq> []" using l5 by auto
  show ?thesis
    using sc(2) ne sp p i
    by (simp add: segmentSetup_def key_def [symmetric] mode_def [symmetric] style_def [symmetric]
          sc(1) ins Let_def case_prod_beta setup_ok_def)
qed

lemma stateAfterBars_total:
  assumes "valid_input rnd options ctx" "setup_ok su"
  shows "\<exists>st. stateAfterBars rnd options su n = Some st \<and> bar_inv st"
proof -
  have v: "unit_interval rnd" "default_to (opt_key options) ''C'' \<in> set NOTES"
    "default_to (opt_mode options) ''major'' \<notin> set OBJECT_PROTOTYPE"
    "default_to (opt_style options) ''ambient'' \<notin> set OBJECT_PROTOTYPE"
    using assms(1) by (simp_all add: valid_input_def)
  have s: "list_all is_Str (su_scale su)" "su_scale su \<noteq> []" "chord_types_ok (su_progression su)"
    "nonneg_list (su_motif su)" "-1 \<le> fst (octaveRange (su_styleParams su))"
    "-1 \<le> snd (octaveRange (su_styleParams su))" "bar_inv (su_state su)"
    using assms(2) by (simp_all add: setup_ok_def)
  show ?thesis
    unfolding stateAfterBars_def Let_def
    by (rule for_each_inv [where P = bar_inv, OF s(7)])
       (rule generateBar_total [OF v(2) v(3) v(4) s(3) s(1) s(2) s(4) v(1) s(5) s(6)])
qed

lemma final_chord_total:
  assumes "key \<in> set NOTES" "mode \<notin> set OBJECT_PROTOTYPE" "chord_types_ok progression" "0 \<le> pos"
  shows "\<exists>entry notes name.
           at_index progression (jsrem (pos - 1 + int (length progression)) (int (length progression)))
             = Some entry
           \<and> getChordFromDegree key mode (fst entry) (snd entry) 3 = Some notes
           \<and> replace_digits (value_at notes 0) = Some name"
proof -
  have len: "0 < int (length progression)" using assms(3) by (simp add: chord_types_ok_def)
  then have "0 \<le> pos - 1 + int (length progression)" using assms(4) by linarith
  then obtain d t where rc: "resolveChord progression (pos - 1 + int (length progression)) = Some (d, t)"
    and d: "0 \<le> d" and t: "t \<notin> set OBJECT_PROTOTYPE"
    using resolveChord_total [OF assms(3)] by blast
  have j: "jsrem (pos - 1 + int (length progression)) (int (length progression))
         = jsrem (pos - 1 + int (length progression) + 0) (int (length progression))" by simp
  obtain cn where cn: "getChordFromDegree key mode d t 3 = Some cn" "list_all is_Str cn" "3 \<le> length cn"
    using getChordFromDegree_total [OF assms(1) assms(2) d t] by blast
  have l0: "0 < int (length cn)" using cn(3) by linarith
  have "\<exists>s. value_at cn 0 = Str s" using cn(2) l0 by (intro value_at_Str) simp_all
  then obtain name where "replace_digits (value_at cn 0) = Some name" by auto
  then show ?thesis using rc cn(1) by (simp add: resolveChord_def)
qed

lemma generateSegment_returns:
  assumes "valid_input rnd options ctx"
  shows "\<exists>res. generateSegment rnd options ctx = Some res"
proof -
  obtain su where su: "segmentSetup rnd options ctx = Some su" "setup_ok su"
    using segmentSetup_total [OF assms] by blast
  obtain st where st: "stateAfterBars rnd options su (default_to (opt_bars options) 16) = Some st" "bar_inv st"
    using stateAfterBars_total [OF assms su(2)] by blast
  have v: "default_to (opt_key options) ''C'' \<in> set NOTES"
    "default_to (opt_mode options) ''major'' \<notin> set OBJECT_PROTOTYPE"
    using assms by (simp_all add: valid_input_def)
  have p: "chord_types_ok (su_progression su)" using su(2) by (simp add: setup_ok_def)
  have pos: "0 \<le> st_progressionPos st" using st(2) by (simp add: bar_inv_def)
  obtain entry cnotes name where
    f: "at_index (su_progression su)
          (jsrem (st_progressionPos st - 1 + int (length (su_progression su))) (int (length (su_progression su))))
        = Some entry"
       "getChordFromDegree (default_to (opt_key options) ''C'') (default_to (opt_mode options) ''major'')
          (fst entry) (snd entry) 3 = Some cnotes"
       "replace_digits (value_at cnotes 0) = Some name"
    using final_chord_total [OF v p pos] by blast
  show ?thesis
    by (simp add: generateSegment_def Let_def su(1) st(1) f)
qed

lemma for_each_append:
  "for_each f (xs @ ys) s = (case for_each f xs s of None \<Rightarrow> None | Some s' \<Rightarrow> for_each f ys s')"
  by (induction xs arbitrary: s) (simp_all split: option.splits)

lemma stateAfterBars_0: "n \<le> 0 \<Longrightarrow> stateAfterBars rnd options su n = Some (su_state su)"
  by (simp add: stateAfterBars_def)

lemma stateAfterBars_step:
  assumes "1 \<le> n"
  shows "stateAfterBars rnd options su n =
           (case stateAfterBars rnd options su (n - 1) of
              None \<Rightarrow> None
            | Some st \<Rightarrow>
                generateBar rnd (default_to (opt_bars options) 16) (default_to (opt_key options) ''C'')
                  (default_to (opt_mode options) ''major'') (default_to (opt_style options) ''ambient'')
                  (default_to (opt_totalBarsOffset options) 0)
                  (default_to (opt_extensionDirection options) Continue)
                  (su_styleParams su) (su_scale su) (su_progression su) (su_motif su) (n - 1) st)"
proof -
  have "[0..n - 1] = [0..n - 1 - 1] @ [n - 1]"
    using assms by (intro upto_rec2) simp
  then show ?thesis
    by (simp add: stateAfterBars_def Let_def for_each_append split: option.splits)
qed

lemma generateBar_pos:
  assumes "generateBar rnd bars key mode style off dir sp scale progression motif bar st = Some st'"
  shows "(st_progressionPos st', st_motifVariation st') =
           advanceProgression style progression bar (st_progressionPos st, st_motifVariation st)"
    and "resolveChord progression (st_progressionPos st) \<noteq> None"
  using assms
  by (auto simp: generateBar_def Let_def split: Option.bind_splits prod.splits)

lemma rates_pos:
  assumes "getProgressionRate style = Own rate"
  shows "0 < rate"
proof (cases "style \<in> set OBJECT_PROTOTYPE")
  case True
  then show ?thesis
    using assms by (auto simp: getProgressionRate_def get_property_def split: option.splits if_splits)
next
  case False
  have "0 < (case map_of [(''ambient'', 4), (''lofi'', 2), (''electronic'', 2), (''classical'', 1), (''jazz'', 1 :: int)] style
              of Some v \<Rightarrow> v | None \<Rightarrow> 2)"
    by (rule map_of_pred) simp_all
  then show ?thesis
    using assms by (simp add: getProgressionRate_def get_property_cases [OF False])
qed

lemma nextPosition_range:
  assumes "0 \<le> pos" "progression \<noteq> []"
  shows "0 \<le> nextPosition progression pos \<and> nextPosition progression pos < int (length progression)"
  unfolding nextPosition_def using assms by (intro jsrem_range) simp_all

lemma advanceProgression_range:
  assumes "0 \<le> pos" "pos < int (length progression)"
  shows "0 \<le> fst (advanceProgression style progression bar (pos, mv))
       \<and> fst (advanceProgression style progression bar (pos, mv)) < int (length progression)"
proof -
  have "progression \<noteq> []" using assms by auto
  from nextPosition_range [OF assms(1) this] assms show ?thesis
    by (simp add: advanceProgression_def split: property.splits)
qed

lemma stateAfterBars_pos_range:
  assumes "stateAfterBars rnd options su n = Some st"
    and "0 \<le> st_progressionPos (su_state su)"
    and "st_progressionPos (su_state su) < int (length (su_progression su))"
  shows "0 \<le> st_progressionPos st \<and> st_progressionPos st < int (length (su_progression su))"
proof (rule for_each_preserves
         [where P = "\<lambda>s. 0 \<le> st_progressionPos s \<and> st_progressionPos s < int (length (su_progression su))",
          OF assms(1) [unfolded stateAfterBars_def Let_def]])
  show "0 \<le> st_progressionPos (su_state su) \<and> st_progressionPos (su_state su) < int (length (su_progression su))"
    using assms(2,3) by simp
next
  fix x s s'
  assume p: "0 \<le> st_progressionPos s \<and> st_progressionPos s < int (length (su_progression su))"
    and g: "generateBar rnd (default_to (opt_bars options) 16) (default_to (opt_key options) ''C'')
          (default_to (opt_mode options) ''major'') (default_to (opt_style options) ''ambient'')
          (default_to (opt_totalBarsOffset options) 0) (default_to (opt_extensionDirection options) Continue)
          (su_styleParams su) (su_scale su) (su_progression su) (su_motif su) x s = Some s'"
  have "st_progressionPos s' = fst (advanceProgression (default_to (opt_style options) ''ambient'')
            (su_progression su) x (st_progressionPos s, st_motifVariation s))"
    using generateBar_pos(1) [OF g] by (metis fst_conv)
  then show "0 \<le> st_progressionPos s' \<and> st_progressionPos s' < int (length (su_progression su))"
    using advanceProgression_range p by simp
qed

lemma stateAfterBars_pos_nonneg:
  assumes "stateAfterBars rnd options su n = Some st"
    and "0 \<le> st_progressionPos (su_state su)" "su_progression su \<noteq> []"
  shows "0 \<le> st_progressionPos st"
proof (rule for_each_preserves
         [where P = "\<lambda>s. 0 \<le> st_progressionPos s", OF assms(1) [unfolded stateAfterBars_def Let_def]])
  show "0 \<le> st_progressionPos (su_state su)" using assms(2) by simp
next
  fix x s s'
  assume p: "0 \<le> st_progressionPos s"
    and g: "generateBar rnd (default_to (opt_bars options) 16) (default_to (opt_key options) ''C'')
          (default_to (opt_mode options) ''major'') (default_to (opt_style options) ''ambient'')
          (default_to (opt_totalBarsOffset options) 0) (default_to (opt_extensionDirection options) Continue)
          (su_styleParams su) (su_scale su) (su_progression su) (su_motif su) x s = Some s'"
  have "st_progressionPos s' = fst (advanceProgression (default_to (opt_style options) ''ambient'')
            (su_progression su) x (st_progressionPos s, st_motifVariation s))"
    using generateBar_pos(1) [OF g] by (metis fst_conv)
  then show "0 \<le> st_progressionPos s'"
    using advanceProgression_nonneg [OF p assms(3)] by simp
qed

lemma segmentSetup_facts:
  assumes "segmentSetup rnd options ctx = Some su"
  shows "getProgression (default_to (opt_style options) ''ambient'') = Own (su_progression su)"
    and "styleParamsFor (default_to (opt_style options) ''ambient'') = Own (su_styleParams su)"
    and "generator_getScale (default_to (opt_key options) ''C'') (default_to (opt_mode options) ''major'') 4
           = Some (su_scale su)"
    and "st_progressionPos (su_state su) = (case ctx of None \<Rightarrow> 0 | Some c \<Rightarrow> ctx_progressionPosition c)"
    and "su_motif su = (case (case ctx of Some c \<Rightarrow> ctx_motif c | None \<Rightarrow> None) of
                          Some m \<Rightarrow> m
                        | None \<Rightarrow> fst (generateMotif rnd 0 (int (length (su_scale su)))))"
  using assms
  by (auto simp: segmentSetup_def initialState_def Let_def case_prod_beta
           split: Option.bind_splits property.splits option.splits)

lemma generateSegment_facts:
  assumes "generateSegment rnd options ctx = Some res"
  shows "\<exists>su st entry cn.
           segmentSetup rnd options ctx = Some su
         \<and> stateAfterBars rnd options su (default_to (opt_bars options) 16) = Some st
         \<and> seg_progressionPosition (segmentInfo res) = st_progressionPos st
         \<and> seg_motif (segmentInfo res) = su_motif su
         \<and> seg_bars (segmentInfo res) = default_to (opt_bars options) 16
         \<and> seg_durationSeconds (segmentInfo res)
             = real_of_int (default_to (opt_bars options) 16) * 4 / default_to (opt_tempo options) 90 * 60
         \<and> at_index (su_progression su)
              (jsrem (st_progressionPos st - 1 + int (length (su_progression su)))
                 (int (length (su_progression su)))) = Some entry
         \<and> seg_endingChordType (segmentInfo res) = snd entry
         \<and> getChordFromDegree (default_to (opt_key options) ''C'') (default_to (opt_mode options) ''major'')
              (fst entry) (snd entry) 3 = Some cn
         \<and> replace_digits (value_at cn 0) = Some (seg_endingChord (segmentInfo res))"
  using assms
  by (auto simp: generateSegment_def Let_def split: Option.bind_splits)

lemma getProgression_Own:
  assumes "getProgression style = Own p"
  shows "chord_types_ok p"
proof -
  have "p = (case map_of PROGRESSIONS style of Some v \<Rightarrow> v | None \<Rightarrow> PROGRESSIONS_pop)"
    using assms by (simp add: getProgression_def get_property_def split: option.splits if_splits)
  moreover have "chord_types_ok (case map_of PROGRESSIONS style of Some v \<Rightarrow> v | None \<Rightarrow> PROGRESSIONS_pop)"
    by (rule map_of_pred [OF PROGRESSIONS_ok])
       (simp add: PROGRESSIONS_pop_def chord_types_ok_def OBJECT_PROTOTYPE_def)
  ultimately show ?thesis by simp
qed

lemma nextPosition_iter:
  assumes "0 \<le> p" "p < int (length progression)"
  shows "(nextPosition progression ^^ k) p = (p + int k) mod int (length progression)"
proof (induction k)
  case 0
  show ?case using assms by simp
next
  case (Suc k)
  have len: "0 < int (length progression)" using assms by linarith
  have "0 \<le> (p + int k) mod int (length progression) + 1"
    using len by simp
  then have "nextPosition progression ((p + int k) mod int (length progression))
           = ((p + int k) mod int (length progression) + 1) mod int (length progression)"
    unfolding nextPosition_def using len by (intro jsrem_nonneg) simp_all
  also have "\<dots> = (p + int k + 1) mod int (length progression)"
    by (simp add: mod_add_left_eq)
  finally show ?case using Suc by (simp add: add.commute add.left_commute)
qed


lemma nextPosition_wraps:
  assumes "0 \<le> p" "p < int (length progression)"
  shows "(nextPosition progression ^^ length progression) p = p"
  using assms by (simp add: nextPosition_iter)

text \<open>
  Claim C8. Whenever \<open>generateSegment\<close> returns, for a tempo above zero and a bar count
  within \<open>MAX_SAFE_INTEGER\<close>, the \<open>durationSeconds\<close> of its segment info is
  \<open>bars * 4 / tempo * 60\<close>, for the bars and tempo of the options (16 and 90 when
  absent). At tempo 0 the code divides by zero and returns \<open>Infinity\<close> or \<open>NaN\<close>, which
  is no number of seconds.
\<close>

theorem duration_law:
  assumes "generateSegment rnd options continuationContext = Some res"
    and "0 < default_to (opt_tempo options) 90"
    and "default_to (opt_bars options) 16 \<le> MAX_SAFE_INTEGER"
  shows "seg_durationSeconds (segmentInfo res)
           = real_of_int (default_to (opt_bars options) 16) * 4 / default_to (opt_tempo options) 90 * 60"
  using generateSegment_facts [OF assms(1)] by auto

lemma valid_input_default:
  "valid_input (\<lambda>_. 1 / 2)
     \<lparr>opt_bars = b, opt_key = None, opt_mode = None, opt_tempo = t, opt_style = None,
      opt_totalBarsOffset = off, opt_extensionDirection = dir\<rparr> None"
  by (simp add: valid_input_def unit_interval_def default_to_def NOTES_def OBJECT_PROTOTYPE_def)

text \<open>A run of 16 bars at 90 BPM returns, and lasts 128/3 seconds.\<close>

theorem duration_law_witness:
  "\<exists>res. generateSegment (\<lambda>_. 1 / 2)
            \<lparr>opt_bars = Some 16, opt_key = None, opt_mode = None, opt_tempo = Some 90, opt_style = None,
             opt_totalBarsOffset = None, opt_extensionDirection = None\<rparr> None = Some res
        \<and> (0 :: real) < 90 \<and> 16 \<le> MAX_SAFE_INTEGER
        \<and> seg_durationSeconds (segmentInfo res) = 128 / 3"
proof -
  obtain res where r: "generateSegment (\<lambda>_. 1 / 2)
            \<lparr>opt_bars = Some 16, opt_key = None, opt_mode = None, opt_tempo = Some 90, opt_style = None,
             opt_totalBarsOffset = None, opt_extensionDirection = None\<rparr> None = Some res"
    using generateSegment_returns [OF valid_input_default] by blast
  show ?thesis using r duration_law [OF r] by (simp add: default_to_def MAX_SAFE_INTEGER_def)
qed

text \<open>
  Claim C6, as amended. When \<open>generateSegment\<close> returns, and it was called without a
  context or with one whose progression position is an index of the progression of the
  style used, the progression position of the segment info is again an index of that
  progression (at least 0, less than its length), and advancing it as many times as the
  progression is long leads back to it. A context position past the end of the
  progression (left by a style with a longer one) is returned as it came when the
  segment is too short to advance it.
\<close>

theorem progression_position_bound:
  assumes "generateSegment rnd options continuationContext = Some res"
    and "getProgression (default_to (opt_style options) ''ambient'') = Own progression"
    and "case continuationContext of
           None \<Rightarrow> True
         | Some c \<Rightarrow> 0 \<le> ctx_progressionPosition c \<and> ctx_progressionPosition c < int (length progression)"
  shows "0 \<le> seg_progressionPosition (segmentInfo res)
       \<and> seg_progressionPosition (segmentInfo res) < int (length progression)
       \<and> (nextPosition progression ^^ length progression) (seg_progressionPosition (segmentInfo res))
           = seg_progressionPosition (segmentInfo res)"
proof -
  obtain su st where su: "segmentSetup rnd options continuationContext = Some su"
    and st: "stateAfterBars rnd options su (default_to (opt_bars options) 16) = Some st"
    and pos: "seg_progressionPosition (segmentInfo res) = st_progressionPos st"
    using generateSegment_facts [OF assms(1)] by blast
  have p: "su_progression su = progression"
    using segmentSetup_facts(1) [OF su] assms(2) by simp
  have ne: "progression \<noteq> []" using getProgression_Own [OF assms(2)] by (simp add: chord_types_ok_def)
  have p0: "0 \<le> st_progressionPos (su_state su) \<and> st_progressionPos (su_state su) < int (length progression)"
    using segmentSetup_facts(4) [OF su] assms(3) ne by (cases continuationContext) simp_all
  have r: "0 \<le> st_progressionPos st \<and> st_progressionPos st < int (length progression)"
    using stateAfterBars_pos_range [OF st] p0 p by simp
  then show ?thesis using nextPosition_wraps [of "st_progressionPos st" progression] pos by simp
qed

text \<open>A default call without context: the position returned is an index of the ambient
  progression, which has four chords.\<close>

theorem progression_position_bound_witness:
  "\<exists>res. generateSegment (\<lambda>_. 1 / 2)
            \<lparr>opt_bars = None, opt_key = None, opt_mode = None, opt_tempo = None, opt_style = None,
             opt_totalBarsOffset = None, opt_extensionDirection = None\<rparr> None = Some res
        \<and> 0 \<le> seg_progressionPosition (segmentInfo res)
        \<and> seg_progressionPosition (segmentInfo res) < 4"
proof -
  obtain res where r: "generateSegment (\<lambda>_. 1 / 2)
            \<lparr>opt_bars = None, opt_key = None, opt_mode = None, opt_tempo = None, opt_style = None,
             opt_totalBarsOffset = None, opt_extensionDirection = None\<rparr> None = Some res"
    using generateSegment_returns [OF valid_input_default] by blast
  have p: "getProgression ''ambient'' = Own PROGRESSIONS_ambient"
    by (simp add: getProgression_def get_property_def PROGRESSIONS_def PROGRESSIONS_ambient_def)
  show ?thesis
    using r progression_position_bound [OF r, of PROGRESSIONS_ambient] p
    by (simp add: default_to_def PROGRESSIONS_ambient_def)
qed

lemma one_bar_state:
  assumes "stateAfterBars rnd options su 1 = Some st"
  shows "(st_progressionPos st, st_motifVariation st) =
           advanceProgression (default_to (opt_style options) ''ambient'') (su_progression su) 0
             (st_progressionPos (su_state su), st_motifVariation (su_state su))"
    and "resolveChord (su_progression su) (st_progressionPos (su_state su)) \<noteq> None"
proof -
  have g: "generateBar rnd (default_to (opt_bars options) 16) (default_to (opt_key options) ''C'')
             (default_to (opt_mode options) ''major'') (default_to (opt_style options) ''ambient'')
             (default_to (opt_totalBarsOffset options) 0)
             (default_to (opt_extensionDirection options) Continue)
             (su_styleParams su) (su_scale su) (su_progression su) (su_motif su) 0 (su_state su) = Some st"
    using assms stateAfterBars_step [of 1 rnd options su] by (simp add: stateAfterBars_0)
  show "(st_progressionPos st, st_motifVariation st) =
           advanceProgression (default_to (opt_style options) ''ambient'') (su_progression su) 0
             (st_progressionPos (su_state su), st_motifVariation (su_state su))"
    by (rule generateBar_pos(1) [OF g])
  show "resolveChord (su_progression su) (st_progressionPos (su_state su)) \<noteq> None"
    by (rule generateBar_pos(2) [OF g])
qed

text \<open>
  A context at position 7, as a twelve-chord progression leaves it, and one bar of the
  ambient style, whose progression has four chords and advances every four bars: the
  position comes back as 7.
\<close>

theorem progression_position_bound_counterexample:
  "map_option (\<lambda>res. seg_progressionPosition (segmentInfo res))
     (generateSegment (\<lambda>_. 1 / 2)
        \<lparr>opt_bars = Some 1, opt_key = None, opt_mode = None, opt_tempo = None, opt_style = None,
         opt_totalBarsOffset = None, opt_extensionDirection = None\<rparr>
        (Some \<lparr>ctx_key = ''C'', ctx_mode = ''major'', ctx_tempo = 90, ctx_style = ''blues'',
               ctx_progressionPosition = 7, ctx_currentChord = None, ctx_currentChordType = None,
               ctx_lastNotes = \<lparr>en_melody = [], en_bass = [], en_chords = []\<rparr>,
               ctx_dynamics = \<lparr>level = Medium, direction = Stable, velocityTrend = 0\<rparr>,
               ctx_totalBars = 14, ctx_motif = None\<rparr>)) = Some 7
   \<and> getProgression ''ambient'' = Own PROGRESSIONS_ambient
   \<and> length PROGRESSIONS_ambient = 4"
proof -
  define options where "options =
        \<lparr>opt_bars = Some 1, opt_key = None, opt_mode = None, opt_tempo = None, opt_style = None,
         opt_totalBarsOffset = None, opt_extensionDirection = None\<rparr>"
  define ctx where "ctx =
        \<lparr>ctx_key = ''C'', ctx_mode = ''major'', ctx_tempo = 90, ctx_style = ''blues'',
               ctx_progressionPosition = 7, ctx_currentChord = None, ctx_currentChordType = None,
               ctx_lastNotes = \<lparr>en_melody = [], en_bass = [], en_chords = []\<rparr>,
               ctx_dynamics = \<lparr>level = Medium, direction = Stable, velocityTrend = 0\<rparr>,
               ctx_totalBars = 14, ctx_motif = None\<rparr>"
  have v: "valid_input (\<lambda>_. 1 / 2) options (Some ctx)"
    by (simp add: valid_input_def unit_interval_def default_to_def NOTES_def OBJECT_PROTOTYPE_def
          valid_context_def options_def ctx_def)
  obtain res where r: "generateSegment (\<lambda>_. 1 / 2) options (Some ctx) = Some res"
    using generateSegment_returns [OF v] by blast
  obtain su st where su: "segmentSetup (\<lambda>_. 1 / 2) options (Some ctx) = Some su"
    and st: "stateAfterBars (\<lambda>_. 1 / 2) options su (default_to (opt_bars options) 16) = Some st"
    and pos: "seg_progressionPosition (segmentInfo res) = st_progressionPos st"
    using generateSegment_facts [OF r] by blast
  have st1: "stateAfterBars (\<lambda>_. 1 / 2) options su 1 = Some st"
    using st by (simp add: options_def default_to_def)
  have p0: "st_progressionPos (su_state su) = 7"
    using segmentSetup_facts(4) [OF su] by (simp add: ctx_def)
  have rate: "getProgressionRate ''ambient'' = Own 4"
    by (simp add: getProgressionRate_def get_property_def)
  have "st_progressionPos st = 7"
    using one_bar_state(1) [OF st1] p0
    by (simp add: options_def default_to_def advanceProgression_def rate jsrem_def)
  moreover have "getProgression ''ambient'' = Own PROGRESSIONS_ambient"
    by (simp add: getProgression_def get_property_def PROGRESSIONS_def PROGRESSIONS_ambient_def)
  ultimately show ?thesis
    using r pos by (simp add: options_def ctx_def PROGRESSIONS_ambient_def)
qed

text \<open>
  Claim C3, as amended. For a style name that none of the tables knows and that is not the
  name of a member inherited from \<open>Object.prototype\<close>, no lookup raises: the style
  parameters and the instruments are those of ambient, the drum pattern is that of lofi,
  the progression is that of pop, and the progression rate is 2.
\<close>

theorem unknown_style_fallbacks:
  assumes "style \<notin> set [''ambient'', ''lofi'', ''electronic'', ''classical'', ''jazz'', ''pop'', ''blues'']"
    and "style \<notin> set OBJECT_PROTOTYPE"
  shows "styleParamsFor style = Own STYLE_PARAMS_ambient
       \<and> getInstrumentsForStyle style = Own instruments_ambient
       \<and> drumPatternFor style = Own DRUM_PATTERNS_lofi
       \<and> getProgression style = Own PROGRESSIONS_pop
       \<and> getProgressionRate style = Own 2"
  using assms
  by (simp add: styleParamsFor_def getInstrumentsForStyle_def drumPatternFor_def getProgression_def
        getProgressionRate_def get_property_def STYLE_PARAMS_def DRUM_PATTERNS_def PROGRESSIONS_def)

text \<open>The fallbacks of the unknown style \<open>reggae\<close>.\<close>

theorem unknown_style_fallbacks_witness:
  "styleParamsFor ''reggae'' = Own STYLE_PARAMS_ambient
   \<and> getInstrumentsForStyle ''reggae'' = Own instruments_ambient
   \<and> drumPatternFor ''reggae'' = Own DRUM_PATTERNS_lofi
   \<and> getProgression ''reggae'' = Own PROGRESSIONS_pop
   \<and> getProgressionRate ''reggae'' = Own 2"
  using unknown_style_fallbacks [of "''reggae''"]
  by (simp add: OBJECT_PROTOTYPE_def)

text \<open>For the unknown style \<open>reggae\<close> the progression is that of pop and the drum pattern
  that of lofi; neither is ambient's.\<close>

theorem unknown_style_fallbacks_counterexample:
  "getProgression ''reggae'' = Own PROGRESSIONS_pop \<and> PROGRESSIONS_pop \<noteq> PROGRESSIONS_ambient
   \<and> drumPatternFor ''reggae'' = Own DRUM_PATTERNS_lofi \<and> DRUM_PATTERNS_lofi \<noteq> DRUM_PATTERNS_ambient"
  by (simp add: getProgression_def drumPatternFor_def get_property_def PROGRESSIONS_def
        DRUM_PATTERNS_def OBJECT_PROTOTYPE_def PROGRESSIONS_pop_def PROGRESSIONS_ambient_def
        DRUM_PATTERNS_lofi_def DRUM_PATTERNS_ambient_def)

lemma jsrem_4_cases:
  assumes "0 \<le> bar"
  shows "real_of_int (if jsrem bar 4 < 2 then jsrem bar 4 * 3 else (3 - jsrem bar 4) * 3)
       = (if bar mod 4 = 1 \<or> bar mod 4 = 2 then 3 else 0)"
proof -
  have j: "jsrem bar 4 = bar mod 4" using assms by (intro jsrem_nonneg) simp_all
  have "bar mod 4 = 0 \<or> bar mod 4 = 1 \<or> bar mod 4 = 2 \<or> bar mod 4 = 3" by presburger
  then show ?thesis unfolding j by auto
qed

lemma note_of_interval_name:
  assumes "0 \<le> r" "0 \<le> i"
  shows "note_of_interval r oct i
           = Str (NOTES ! nat ((r + i) mod 12) @ number_to_string (oct + (r + i) div 12))"
proof -
  have j: "jsrem (r + i) 12 = (r + i) mod 12" using assms by (intro jsrem_nonneg) simp_all
  have "0 \<le> (r + i) mod 12 \<and> (r + i) mod 12 < 12" by simp
  then have "NOTES_at ((r + i) mod 12) = Str (NOTES ! nat ((r + i) mod 12))"
    by (simp add: NOTES_at_def at_index_def length_NOTES)
  then show ?thesis by (simp add: note_of_interval_def Let_def j)
qed

lemma map_note_name:
  assumes "0 \<le> r" "nonneg_list p"
  shows "map (note_of_interval r oct) p
           = map (\<lambda>off. Str (NOTES ! nat ((r + off) mod 12) @ number_to_string (oct + (r + off) div 12))) p"
  using assms(2) by (induction p) (simp_all add: nonneg_list_def note_of_interval_name [OF assms(1)])

lemma SCALES_shape:
  "list_all (\<lambda>(k, v). nonneg_list v \<and> (length v = 5 \<or> length v = 6 \<or> length v = 7 \<or> length v = 12)) SCALES"
  by (simp add: SCALES_def nonneg_list_def)

text \<open>
  Claim C9, as amended. For every root that is one of the twelve names of \<open>NOTES\<close>, every
  mode name that is not the name of a member inherited from \<open>Object.prototype\<close>, and
  every octave within \<open>MAX_SAFE_INTEGER\<close>, \<open>getScale\<close> of music-theory.ts returns one pitch
  name per offset of the mode's pattern in \<open>SCALES\<close> (the major pattern when the mode is
  not a key of \<open>SCALES\<close>), in the order of the pattern: the offset \<open>off\<close> gives the name
  \<open>NOTES[(rootIndex + off) % 12]\<close> followed by the octave
  \<open>octave + floor((rootIndex + off) / 12)\<close>, so every entry is a string. The sequence has
  5, 6, 7 or 12 entries (6 for blues, 12 for chromatic). The generator's own \<open>getScale\<close>
  helper does the same over its five patterns and returns 7 or 5 entries. For a root
  outside \<open>NOTES\<close> the first entry is \<open>NaN\<close>, no pitch name.
\<close>

theorem getScale_by_pattern:
  assumes "rootNote \<in> set NOTES" and "mode \<notin> set OBJECT_PROTOTYPE"
    and "\<bar>octave\<bar> < MAX_SAFE_INTEGER"
  shows "\<exists>p g ns gs.
           p = (case map_of SCALES mode of Some q \<Rightarrow> q | None \<Rightarrow> SCALES_major)
         \<and> getScale rootNote mode octave = Some ns
         \<and> ns = map (\<lambda>off. Str (NOTES ! nat ((indexOf NOTES rootNote + off) mod 12)
                                  @ number_to_string (octave + (indexOf NOTES rootNote + off) div 12))) p
         \<and> list_all is_Str ns
         \<and> (length ns = 5 \<or> length ns = 6 \<or> length ns = 7 \<or> length ns = 12)
         \<and> g = (case map_of generator_patterns mode of Some q \<Rightarrow> q | None \<Rightarrow> SCALES_major)
         \<and> generator_getScale rootNote mode octave = Some gs
         \<and> gs = map (\<lambda>off. Str (NOTES ! nat ((indexOf NOTES rootNote + off) mod 12)
                                  @ number_to_string (octave + (indexOf NOTES rootNote + off) div 12))) g
         \<and> list_all is_Str gs
         \<and> (length gs = 5 \<or> length gs = 7)"
proof -
  define p where "p = (case map_of SCALES mode of Some q \<Rightarrow> q | None \<Rightarrow> SCALES_major)"
  define g where "g = (case map_of generator_patterns mode of Some q \<Rightarrow> q | None \<Rightarrow> SCALES_major)"
  define name where "name = (\<lambda>off. Str (NOTES ! nat ((indexOf NOTES rootNote + off) mod 12)
                                  @ number_to_string (octave + (indexOf NOTES rootNote + off) div 12)))"
  have r: "0 \<le> indexOf NOTES rootNote" using indexOf_mem [OF assms(1)] by simp
  have lp: "nonneg_list p \<and> (length p = 5 \<or> length p = 6 \<or> length p = 7 \<or> length p = 12)"
    unfolding p_def by (rule map_of_pred [OF SCALES_shape]) (simp add: SCALES_major_def nonneg_list_def)
  have lg: "nonneg_list g \<and> (length g = 7 \<or> length g = 5)"
    unfolding g_def
    by (rule map_of_pred [OF generator_patterns_ok]) (simp add: SCALES_major_def nonneg_list_def)
  have own_p: "or_default (get_property SCALES mode) SCALES_major = Own p"
    unfolding p_def by (rule get_property_cases [OF assms(2)])
  have own_g: "or_default (get_property generator_patterns mode) [0, 2, 4, 5, 7, 9, 11] = Own g"
    unfolding g_def SCALES_major_def by (rule get_property_cases [OF assms(2)])
  have sp: "getScale rootNote mode octave = Some (map name p)"
    unfolding getScale_def Let_def own_p name_def
    using map_note_name [OF r, of p octave] lp by simp
  have sg: "generator_getScale rootNote mode octave = Some (map name g)"
    unfolding generator_getScale_def Let_def own_g name_def
    using map_note_name [OF r, of g octave] lg by simp
  have sp': "list_all is_Str (map name p)" and sg': "list_all is_Str (map name g)"
    by (simp_all add: name_def list_all_iff)
  show ?thesis
    apply (rule exI [of _ p], rule exI [of _ g], rule exI [of _ "map name p"], rule exI [of _ "map name g"])
    using lp lg sp sg sp' sg' p_def g_def unfolding name_def by auto
qed

text \<open>The unknown mode \<open>lydian\<close> on D: both functions return the seven notes of D major.\<close>

theorem getScale_by_pattern_witness:
  "''D'' \<in> set NOTES \<and> ''lydian'' \<notin> set OBJECT_PROTOTYPE \<and> \<bar>4\<bar> < MAX_SAFE_INTEGER
   \<and> getScale ''D'' ''lydian'' 4
       = Some [Str ''D4'', Str ''E4'', Str ''F#4'', Str ''G4'', Str ''A4'', Str ''B4'', Str ''C#5'']
   \<and> generator_getScale ''D'' ''lydian'' 4
       = Some [Str ''D4'', Str ''E4'', Str ''F#4'', Str ''G4'', Str ''A4'', Str ''B4'', Str ''C#5'']"
proof -
  have d: "''D'' \<in> set NOTES" by (simp add: NOTES_def)
  have m: "''lydian'' \<notin> set OBJECT_PROTOTYPE" by (simp add: OBJECT_PROTOTYPE_def)
  have o: "\<bar>4\<bar> < MAX_SAFE_INTEGER" by (simp add: MAX_SAFE_INTEGER_def)
  have n: "map (\<lambda>off. Str (NOTES ! nat ((indexOf NOTES ''D'' + off) mod 12)
                          @ number_to_string (4 + (indexOf NOTES ''D'' + off) div 12))) SCALES_major
         = [Str ''D4'', Str ''E4'', Str ''F#4'', Str ''G4'', Str ''A4'', Str ''B4'', Str ''C#5'']"
    by code_simp
  have s: "map_of SCALES ''lydian'' = None" by (simp add: SCALES_def)
  have g: "map_of generator_patterns ''lydian'' = None" by (simp add: generator_patterns_def)
  show ?thesis
    using getScale_by_pattern [OF d m o] d m o by (auto simp: s g n)
qed

text \<open>The blues scale on C has six notes.\<close>

theorem getScale_by_pattern_counterexample:
  "getScale ''C'' ''blues'' 4
     = Some [Str ''C4'', Str ''D#4'', Str ''F4'', Str ''F#4'', Str ''G4'', Str ''A#4'']"
  by code_simp

lemma barChord_eq:
  assumes "segmentSetup rnd options ctx = Some su" "stateAfterBars rnd options su b = Some st"
  shows "barChord rnd options ctx b = resolveChord (su_progression su) (st_progressionPos st)"
  using assms by (simp add: barChord_def)







lemma last_bar:
  assumes "stateAfterBars rnd options su n = Some st" "1 \<le> n"
  shows "\<exists>pre. stateAfterBars rnd options su (n - 1) = Some pre
           \<and> (st_progressionPos st, st_motifVariation st) =
               advanceProgression (default_to (opt_style options) ''ambient'') (su_progression su) (n - 1)
                 (st_progressionPos pre, st_motifVariation pre)"
proof -
  obtain pre where pre: "stateAfterBars rnd options su (n - 1) = Some pre"
    and g: "generateBar rnd (default_to (opt_bars options) 16) (default_to (opt_key options) ''C'')
             (default_to (opt_mode options) ''major'') (default_to (opt_style options) ''ambient'')
             (default_to (opt_totalBarsOffset options) 0)
             (default_to (opt_extensionDirection options) Continue)
             (su_styleParams su) (su_scale su) (su_progression su) (su_motif su) (n - 1) pre = Some st"
    using assms(1) stateAfterBars_step [OF assms(2), of rnd options su]
    by (auto split: option.splits)
  show ?thesis using pre generateBar_pos(1) [OF g] by blast
qed

lemma mod_back: "0 < (n::int) \<Longrightarrow> ((a + 1) mod n - 1 + n) mod n = a mod n"
proof -
  assume "0 < n"
  have "((a + 1) mod n - 1 + n) mod n = ((a + 1) mod n + (n - 1)) mod n" by (simp add: algebra_simps)
  also have "\<dots> = (a + 1 + (n - 1)) mod n" by (simp only: mod_add_left_eq)
  also have "\<dots> = a mod n" by simp
  finally show ?thesis .
qed

lemma mod_forth: "0 < (n::int) \<Longrightarrow> ((a - 1 + n) mod n + 1) mod n = a mod n"
proof -
  assume "0 < n"
  have "((a - 1 + n) mod n + 1) mod n = (a - 1 + n + 1) mod n" by (simp only: mod_add_left_eq)
  also have "\<dots> = a mod n" by simp
  finally show ?thesis .
qed

lemma ending_index:
  assumes st: "stateAfterBars rnd options su n = Some st" and n: "1 \<le> n"
    and pre: "stateAfterBars rnd options su (n - 1) = Some pre"
    and p0: "0 \<le> st_progressionPos (su_state su)" and ne: "su_progression su \<noteq> []"
    and rate: "getProgressionRate (default_to (opt_style options) ''ambient'') = Own rate"
  shows "rate dvd n \<Longrightarrow>
           jsrem (st_progressionPos st - 1 + int (length (su_progression su))) (int (length (su_progression su)))
             = jsrem (st_progressionPos pre) (int (length (su_progression su)))"
    and "\<not> rate dvd n \<Longrightarrow>
           jsrem (jsrem (st_progressionPos st - 1 + int (length (su_progression su)))
                    (int (length (su_progression su))) + 1) (int (length (su_progression su)))
             = jsrem (st_progressionPos pre) (int (length (su_progression su)))"
proof -
  define len where "len = int (length (su_progression su))"
  have len: "0 < len" using ne by (simp add: len_def)
  have r: "0 < rate" using rates_pos [OF rate] .
  have pp: "0 \<le> st_progressionPos pre" using stateAfterBars_pos_nonneg [OF pre p0 ne] .
  have ps: "0 \<le> st_progressionPos st" using stateAfterBars_pos_nonneg [OF st p0 ne] .
  obtain pre' where pre': "stateAfterBars rnd options su (n - 1) = Some pre'"
    and adv: "(st_progressionPos st, st_motifVariation st) =
               advanceProgression (default_to (opt_style options) ''ambient'') (su_progression su) (n - 1)
                 (st_progressionPos pre', st_motifVariation pre')"
    using last_bar [OF st n] by blast
  have same: "pre' = pre" using pre pre' by simp
  have j: "jsrem (n - 1 + 1) rate = n mod rate" using n r by (simp add: jsrem_nonneg)
  have d: "(n mod rate = 0) = (rate dvd n)" by (simp add: dvd_eq_mod_eq_0)
  have jp: "jsrem (st_progressionPos pre) len = st_progressionPos pre mod len"
    using pp len by (rule jsrem_nonneg)
  {
    assume dv: "rate dvd n"
    then have "st_progressionPos st = nextPosition (su_progression su) (st_progressionPos pre)"
      using adv same j d by (simp add: advanceProgression_def rate)
    then have s: "st_progressionPos st = (st_progressionPos pre + 1) mod len"
      using pp len by (simp add: nextPosition_def jsrem_nonneg len_def)
    have "0 \<le> st_progressionPos st - 1 + len" using ps len by linarith
    then have "jsrem (st_progressionPos st - 1 + len) len = (st_progressionPos st - 1 + len) mod len"
      using len by (rule jsrem_nonneg)
    also have "\<dots> = st_progressionPos pre mod len" unfolding s using len by (rule mod_back)
    finally show "jsrem (st_progressionPos st - 1 + int (length (su_progression su))) (int (length (su_progression su)))
             = jsrem (st_progressionPos pre) (int (length (su_progression su)))"
      using jp by (simp add: len_def)
  }
  {
    assume dv: "\<not> rate dvd n"
    then have s: "st_progressionPos st = st_progressionPos pre"
      using adv same j d by (simp add: advanceProgression_def rate)
    have a: "0 \<le> st_progressionPos pre - 1 + len" using pp len by linarith
    have e: "jsrem (st_progressionPos pre - 1 + len) len = (st_progressionPos pre - 1 + len) mod len"
      using a len by (rule jsrem_nonneg)
    have "0 \<le> (st_progressionPos pre - 1 + len) mod len + 1" using len by simp
    then have "jsrem ((st_progressionPos pre - 1 + len) mod len + 1) len
             = ((st_progressionPos pre - 1 + len) mod len + 1) mod len"
      using len by (rule jsrem_nonneg)
    also have "\<dots> = st_progressionPos pre mod len" using len by (rule mod_forth)
    finally show "jsrem (jsrem (st_progressionPos st - 1 + int (length (su_progression su)))
                    (int (length (su_progression su))) + 1) (int (length (su_progression su)))
             = jsrem (st_progressionPos pre) (int (length (su_progression su)))"
      using jp e s by (simp add: len_def)
  }
qed

text \<open>
  Claim C10, as amended. When \<open>generateSegment\<close> returns, the ending chord type of the
  segment info is the chord type of the progression entry at index
  \<open>(progressionPosition - 1 + length) % length\<close>, one step behind the position
  returned, and the ending chord is the root name (octave stripped) of the chord that
  \<open>getChordFromDegree\<close> builds from that entry. For a segment of at least one bar and at
  most \<open>MAX_SAFE_INTEGER\<close> bars, started without context or at a position that is not
  negative and stays within \<open>MAX_SAFE_INTEGER\<close> when the length of the progression is
  added to it: when \<open>bars\<close> is a multiple of the style's progression rate, that entry is
  the chord the final bar resolved; when it is not, the final bar resolved the entry
  that follows it in the progression. The two entries can still hold the same chord, as
  the last and the first of the lofi progression do.
\<close>

theorem ending_chord_entry:
  assumes "generateSegment rnd options continuationContext = Some res"
    and "getProgression (default_to (opt_style options) ''ambient'') = Own progression"
    and "getProgressionRate (default_to (opt_style options) ''ambient'') = Own rate"
    and "case continuationContext of
           None \<Rightarrow> True
         | Some c \<Rightarrow> 0 \<le> ctx_progressionPosition c
                    \<and> ctx_progressionPosition c + int (length progression) \<le> MAX_SAFE_INTEGER"
    and "1 \<le> default_to (opt_bars options) 16"
    and "default_to (opt_bars options) 16 \<le> MAX_SAFE_INTEGER"
  shows "\<exists>entry cn.
           at_index progression
             (jsrem (seg_progressionPosition (segmentInfo res) - 1 + int (length progression))
                (int (length progression))) = Some entry
         \<and> seg_endingChordType (segmentInfo res) = snd entry
         \<and> getChordFromDegree (default_to (opt_key options) ''C'') (default_to (opt_mode options) ''major'')
              (fst entry) (snd entry) 3 = Some cn
         \<and> replace_digits (value_at cn 0) = Some (seg_endingChord (segmentInfo res))
         \<and> (rate dvd default_to (opt_bars options) 16 \<longrightarrow>
              barChord rnd options continuationContext (default_to (opt_bars options) 16 - 1) = Some entry)
         \<and> (\<not> rate dvd default_to (opt_bars options) 16 \<longrightarrow>
              barChord rnd options continuationContext (default_to (opt_bars options) 16 - 1)
                = at_index progression
                    (jsrem (jsrem (seg_progressionPosition (segmentInfo res) - 1 + int (length progression))
                              (int (length progression)) + 1)
                       (int (length progression))))"
proof -
  define n where "n = default_to (opt_bars options) 16"
  obtain su st entry cn where su: "segmentSetup rnd options continuationContext = Some su"
    and st: "stateAfterBars rnd options su n = Some st"
    and pos: "seg_progressionPosition (segmentInfo res) = st_progressionPos st"
    and en: "at_index (su_progression su)
              (jsrem (st_progressionPos st - 1 + int (length (su_progression su)))
                 (int (length (su_progression su)))) = Some entry"
    and ty: "seg_endingChordType (segmentInfo res) = snd entry"
    and cn: "getChordFromDegree (default_to (opt_key options) ''C'') (default_to (opt_mode options) ''major'')
              (fst entry) (snd entry) 3 = Some cn"
    and ec: "replace_digits (value_at cn 0) = Some (seg_endingChord (segmentInfo res))"
    using generateSegment_facts [OF assms(1)] unfolding n_def by blast
  have p: "su_progression su = progression"
    using segmentSetup_facts(1) [OF su] assms(2) by simp
  have ne: "su_progression su \<noteq> []"
    using getProgression_Own [OF assms(2)] p by (simp add: chord_types_ok_def)
  have p0: "0 \<le> st_progressionPos (su_state su)"
    using segmentSetup_facts(4) [OF su] assms(4) by (cases continuationContext) simp_all
  have n1: "1 \<le> n" using assms(5) by (simp add: n_def)
  obtain pre where pre: "stateAfterBars rnd options su (n - 1) = Some pre"
    using last_bar [OF st n1] by blast
  have bc: "barChord rnd options continuationContext (n - 1)
              = at_index progression (jsrem (st_progressionPos pre) (int (length progression)))"
    using barChord_eq [OF su pre] p by (simp add: resolveChord_def)
  note ei = ending_index [OF st n1 pre p0 ne assms(3)]
  have a: "barChord rnd options continuationContext (n - 1) = Some entry" if "rate dvd n"
    using ei(1) [OF that] en bc p by simp
  have b: "barChord rnd options continuationContext (n - 1)
             = at_index progression
                 (jsrem (jsrem (st_progressionPos st - 1 + int (length progression))
                           (int (length progression)) + 1) (int (length progression)))"
    if "\<not> rate dvd n"
    using ei(2) [OF that] bc p by simp
  show ?thesis
    using en ty cn ec a b unfolding p pos n_def by blast
qed

lemma valid_input_lofi:
  "valid_input (\<lambda>_. 1 / 2)
     \<lparr>opt_bars = b, opt_key = None, opt_mode = None, opt_tempo = t, opt_style = Some ''lofi'',
      opt_totalBarsOffset = off, opt_extensionDirection = dir\<rparr> None"
  by (simp add: valid_input_def unit_interval_def default_to_def NOTES_def OBJECT_PROTOTYPE_def)

lemma lofi_tables:
  "getProgression ''lofi'' = Own [(0, ''maj7''), (3, ''min7''), (4, ''dom7''), (0, ''maj7'')]"
  "getProgressionRate ''lofi'' = Own 2"
  by (simp_all add: getProgression_def getProgressionRate_def get_property_def PROGRESSIONS_def)

text \<open>Two bars of lofi, whose progression advances every two bars, continuing from
  position 1: both bars resolve the minor seventh chord on degree 3, the second entry of
  the progression, and the ending chord type is that of this entry.\<close>

theorem ending_chord_entry_witness:
  "\<exists>res.
      generateSegment (\<lambda>_. 1 / 2)
        \<lparr>opt_bars = Some 2, opt_key = None, opt_mode = None, opt_tempo = None, opt_style = Some ''lofi'',
         opt_totalBarsOffset = None, opt_extensionDirection = None\<rparr>
        (Some \<lparr>ctx_key = ''C'', ctx_mode = ''major'', ctx_tempo = 90, ctx_style = ''lofi'',
               ctx_progressionPosition = 1, ctx_currentChord = None, ctx_currentChordType = None,
               ctx_lastNotes = \<lparr>en_melody = [], en_bass = [], en_chords = []\<rparr>,
               ctx_dynamics = \<lparr>level = Medium, direction = Stable, velocityTrend = 0\<rparr>,
               ctx_totalBars = 2, ctx_motif = None\<rparr>) = Some res
    \<and> seg_endingChordType (segmentInfo res) = ''min7''
    \<and> barChord (\<lambda>_. 1 / 2)
        \<lparr>opt_bars = Some 2, opt_key = None, opt_mode = None, opt_tempo = None, opt_style = Some ''lofi'',
         opt_totalBarsOffset = None, opt_extensionDirection = None\<rparr>
        (Some \<lparr>ctx_key = ''C'', ctx_mode = ''major'', ctx_tempo = 90, ctx_style = ''lofi'',
               ctx_progressionPosition = 1, ctx_currentChord = None, ctx_currentChordType = None,
               ctx_lastNotes = \<lparr>en_melody = [], en_bass = [], en_chords = []\<rparr>,
               ctx_dynamics = \<lparr>level = Medium, direction = Stable, velocityTrend = 0\<rparr>,
               ctx_totalBars = 2, ctx_motif = None\<rparr>) 1 = Some (3, ''min7'')"
proof -
  define options where "options =
        \<lparr>opt_bars = Some 2, opt_key = None, opt_mode = None, opt_tempo = None, opt_style = Some ''lofi'',
         opt_totalBarsOffset = None, opt_extensionDirection = None\<rparr>"
  define ctx where "ctx =
        \<lparr>ctx_key = ''C'', ctx_mode = ''major'', ctx_tempo = 90, ctx_style = ''lofi'',
               ctx_progressionPosition = 1, ctx_currentChord = None, ctx_currentChordType = None,
               ctx_lastNotes = \<lparr>en_melody = [], en_bass = [], en_chords = []\<rparr>,
               ctx_dynamics = \<lparr>level = Medium, direction = Stable, velocityTrend = 0\<rparr>,
               ctx_totalBars = 2, ctx_motif = None\<rparr>"
  define lofi where "lofi = [(0 :: int, ''maj7''), (3, ''min7''), (4, ''dom7''), (0, ''maj7'')]"
  have v: "valid_input (\<lambda>_. 1 / 2) options (Some ctx)"
    by (simp add: valid_input_def unit_interval_def default_to_def NOTES_def OBJECT_PROTOTYPE_def
          valid_context_def options_def ctx_def)
  obtain res where r: "generateSegment (\<lambda>_. 1 / 2) options (Some ctx) = Some res"
    using generateSegment_returns [OF v] by blast
  have s: "default_to (opt_style options) ''ambient'' = ''lofi''"
    and b: "default_to (opt_bars options) 16 = 2"
    by (simp_all add: options_def default_to_def)
  have p: "getProgression (default_to (opt_style options) ''ambient'') = Own lofi"
    and rate: "getProgressionRate (default_to (opt_style options) ''ambient'') = Own 2"
    unfolding s lofi_def by (rule lofi_tables)+
  have c: "case Some ctx of
             None \<Rightarrow> True
           | Some c \<Rightarrow> 0 \<le> ctx_progressionPosition c
                      \<and> ctx_progressionPosition c + int (length lofi) \<le> MAX_SAFE_INTEGER"
    by (simp add: ctx_def lofi_def MAX_SAFE_INTEGER_def)
  have b1: "1 \<le> default_to (opt_bars options) 16"
    and b2: "default_to (opt_bars options) 16 \<le> MAX_SAFE_INTEGER"
    unfolding b by (simp_all add: MAX_SAFE_INTEGER_def)
  obtain entry where ty: "seg_endingChordType (segmentInfo res) = snd entry"
    and bc: "barChord (\<lambda>_. 1 / 2) options (Some ctx) 1 = Some entry"
    using ending_chord_entry [OF r p rate c b1 b2] unfolding b by auto
  obtain su st where su: "segmentSetup (\<lambda>_. 1 / 2) options (Some ctx) = Some su"
    and st: "stateAfterBars (\<lambda>_. 1 / 2) options su 2 = Some st"
    using generateSegment_facts [OF r] unfolding b by blast
  obtain pre where pre: "stateAfterBars (\<lambda>_. 1 / 2) options su (2 - 1) = Some pre"
    using last_bar [OF st] by auto
  then have pre1: "stateAfterBars (\<lambda>_. 1 / 2) options su 1 = Some pre" by simp
  have pr: "su_progression su = lofi"
    using segmentSetup_facts(1) [OF su] p by simp
  have p0: "st_progressionPos (su_state su) = 1"
    using segmentSetup_facts(4) [OF su] by (simp add: ctx_def)
  have pp: "st_progressionPos pre = 1"
    using one_bar_state(1) [OF pre1] p0 rate
    by (simp add: advanceProgression_def jsrem_def)
  have "barChord (\<lambda>_. 1 / 2) options (Some ctx) 1 = Some (3, ''min7'')"
    using barChord_eq [OF su pre1] unfolding pr pp
    by (simp add: resolveChord_def at_index_def jsrem_def lofi_def)
  then show ?thesis
    using r ty bc unfolding options_def ctx_def by auto
qed

text \<open>
  One bar of lofi, whose progression advances every two bars: the position returned is 0,
  the ending entry is the last of the progression, and the only bar resolved the first;
  both are the major seventh chord on degree 0, though 1 is no multiple of 2.
\<close>

theorem ending_chord_entry_counterexample:
  "\<exists>res.
      generateSegment (\<lambda>_. 1 / 2)
        \<lparr>opt_bars = Some 1, opt_key = None, opt_mode = None, opt_tempo = None, opt_style = Some ''lofi'',
         opt_totalBarsOffset = None, opt_extensionDirection = None\<rparr> None = Some res
    \<and> seg_progressionPosition (segmentInfo res) = 0
    \<and> seg_endingChordType (segmentInfo res) = ''maj7''
    \<and> at_index [(0 :: int, ''maj7''), (3, ''min7''), (4, ''dom7''), (0, ''maj7'')] (jsrem (0 - 1 + 4) 4)
        = Some (0, ''maj7'')
    \<and> barChord (\<lambda>_. 1 / 2)
        \<lparr>opt_bars = Some 1, opt_key = None, opt_mode = None, opt_tempo = None, opt_style = Some ''lofi'',
         opt_totalBarsOffset = None, opt_extensionDirection = None\<rparr> None 0 = Some (0, ''maj7'')
    \<and> getProgressionRate ''lofi'' = Own 2
    \<and> (1 :: int) mod 2 = 1"
proof -
  define options where "options =
        \<lparr>opt_bars = Some 1, opt_key = None, opt_mode = None, opt_tempo = None, opt_style = Some ''lofi'',
         opt_totalBarsOffset = None, opt_extensionDirection = None\<rparr>"
  define lofi where "lofi = [(0 :: int, ''maj7''), (3, ''min7''), (4, ''dom7''), (0, ''maj7'')]"
  obtain res where r: "generateSegment (\<lambda>_. 1 / 2) options None = Some res"
    using generateSegment_returns [OF valid_input_lofi] unfolding options_def by blast
  have s: "default_to (opt_style options) ''ambient'' = ''lofi''"
    and b: "default_to (opt_bars options) 16 = 1"
    by (simp_all add: options_def default_to_def)
  obtain su st entry where su: "segmentSetup (\<lambda>_. 1 / 2) options None = Some su"
    and st: "stateAfterBars (\<lambda>_. 1 / 2) options su 1 = Some st"
    and pos: "seg_progressionPosition (segmentInfo res) = st_progressionPos st"
    and en: "at_index (su_progression su)
              (jsrem (st_progressionPos st - 1 + int (length (su_progression su)))
                 (int (length (su_progression su)))) = Some entry"
    and ty: "seg_endingChordType (segmentInfo res) = snd entry"
    using generateSegment_facts [OF r] unfolding b by blast
  have p: "su_progression su = lofi"
    using segmentSetup_facts(1) [OF su] lofi_tables(1) unfolding s lofi_def by simp
  have p0: "st_progressionPos (su_state su) = 0"
    using segmentSetup_facts(4) [OF su] by simp
  have ps: "st_progressionPos st = 0"
    using one_bar_state(1) [OF st] p0
    by (simp add: s advanceProgression_def lofi_tables(2) jsrem_def)
  have i3: "at_index lofi (jsrem (0 - 1 + 4) 4) = Some (0, ''maj7'')"
    by (simp add: at_index_def jsrem_def lofi_def)
  have e: "entry = (0, ''maj7'')"
    using en i3 unfolding p ps by (simp add: lofi_def)
  have s0: "stateAfterBars (\<lambda>_. 1 / 2) options su 0 = Some (su_state su)"
    by (simp add: stateAfterBars_0)
  have bc: "barChord (\<lambda>_. 1 / 2) options None 0 = Some (0, ''maj7'')"
    using barChord_eq [OF su s0] unfolding p p0
    by (simp add: resolveChord_def at_index_def jsrem_def lofi_def)
  show ?thesis
    using r pos ps ty e i3 bc lofi_tables(2) unfolding options_def lofi_def by auto
qed

lemma unknown_mode_scale:
  assumes "mode \<notin> set OBJECT_PROTOTYPE" "mode \<notin> fst ` set generator_patterns"
  shows "generator_getScale key mode 4 = Some (map (note_of_interval (indexOf NOTES key) 4) SCALES_major)"
proof -
  have "map_of generator_patterns mode = None" using assms(2) by (simp add: map_of_eq_None_iff)
  then show ?thesis
    unfolding generator_getScale_def Let_def SCALES_major_def
      get_property_cases [OF assms(1), of generator_patterns "[0, 2, 4, 5, 7, 9, 11]"] by simp
qed

lemma unknown_style_params:
  assumes "style \<notin> set OBJECT_PROTOTYPE" "style \<notin> fst ` set STYLE_PARAMS"
  shows "styleParamsFor style = Own STYLE_PARAMS_ambient"
proof -
  have "map_of STYLE_PARAMS style = None" using assms(2) by (simp add: map_of_eq_None_iff)
  then show ?thesis
    unfolding styleParamsFor_def get_property_cases [OF assms(1), of STYLE_PARAMS STYLE_PARAMS_ambient]
    by simp
qed

lemma bar_raises:
  assumes "resolveChord progression (st_progressionPos st) = Some (d, t)"
    and "getChordFromDegree key mode d t 3 = Some cn"
    and "replace_digits (value_at cn 0) = None"
  shows "generateBar rnd bars key mode style totalBarsOffset extensionDirection styleParams scale
           progression motif bar st = None"
proof -
  have "getChordFromDegree key mode d t 4 = None \<or> (\<exists>ch. getChordFromDegree key mode d t 4 = Some ch)"
    by (cases "getChordFromDegree key mode d t 4") simp_all
  then show ?thesis
    using assms unfolding generateBar_def by (elim disjE exE) simp_all
qed

lemma loop_raises:
  assumes "1 \<le> n"
    and "generateBar rnd (default_to (opt_bars options) 16) (default_to (opt_key options) ''C'')
             (default_to (opt_mode options) ''major'') (default_to (opt_style options) ''ambient'')
             (default_to (opt_totalBarsOffset options) 0)
             (default_to (opt_extensionDirection options) Continue)
             (su_styleParams su) (su_scale su) (su_progression su) (su_motif su) 0 (su_state su) = None"
  shows "stateAfterBars rnd options su n = None"
proof -
  have "[0..n - 1] = 0 # [1..n - 1]" using assms(1) by (simp add: upto_rec1)
  then show ?thesis using assms(2) by (simp add: stateAfterBars_def)
qed

text \<open>
  Claim C2, as amended. \<open>generateSegment\<close> returns a result with its segment info, without
  raising, for every sequence of draws in \<open>[0, 1)\<close>, every key that is one of the twelve
  names of \<open>NOTES\<close>, every mode and style that are not names of members inherited from
  \<open>Object.prototype\<close>, and no context or a context whose progression position is not
  negative and whose motif, if any, has no negative entry and comes with a last melody note or
  starts on a degree of the scale, as long as the numbers are within
  \<open>MAX_SAFE_INTEGER\<close>: the bar count, the bar offset, the position and the motif entries
  of the context, and the MIDI number of its last melody note (beyond it, the loop of
  line 893 that lowers a note by octaves would not end). Tempo and extension direction
  are free. A style that \<open>STYLE_PARAMS\<close> does not know gets the style parameters of
  ambient, and a mode that the generator's patterns do not know gets the major scale on
  the key.
\<close>

theorem generateSegment_total:
  assumes "valid_input rnd options continuationContext"
    and "safe_input options continuationContext"
  shows "\<exists>res su.
           generateSegment rnd options continuationContext = Some res
         \<and> segmentSetup rnd options continuationContext = Some su
         \<and> seg_bars (segmentInfo res) = default_to (opt_bars options) 16
         \<and> (default_to (opt_style options) ''ambient'' \<notin> fst ` set STYLE_PARAMS
              \<longrightarrow> su_styleParams su = STYLE_PARAMS_ambient)
         \<and> (default_to (opt_mode options) ''major'' \<notin> fst ` set generator_patterns
              \<longrightarrow> su_scale su
                    = map (note_of_interval (indexOf NOTES (default_to (opt_key options) ''C'')) 4) SCALES_major)"
proof -
  obtain res where r: "generateSegment rnd options continuationContext = Some res"
    using generateSegment_returns [OF assms(1)] by blast
  obtain su where su: "segmentSetup rnd options continuationContext = Some su"
    and b: "seg_bars (segmentInfo res) = default_to (opt_bars options) 16"
    using generateSegment_facts [OF r] by blast
  have m: "default_to (opt_mode options) ''major'' \<notin> set OBJECT_PROTOTYPE"
    and s: "default_to (opt_style options) ''ambient'' \<notin> set OBJECT_PROTOTYPE"
    using assms(1) by (simp_all add: valid_input_def)
  have sp: "su_styleParams su = STYLE_PARAMS_ambient"
    if "default_to (opt_style options) ''ambient'' \<notin> fst ` set STYLE_PARAMS"
    using unknown_style_params [OF s that] segmentSetup_facts(2) [OF su] by simp
  have sc: "su_scale su
              = map (note_of_interval (indexOf NOTES (default_to (opt_key options) ''C'')) 4) SCALES_major"
    if "default_to (opt_mode options) ''major'' \<notin> fst ` set generator_patterns"
    using unknown_mode_scale [OF m that] segmentSetup_facts(3) [OF su] by simp
  show ?thesis using r su b sp sc by blast
qed

text \<open>Eight bars in the unknown style \<open>reggae\<close> and the unknown mode \<open>lydian\<close>, in A,
  continuing from a context at position 1 with a motif and the last melody note \<open>E4\<close>: the
  call returns, and was set up with the style parameters of ambient and the scale of A
  major.\<close>

theorem generateSegment_total_witness:
  "\<exists>res su.
     generateSegment (\<lambda>_. 1 / 2)
       \<lparr>opt_bars = Some 8, opt_key = Some ''A'', opt_mode = Some ''lydian'', opt_tempo = None,
        opt_style = Some ''reggae'', opt_totalBarsOffset = Some 8, opt_extensionDirection = None\<rparr>
       (Some \<lparr>ctx_key = ''A'', ctx_mode = ''lydian'', ctx_tempo = 90, ctx_style = ''reggae'',
              ctx_progressionPosition = 1, ctx_currentChord = None, ctx_currentChordType = None,
              ctx_lastNotes = \<lparr>en_melody = [(Str ''E4'', 70)], en_bass = [], en_chords = []\<rparr>,
              ctx_dynamics = \<lparr>level = Medium, direction = Stable, velocityTrend = 0\<rparr>,
              ctx_totalBars = 8, ctx_motif = Some [2, 3, 4, 3]\<rparr>)
       = Some res
   \<and> segmentSetup (\<lambda>_. 1 / 2)
       \<lparr>opt_bars = Some 8, opt_key = Some ''A'', opt_mode = Some ''lydian'', opt_tempo = None,
        opt_style = Some ''reggae'', opt_totalBarsOffset = Some 8, opt_extensionDirection = None\<rparr>
       (Some \<lparr>ctx_key = ''A'', ctx_mode = ''lydian'', ctx_tempo = 90, ctx_style = ''reggae'',
              ctx_progressionPosition = 1, ctx_currentChord = None, ctx_currentChordType = None,
              ctx_lastNotes = \<lparr>en_melody = [(Str ''E4'', 70)], en_bass = [], en_chords = []\<rparr>,
              ctx_dynamics = \<lparr>level = Medium, direction = Stable, velocityTrend = 0\<rparr>,
              ctx_totalBars = 8, ctx_motif = Some [2, 3, 4, 3]\<rparr>)
       = Some su
   \<and> seg_bars (segmentInfo res) = 8
   \<and> su_styleParams su = STYLE_PARAMS_ambient
   \<and> su_scale su = [Str ''A4'', Str ''B4'', Str ''C#5'', Str ''D5'', Str ''E5'', Str ''F#5'', Str ''G#5'']"
proof -
  define options where "options =
       \<lparr>opt_bars = Some 8, opt_key = Some ''A'', opt_mode = Some ''lydian'', opt_tempo = None,
        opt_style = Some ''reggae'', opt_totalBarsOffset = Some 8, opt_extensionDirection = None\<rparr>"
  define ctx where "ctx =
       \<lparr>ctx_key = ''A'', ctx_mode = ''lydian'', ctx_tempo = 90, ctx_style = ''reggae'',
              ctx_progressionPosition = 1, ctx_currentChord = None, ctx_currentChordType = None,
              ctx_lastNotes = \<lparr>en_melody = [(Str ''E4'', 70)], en_bass = [], en_chords = []\<rparr>,
              ctx_dynamics = \<lparr>level = Medium, direction = Stable, velocityTrend = 0\<rparr>,
              ctx_totalBars = 8, ctx_motif = Some [2, 3, 4, 3]\<rparr>"
  have v: "valid_input (\<lambda>_. 1 / 2) options (Some ctx)"
    by (simp add: valid_input_def unit_interval_def default_to_def NOTES_def OBJECT_PROTOTYPE_def
          valid_context_def nonneg_list_def options_def ctx_def)
  have e4: "noteToMidi (Str ''E4'') = Some 64" by code_simp
  have sn: "safe_note (Str ''E4'')"
    unfolding safe_note_def e4 by (simp add: MAX_SAFE_INTEGER_def)
  have sf: "safe_input options (Some ctx)"
    by (simp add: safe_input_def safe_context_def sn default_to_def MAX_SAFE_INTEGER_def
          options_def ctx_def)
  have d: "default_to (opt_bars options) 16 = 8" "default_to (opt_style options) ''ambient'' = ''reggae''"
    "default_to (opt_mode options) ''major'' = ''lydian''" "default_to (opt_key options) ''C'' = ''A''"
    by (simp_all add: options_def default_to_def)
  have u: "''reggae'' \<notin> fst ` set STYLE_PARAMS" "''lydian'' \<notin> fst ` set generator_patterns"
    by (simp_all add: STYLE_PARAMS_def generator_patterns_def)
  have n: "map (note_of_interval (indexOf NOTES ''A'') 4) SCALES_major
             = [Str ''A4'', Str ''B4'', Str ''C#5'', Str ''D5'', Str ''E5'', Str ''F#5'', Str ''G#5'']"
    by code_simp
  show ?thesis
    using generateSegment_total [OF v sf] u unfolding d n unfolding options_def ctx_def by simp
qed

text \<open>
  The key \<open>Bb\<close>, which \<open>NOTES\<close> does not hold, with every other option at its default and
  no context: the root of the first chord is \<open>NaN\<close>, and reading the bass root from it
  raises in the first bar.
\<close>

theorem generateSegment_total_counterexample:
  "generateSegment (\<lambda>_. 1 / 2)
     \<lparr>opt_bars = None, opt_key = Some ''Bb'', opt_mode = None, opt_tempo = None, opt_style = None,
      opt_totalBarsOffset = None, opt_extensionDirection = None\<rparr> None = None
   \<and> getChordFromDegree ''Bb'' ''major'' 0 ''maj7'' 3 = Some [NaN, Str ''D#3'', Str ''F#3'', Str ''A#3'']
   \<and> replace_digits NaN = None"
proof -
  define options where "options =
     \<lparr>opt_bars = None, opt_key = Some ''Bb'', opt_mode = None, opt_tempo = None, opt_style = None,
      opt_totalBarsOffset = None, opt_extensionDirection = None\<rparr>"
  have d: "default_to (opt_bars options) 16 = 16" "default_to (opt_style options) ''ambient'' = ''ambient''"
    "default_to (opt_mode options) ''major'' = ''major''" "default_to (opt_key options) ''C'' = ''Bb''"
    by (simp_all add: options_def default_to_def)
  have c: "getChordFromDegree ''Bb'' ''major'' 0 ''maj7'' 3 = Some [NaN, Str ''D#3'', Str ''F#3'', Str ''A#3'']"
    by code_simp
  have p: "getProgression ''ambient'' = Own PROGRESSIONS_ambient"
    by (simp add: getProgression_def get_property_def PROGRESSIONS_def PROGRESSIONS_ambient_def)
  have "stateAfterBars (\<lambda>_. 1 / 2) options su (default_to (opt_bars options) 16) = None"
    if su: "segmentSetup (\<lambda>_. 1 / 2) options None = Some su" for su
  proof -
    have pr: "su_progression su = PROGRESSIONS_ambient"
      using segmentSetup_facts(1) [OF su] p unfolding d by simp
    have p0: "st_progressionPos (su_state su) = 0"
      using segmentSetup_facts(4) [OF su] by simp
    have rc: "resolveChord (su_progression su) (st_progressionPos (su_state su)) = Some (0, ''maj7'')"
      unfolding pr p0 by (simp add: resolveChord_def at_index_def jsrem_def PROGRESSIONS_ambient_def)
    have rd: "replace_digits (value_at [NaN, Str ''D#3'', Str ''F#3'', Str ''A#3''] 0) = None"
      by (simp add: value_at_def at_index_def)
    show ?thesis
      unfolding d
      by (rule loop_raises [of 16 _ options su, unfolded d, OF _ bar_raises [OF rc c rd]]) simp
  qed
  then have "generateSegment (\<lambda>_. 1 / 2) options None = None"
    unfolding generateSegment_def Let_def d
    by (cases "segmentSetup (\<lambda>_. 1 / 2) options None") (simp_all add: d)
  then show ?thesis using c unfolding options_def by simp
qed

lemma melody_note_event:
  assumes "melody_note rnd scale chordNotes motif notePositions barNumber baseVelocity
             styleParams phrase style chordMidis phraseTargetMidi (i, pos) ms = Some ms'"
  shows "\<exists>e k tone.
           ms_track ms' = ms_track ms @ [e]
         \<and> velocity e =
             humanizeVelocity (rnd k)
               (if phrase_type phrase = Question
                then baseVelocity + (if tone then 8 else 0) + (if pos = 0 \<or> pos = 8 then 5 else 0)
                       + of_int \<lfloor>real_of_int i / real_of_int (max 1 (int (length notePositions) - 1)) * 8\<rfloor>
                else baseVelocity + (if tone then 8 else 0) + (if pos = 0 \<or> pos = 8 then 5 else 0)
                       - of_int \<lfloor>real_of_int i / real_of_int (max 1 (int (length notePositions) - 1)) * 6\<rfloor>)
               10"
  using assms
  apply (simp only: melody_note_def prod.case Let_def bind_eq_Some_conv case_prod_beta fst_conv snd_conv)
  apply (elim exE conjE)
  apply (simp only: option.inject)
  apply hypsubst
  apply (simp only: MelodyState.select_convs addEvent_def)
  apply (intro exI conjI)
   apply (rule refl)
  apply (simp only: NoteEvent.select_convs)
  done

lemma generateMelody_last:
  assumes g: "generateMelody rnd (t, k) scale chordNotes motif barNumber baseVelocity styleParams lastNote
             phrase effectiveDensity style = Some (t', nt, k')"
    and ne: "note_positions rnd k phrase barNumber effectiveDensity \<noteq> []"
  shows "\<exists>es e j tone.
           t' = t @ es @ [e]
         \<and> velocity e =
             humanizeVelocity (rnd j)
               (if phrase_type phrase = Question
                then baseVelocity + (if tone then 8 else 0)
                       + (if last (note_positions rnd k phrase barNumber effectiveDensity) = 0
                             \<or> last (note_positions rnd k phrase barNumber effectiveDensity) = 8 then 5 else 0)
                       + of_int \<lfloor>real_of_int (int (length (note_positions rnd k phrase barNumber effectiveDensity)) - 1)
                                  / real_of_int (max 1 (int (length (note_positions rnd k phrase barNumber effectiveDensity)) - 1)) * 8\<rfloor>
                else baseVelocity + (if tone then 8 else 0)
                       + (if last (note_positions rnd k phrase barNumber effectiveDensity) = 0
                             \<or> last (note_positions rnd k phrase barNumber effectiveDensity) = 8 then 5 else 0)
                       - of_int \<lfloor>real_of_int (int (length (note_positions rnd k phrase barNumber effectiveDensity)) - 1)
                                  / real_of_int (max 1 (int (length (note_positions rnd k phrase barNumber effectiveDensity)) - 1)) * 6\<rfloor>)
               10"
proof -
  define ps where "ps = note_positions rnd k phrase barNumber effectiveDensity"
  obtain cm ptm st where
    l: "for_each (melody_note rnd scale chordNotes motif ps barNumber baseVelocity styleParams phrase style cm ptm)
          (zip [0..int (length ps) - 1] ps)
          \<lparr>ms_track = t, ms_currentNote = lastNote, ms_motifIdx = 0, ms_draws = k + 8\<rparr> = Some st"
    and t': "t' = ms_track st"
    using g unfolding generateMelody_def prod.case Let_def ps_def [symmetric]
    by (auto simp: bind_eq_Some_conv)
  have len: "length [0..int (length ps) - 1] = length ps" by simp
  have ne': "ps \<noteq> []" using ne by (simp add: ps_def)
  have u: "[0..int (length ps) - 1] = [0..int (length ps) - 1 - 1] @ [int (length ps) - 1]"
    using ne' by (intro upto_rec2) simp
  have len': "length [0..int (length ps) - 1 - 1] = length (butlast ps)"
    using ne' by (cases ps) simp_all
  have z: "zip [0..int (length ps) - 1] ps
             = zip ([0..int (length ps) - 1 - 1]) (butlast ps) @ [(int (length ps) - 1, last ps)]"
  proof -
    have "zip [0..int (length ps) - 1] ps
            = zip ([0..int (length ps) - 1 - 1] @ [int (length ps) - 1]) (butlast ps @ [last ps])"
      using u ne' by simp
    also have "\<dots> = zip ([0..int (length ps) - 1 - 1]) (butlast ps) @ [(int (length ps) - 1, last ps)]"
      by (subst zip_append) (simp_all add: len')
    finally show ?thesis .
  qed
  obtain s1 where s1: "for_each (melody_note rnd scale chordNotes motif ps barNumber baseVelocity styleParams phrase style cm ptm)
          (zip ([0..int (length ps) - 1 - 1]) (butlast ps))
          \<lparr>ms_track = t, ms_currentNote = lastNote, ms_motifIdx = 0, ms_draws = k + 8\<rparr> = Some s1"
    and s2: "melody_note rnd scale chordNotes motif ps barNumber baseVelocity styleParams phrase style cm ptm
               (int (length ps) - 1, last ps) s1 = Some st"
    using l unfolding z for_each_append by (auto split: option.splits)
  have grow: "\<exists>es. ms_track s1 = t @ es"
  proof (rule for_each_preserves [where P = "\<lambda>s. \<exists>es. ms_track s = t @ es", OF s1])
    show "\<exists>es. ms_track \<lparr>ms_track = t, ms_currentNote = lastNote, ms_motifIdx = 0, ms_draws = k + 8\<rparr> = t @ es"
      by simp
  next
    fix x s s'
    assume p: "\<exists>es. ms_track s = t @ es"
      and m: "melody_note rnd scale chordNotes motif ps barNumber baseVelocity styleParams phrase style cm ptm x s = Some s'"
    obtain i pos where x: "x = (i, pos)" by (cases x)
    from melody_note_event [OF m [unfolded x]] p show "\<exists>es. ms_track s' = t @ es" by auto
  qed
  then obtain es where es: "ms_track s1 = t @ es" by blast
  from melody_note_event [OF s2] obtain e j tone where e: "ms_track st = ms_track s1 @ [e]"
    and v: "velocity e =
             humanizeVelocity (rnd j)
               (if phrase_type phrase = Question
                then baseVelocity + (if tone then 8 else 0) + (if last ps = 0 \<or> last ps = 8 then 5 else 0)
                       + of_int \<lfloor>real_of_int (int (length ps) - 1)
                                  / real_of_int (max 1 (int (length ps) - 1)) * 8\<rfloor>
                else baseVelocity + (if tone then 8 else 0) + (if last ps = 0 \<or> last ps = 8 then 5 else 0)
                       - of_int \<lfloor>real_of_int (int (length ps) - 1)
                                  / real_of_int (max 1 (int (length ps) - 1)) * 6\<rfloor>)
               10"
    by blast
  have "t' = t @ es @ [e]" using e es t' by simp
  then show ?thesis unfolding ps_def [symmetric] using v by blast
qed

lemma generateBar_melody:
  assumes "generateBar rnd bars key mode style off dir sp scale progression motif bar st = Some st'"
    and "cfg_melody (SECTION_CONFIGS (getSongSection bar bars off dir))"
  shows "\<exists>k cn out.
           generateMelody rnd (st_melodyTrack st, k) scale cn
             (varyMotif motif (st_motifVariation st) (int (length scale))) bar
             (barBaseVelocity (st_dynamics st) bar bars (SECTION_CONFIGS (getSongSection bar bars off dir)))
             sp (st_lastMelodyNote st) (getPhraseType (rnd (st_draws st)) bar)
             (noteDensity sp * density (SECTION_CONFIGS (getSongSection bar bars off dir))) style
           = Some out
         \<and> st_melodyTrack st' = fst out"
  using assms
  apply (simp only: generateBar_def prod.case Let_def bind_eq_Some_conv case_prod_beta fst_conv snd_conv if_True)
  apply (elim exE conjE)
  apply (simp only: option.inject)
  apply hypsubst
  apply (simp only: BarState.select_convs)
  apply (intro exI conjI)
   apply assumption
  apply (rule refl)
  done

lemma generateBar_dynamics:
  assumes "generateBar rnd bars key mode style off dir sp scale progression motif bar st = Some st'"
  shows "\<exists>k. st_dynamics st' = fst (evolveDynamics (rnd k) (st_dynamics st) bar bars)"
  using assms
  apply (simp only: generateBar_def prod.case Let_def bind_eq_Some_conv case_prod_beta fst_conv snd_conv)
  apply (elim exE conjE)
  apply (simp only: option.inject)
  apply hypsubst
  apply (simp only: BarState.select_convs)
  apply (intro exI)
  apply (rule refl)
  done

lemma first_bar_dynamics:
  "fst (evolveDynamics r \<lparr>level = Medium, direction = Stable, velocityTrend = 0\<rparr> 0 2)
     = \<lparr>level = Medium, direction = DynBuilding, velocityTrend = 0.15\<rparr>"
  by (simp add: evolveDynamics_def Let_def)

lemma second_bar_velocity:
  "barBaseVelocity \<lparr>level = Medium, direction = DynBuilding, velocityTrend = 0.15\<rparr> 1 2
     (SECTION_CONFIGS (getSongSection 1 2 0 Continue)) = 179 / 2"
proof -
  have s: "getSongSection 1 2 0 Continue = Build" by (simp add: getSongSection_def Let_def)
  have j: "jsrem 1 4 = 1" by (simp add: jsrem_def)
  have "sin (real_of_int 1 / real_of_int 2 * pi) = 1" by simp
  then show ?thesis
    unfolding s barBaseVelocity_def getBaseVelocity_def Let_def j by simp
qed

lemma second_bar_positions:
  "note_positions (\<lambda>_. 1 / 5) k (getPhraseType (1 / 5) 1) 1
     (noteDensity STYLE_PARAMS_ambient * density (SECTION_CONFIGS (getSongSection 1 2 0 Continue)))
     = [0, 2, 4, 6, 8, 10, 12, 14]"
proof -
  have s: "getSongSection 1 2 0 Continue = Build" by (simp add: getSongSection_def Let_def)
  have j: "jsrem 1 4 = 1" "jsrem (1 + 1) 2 = 0" by (simp_all add: jsrem_def)
  have p: "phrase_type (getPhraseType (1 / 5) 1) = Question"
    by (simp add: getPhraseType_def Let_def j)
  show ?thesis
    unfolding note_positions_def Let_def p s j
    by (simp add: STYLE_PARAMS_ambient_def strongBeats_def)
qed

lemma generateSegment_melodyTrack:
  assumes "generateSegment rnd options ctx = Some res"
  shows "\<exists>su st. segmentSetup rnd options ctx = Some su
           \<and> stateAfterBars rnd options su (default_to (opt_bars options) 16) = Some st
           \<and> res_melodyTrack res = st_melodyTrack st"
  using assms
  by (auto simp: generateSegment_def Let_def split: Option.bind_splits)

lemma setup_without_context:
  assumes "segmentSetup rnd options None = Some su"
  shows "st_dynamics (su_state su) = \<lparr>level = Medium, direction = Stable, velocityTrend = 0\<rparr>"
  using assms
  by (auto simp: segmentSetup_def initialState_def Let_def case_prod_beta
           split: Option.bind_splits property.splits)

lemma half_not_int: "(of_int n + 1 / 2 :: real) \<notin> \<int>"
proof
  assume "(of_int n + 1 / 2 :: real) \<in> \<int>"
  then obtain z where z: "(of_int n + 1 / 2 :: real) = of_int z" by (auto elim: Ints_cases)
  then have "real_of_int (2 * n + 1) = real_of_int (2 * z)" by simp
  then have "2 * n + 1 = 2 * z" by (simp only: of_int_eq_iff)
  then show False by presburger
qed

text \<open>
  Claim C7 on two bars with every other option at its default, no context, and every
  call of \<open>Math.random()\<close> returning 0.2. The second bar is a build at base velocity
  \<open>84.5 + 5 = 89.5\<close> (72 for the level, 1.5 for the trend, 3 for the phrase, 8 for the
  arc, 5 for the section); all eight positions get a melody note, and the last note has
  velocity \<open>89.5 + 8 - 6 = 91.5\<close>, or 99.5 when it is a chord tone: the melody adds its
  offsets to the base velocity without rounding it first. The velocity lies between 1
  and 127 but is no integer.
\<close>

theorem melody_velocity_fraction:
  "\<exists>res.
     generateSegment (\<lambda>_. 1 / 5)
       \<lparr>opt_bars = Some 2, opt_key = None, opt_mode = None, opt_tempo = None, opt_style = None,
        opt_totalBarsOffset = None, opt_extensionDirection = None\<rparr> None = Some res
   \<and> res_melodyTrack res \<noteq> []
   \<and> (velocity (last (res_melodyTrack res)) = 183 / 2 \<or> velocity (last (res_melodyTrack res)) = 199 / 2)
   \<and> velocity (last (res_melodyTrack res)) \<notin> \<int>"
proof -
  define rnd :: rng where "rnd = (\<lambda>_. 1 / 5)"
  define options where "options =
       \<lparr>opt_bars = Some 2, opt_key = None, opt_mode = None, opt_tempo = None, opt_style = None,
        opt_totalBarsOffset = None, opt_extensionDirection = None\<rparr>"
  have d: "default_to (opt_bars options) 16 = 2" "default_to (opt_style options) ''ambient'' = ''ambient''"
    "default_to (opt_totalBarsOffset options) 0 = 0"
    "default_to (opt_extensionDirection options) Continue = Continue"
    by (simp_all add: options_def default_to_def)
  have rk: "rnd k = 1 / 5" for k by (simp add: rnd_def)
  have v: "valid_input rnd options None"
    by (simp add: valid_input_def unit_interval_def default_to_def NOTES_def OBJECT_PROTOTYPE_def
          options_def rnd_def)
  obtain res where r: "generateSegment rnd options None = Some res"
    using generateSegment_returns [OF v] by blast
  obtain su st where su: "segmentSetup rnd options None = Some su"
    and st: "stateAfterBars rnd options su 2 = Some st"
    and tr: "res_melodyTrack res = st_melodyTrack st"
    using generateSegment_melodyTrack [OF r] unfolding d by blast
  have sp: "su_styleParams su = STYLE_PARAMS_ambient"
    using segmentSetup_facts(2) [OF su] unfolding d
    by (simp add: styleParamsFor_def get_property_def STYLE_PARAMS_def OBJECT_PROTOTYPE_def)
  obtain st1 where st1: "stateAfterBars rnd options su 1 = Some st1"
    and g1: "generateBar rnd 2 (default_to (opt_key options) ''C'') (default_to (opt_mode options) ''major'')
               ''ambient'' 0 Continue (su_styleParams su) (su_scale su) (su_progression su) (su_motif su)
               1 st1 = Some st"
    using st stateAfterBars_step [of 2 rnd options su] unfolding d
    by (auto split: option.splits)
  have g0: "generateBar rnd 2 (default_to (opt_key options) ''C'') (default_to (opt_mode options) ''major'')
               ''ambient'' 0 Continue (su_styleParams su) (su_scale su) (su_progression su) (su_motif su)
               0 (su_state su) = Some st1"
    using st1 stateAfterBars_step [of 1 rnd options su] unfolding d
    by (simp add: stateAfterBars_0)
  have dy: "st_dynamics st1 = \<lparr>level = Medium, direction = DynBuilding, velocityTrend = 0.15\<rparr>"
    using generateBar_dynamics [OF g0] unfolding setup_without_context [OF su] first_bar_dynamics
    by blast
  have sec: "getSongSection 1 2 0 Continue = Build" by (simp add: getSongSection_def Let_def)
  have cm: "cfg_melody (SECTION_CONFIGS (getSongSection 1 2 0 Continue))" unfolding sec by simp
  obtain k cn t' nt k' where
    gm: "generateMelody rnd (st_melodyTrack st1, k) (su_scale su) cn
           (varyMotif (su_motif su) (st_motifVariation st1) (int (length (su_scale su)))) 1
           (barBaseVelocity (st_dynamics st1) 1 2 (SECTION_CONFIGS (getSongSection 1 2 0 Continue)))
           (su_styleParams su) (st_lastMelodyNote st1) (getPhraseType (rnd (st_draws st1)) 1)
           (noteDensity (su_styleParams su) * density (SECTION_CONFIGS (getSongSection 1 2 0 Continue)))
           ''ambient'' = Some (t', nt, k')"
    and mt: "st_melodyTrack st = t'"
    using generateBar_melody [OF g1 cm] by (metis fst_conv prod_cases3)
  have ps: "note_positions rnd k (getPhraseType (rnd (st_draws st1)) 1) 1
              (noteDensity (su_styleParams su) * density (SECTION_CONFIGS (getSongSection 1 2 0 Continue)))
              = [0, 2, 4, 6, 8, 10, 12, 14]"
    unfolding sp rk unfolding rnd_def by (rule second_bar_positions)
  have q: "phrase_type (getPhraseType (rnd (st_draws st1)) 1) = Question"
    by (simp add: getPhraseType_def Let_def jsrem_def)
  obtain es e j tone where t': "t' = st_melodyTrack st1 @ es @ [e]"
    and ve: "velocity e = humanizeVelocity (rnd j) (179 / 2 + (if tone then 8 else 0) + 0 + of_int \<lfloor>(7 :: real) / 7 * 8\<rfloor>) 10"
    using generateMelody_last [OF gm] unfolding ps q dy second_bar_velocity by auto
  have l: "last (res_melodyTrack res) = e" and ne: "res_melodyTrack res \<noteq> []"
    unfolding tr mt t' by simp_all
  have f: "\<lfloor>(1 / 5 - 0.5) * 10 * 2 :: real\<rfloor> = -6" by simp
  have ve': "velocity e = (if tone then 199 / 2 else 183 / 2)"
    unfolding ve rk humanizeVelocity_def Let_def f by simp
  have "velocity e \<notin> \<int>"
    using half_not_int [of 99] half_not_int [of 91] unfolding ve' by simp
  then show ?thesis
    using r ne l ve' unfolding options_def rnd_def by auto
qed

lemma generateBar_calls:
  assumes "generateBar rnd bars key mode style off dir sp scale progression motif bar st = Some st'"
  shows "\<exists>cn cnh bassRoot k0 k1 k2 k3 k4 dr ba me.
           (case cfg_drums (SECTION_CONFIGS (getSongSection bar bars off dir)) of
              NoDrums \<Rightarrow> Some (st_drumTrack st, k0)
            | Drums intensity \<Rightarrow>
                generateDrums rnd (st_drumTrack st, k0) bar style
                  (barBaseVelocity (st_dynamics st) bar bars (SECTION_CONFIGS (getSongSection bar bars off dir)))
                  (direction (st_dynamics st)) intensity
                  (getSongSection (bar + 1) bars 0 Continue \<noteq> getSongSection bar bars off dir)) = Some dr
         \<and> st_drumTrack st' = fst dr
         \<and> st_padTrack st' =
              fst (if cfg_pad (SECTION_CONFIGS (getSongSection bar bars off dir)) \<and>
                      (style = ''ambient'' \<or> style = ''electronic'' \<or>
                       getSongSection bar bars off dir = Intro \<or> getSongSection bar bars off dir = Outro)
                   then (generatePad (rnd k1) (st_padTrack st) cnh bar
                           (barBaseVelocity (st_dynamics st) bar bars (SECTION_CONFIGS (getSongSection bar bars off dir))
                              * (if getSongSection bar bars off dir = Climax then 1.1 else 0.9)), k1 + 1)
                   else (st_padTrack st, k1))
         \<and> st_chordTrack st' =
              fst (if cfg_chords (SECTION_CONFIGS (getSongSection bar bars off dir))
                   then generateChords rnd (st_chordTrack st, k2) cn bar
                          (barBaseVelocity (st_dynamics st) bar bars (SECTION_CONFIGS (getSongSection bar bars off dir)))
                          style sp (getSongSection bar bars off dir)
                   else (st_chordTrack st, k2))
         \<and> (if cfg_bass (SECTION_CONFIGS (getSongSection bar bars off dir))
             then generateBass rnd (st_bassTrack st, k3) bassRoot cn bar
                    (barBaseVelocity (st_dynamics st) bar bars (SECTION_CONFIGS (getSongSection bar bars off dir)))
                    style (getSongSection bar bars off dir)
             else Some (st_bassTrack st, k3)) = Some ba
         \<and> st_bassTrack st' = fst ba
         \<and> (if cfg_melody (SECTION_CONFIGS (getSongSection bar bars off dir))
             then generateMelody rnd (st_melodyTrack st, k4) scale cn
                    (varyMotif motif (st_motifVariation st) (int (length scale))) bar
                    (barBaseVelocity (st_dynamics st) bar bars (SECTION_CONFIGS (getSongSection bar bars off dir)))
                    sp (st_lastMelodyNote st) (getPhraseType (rnd (st_draws st)) bar)
                    (noteDensity sp * density (SECTION_CONFIGS (getSongSection bar bars off dir))) style
             else Some (st_melodyTrack st, st_lastMelodyNote st, k4)) = Some me
         \<and> st_melodyTrack st' = fst me
         \<and> st_endingNotes st' =
              (if bar \<ge> bars - 2
               then \<lparr>en_melody = en_melody (st_endingNotes st)
                        @ [(fst (snd me),
                            barBaseVelocity (st_dynamics st) bar bars (SECTION_CONFIGS (getSongSection bar bars off dir)))],
                     en_bass = en_bass (st_endingNotes st)
                        @ [(bassRoot,
                            barBaseVelocity (st_dynamics st) bar bars (SECTION_CONFIGS (getSongSection bar bars off dir)))],
                     en_chords = en_chords (st_endingNotes st)
                        @ [(cn,
                            barBaseVelocity (st_dynamics st) bar bars (SECTION_CONFIGS (getSongSection bar bars off dir)))]\<rparr>
               else st_endingNotes st)"
  using assms
  apply (simp only: generateBar_def prod.case Let_def bind_eq_Some_conv case_prod_beta fst_conv snd_conv)
  apply (elim exE conjE)
  apply (simp only: option.inject)
  apply hypsubst
  apply (simp only: BarState.select_convs)
  apply (intro exI conjI)
          apply assumption
         apply (rule refl)
        apply (rule refl)
       apply (rule refl)
      apply assumption
     apply (rule refl)
    apply assumption
   apply (rule refl)
  apply (rule refl)
  done

lemma barBaseVelocity_formula:
  assumes "0 \<le> bar"
  shows "barBaseVelocity dyn bar bars (SECTION_CONFIGS sec)
           = min 100 (max 40 (levelMap (level dyn) + velocityTrend dyn * 10
                               + (if bar mod 4 = 1 \<or> bar mod 4 = 2 then 3 else 0)
                               + sin (real_of_int bar / real_of_int bars * pi) * 8))
             + velocityMod (SECTION_CONFIGS sec)"
  unfolding barBaseVelocity_def getBaseVelocity_def Let_def jsrem_4_cases [OF assms] by simp

lemma barBaseVelocity_range:
  "40 + velocityMod (SECTION_CONFIGS sec) \<le> barBaseVelocity dyn bar bars (SECTION_CONFIGS sec)
   \<and> barBaseVelocity dyn bar bars (SECTION_CONFIGS sec) \<le> 100 + velocityMod (SECTION_CONFIGS sec)"
  by (simp add: barBaseVelocity_def getBaseVelocity_def Let_def)

lemma velocityMod_range:
  "-15 \<le> velocityMod (SECTION_CONFIGS sec) \<and> velocityMod (SECTION_CONFIGS sec) \<le> 15"
  by (cases sec) simp_all

lemma pad_velocity_range:
  "45 / 2 \<le> barBaseVelocity dyn bar bars (SECTION_CONFIGS sec) * (if sec = Climax then 1.1 else 0.9)
   \<and> barBaseVelocity dyn bar bars (SECTION_CONFIGS sec) * (if sec = Climax then 1.1 else 0.9) \<le> 253 / 2"
  using barBaseVelocity_range [of sec dyn bar bars] by (cases sec) simp_all

text \<open>
  Claim C5, as amended. In every bar of the loop (\<open>0 \<le> bar < bars\<close>) that does not raise,
  the base velocity \<open>bv\<close> is the sum of the level base (soft 55, medium 72, loud 88), ten
  times the velocity trend, the phrase modifier (3 in the second and third bar of each
  group of four, 0 otherwise) and the arc bonus \<open>sin(progress * pi) * 8\<close>, clamped into
  \<open>[40, 100]\<close>, plus the velocity modifier of the section, which is added after the clamp:
  \<open>bv\<close> lies between 40 and 100 shifted by the section's modifier, between 25 and 115
  over all sections. The drum, chord, bass and melody generators that the section
  enables are called with \<open>bv\<close>, and the ending notes of the last two bars record it; the
  pad generator is called with \<open>bv * 1.1\<close> in a climax and \<open>bv * 0.9\<close> otherwise, a value
  between 22.5 and 126.5.
\<close>

theorem base_velocity_formula:
  assumes "generateBar rnd bars key mode style off dir sp scale progression motif bar st = Some st'"
    and "0 \<le> bar" and "bar < bars"
  shows "\<exists>bv.
           bv = min 100 (max 40 (levelMap (level (st_dynamics st)) + velocityTrend (st_dynamics st) * 10
                                   + (if bar mod 4 = 1 \<or> bar mod 4 = 2 then 3 else 0)
                                   + sin (real_of_int bar / real_of_int bars * pi) * 8))
                  + velocityMod (SECTION_CONFIGS (getSongSection bar bars off dir))
         \<and> 40 + velocityMod (SECTION_CONFIGS (getSongSection bar bars off dir)) \<le> bv
         \<and> bv \<le> 100 + velocityMod (SECTION_CONFIGS (getSongSection bar bars off dir))
         \<and> 25 \<le> bv \<and> bv \<le> 115
         \<and> 45 / 2 \<le> bv * (if getSongSection bar bars off dir = Climax then 1.1 else 0.9)
         \<and> bv * (if getSongSection bar bars off dir = Climax then 1.1 else 0.9) \<le> 253 / 2
         \<and> (\<exists>cn cnh bassRoot k0 k1 k2 k3 k4 dr ba me.
              (case cfg_drums (SECTION_CONFIGS (getSongSection bar bars off dir)) of
                 NoDrums \<Rightarrow> Some (st_drumTrack st, k0)
               | Drums intensity \<Rightarrow>
                   generateDrums rnd (st_drumTrack st, k0) bar style bv
                     (direction (st_dynamics st)) intensity
                     (getSongSection (bar + 1) bars 0 Continue \<noteq> getSongSection bar bars off dir)) = Some dr
            \<and> st_drumTrack st' = fst dr
            \<and> st_padTrack st' =
                 fst (if cfg_pad (SECTION_CONFIGS (getSongSection bar bars off dir)) \<and>
                         (style = ''ambient'' \<or> style = ''electronic'' \<or>
                          getSongSection bar bars off dir = Intro \<or> getSongSection bar bars off dir = Outro)
                      then (generatePad (rnd k1) (st_padTrack st) cnh bar
                              (bv * (if getSongSection bar bars off dir = Climax then 1.1 else 0.9)), k1 + 1)
                      else (st_padTrack st, k1))
            \<and> st_chordTrack st' =
                 fst (if cfg_chords (SECTION_CONFIGS (getSongSection bar bars off dir))
                      then generateChords rnd (st_chordTrack st, k2) cn bar bv style sp (getSongSection bar bars off dir)
                      else (st_chordTrack st, k2))
            \<and> (if cfg_bass (SECTION_CONFIGS (getSongSection bar bars off dir))
                then generateBass rnd (st_bassTrack st, k3) bassRoot cn bar bv style (getSongSection bar bars off dir)
                else Some (st_bassTrack st, k3)) = Some ba
            \<and> st_bassTrack st' = fst ba
            \<and> (if cfg_melody (SECTION_CONFIGS (getSongSection bar bars off dir))
                then generateMelody rnd (st_melodyTrack st, k4) scale cn
                       (varyMotif motif (st_motifVariation st) (int (length scale))) bar bv
                       sp (st_lastMelodyNote st) (getPhraseType (rnd (st_draws st)) bar)
                       (noteDensity sp * density (SECTION_CONFIGS (getSongSection bar bars off dir))) style
                else Some (st_melodyTrack st, st_lastMelodyNote st, k4)) = Some me
            \<and> st_melodyTrack st' = fst me
            \<and> st_endingNotes st' =
                 (if bar \<ge> bars - 2
                  then \<lparr>en_melody = en_melody (st_endingNotes st)
                           @ [(fst (snd me), bv)],
                        en_bass = en_bass (st_endingNotes st)
                           @ [(bassRoot, bv)],
                        en_chords = en_chords (st_endingNotes st)
                           @ [(cn, bv)]\<rparr>
                  else st_endingNotes st))"
proof -
  define bv where "bv = barBaseVelocity (st_dynamics st) bar bars (SECTION_CONFIGS (getSongSection bar bars off dir))"
  note f = barBaseVelocity_formula [OF assms(2), of "st_dynamics st" bars "getSongSection bar bars off dir",
      folded bv_def]
  note r = barBaseVelocity_range [of "getSongSection bar bars off dir" "st_dynamics st" bar bars, folded bv_def]
  note m = velocityMod_range [of "getSongSection bar bars off dir"]
  note p = pad_velocity_range [of "st_dynamics st" bar bars "getSongSection bar bars off dir", folded bv_def]
  note c = generateBar_calls [OF assms(1), folded bv_def]
  have b: "25 \<le> bv \<and> bv \<le> 115" using r m by linarith
  show ?thesis
    apply (rule exI [of _ bv])
    apply (intro conjI)
           apply (rule f)
          apply (rule r [THEN conjunct1])
         apply (rule r [THEN conjunct2])
        apply (rule b [THEN conjunct1])
       apply (rule b [THEN conjunct2])
      apply (rule p [THEN conjunct1])
     apply (rule p [THEN conjunct2])
    apply (rule c)
    done
qed

lemma first_bar:
  assumes "stateAfterBars rnd options su 1 = Some st"
  shows "generateBar rnd (default_to (opt_bars options) 16) (default_to (opt_key options) ''C'')
           (default_to (opt_mode options) ''major'') (default_to (opt_style options) ''ambient'')
           (default_to (opt_totalBarsOffset options) 0)
           (default_to (opt_extensionDirection options) Continue)
           (su_styleParams su) (su_scale su) (su_progression su) (su_motif su) 0 (su_state su) = Some st"
  using assms stateAfterBars_step [of 1 rnd options su] by (simp add: stateAfterBars_0)

lemma setup_state:
  assumes "segmentSetup rnd options ctx = Some su"
  shows "st_dynamics (su_state su)
           = (case ctx of None \<Rightarrow> \<lparr>level = Medium, direction = Stable, velocityTrend = 0\<rparr>
                        | Some c \<Rightarrow> ctx_dynamics c)"
    and "st_endingNotes (su_state su) = \<lparr>en_melody = [], en_bass = [], en_chords = []\<rparr>"
  using assms
  by (auto simp: segmentSetup_def initialState_def Let_def case_prod_beta
           split: Option.bind_splits property.splits option.splits)

lemma generateSegment_endingNotes:
  assumes "generateSegment rnd options ctx = Some res"
  shows "\<exists>su st. segmentSetup rnd options ctx = Some su
           \<and> stateAfterBars rnd options su (default_to (opt_bars options) 16) = Some st
           \<and> seg_endingNotes (segmentInfo res) = st_endingNotes st"
  using assms
  by (auto simp: generateSegment_def Let_def split: Option.bind_splits)

lemma last_bars_record:
  assumes "generateBar rnd bars key mode style off dir sp scale progression motif bar st = Some st'"
    and "bars - 2 \<le> bar"
  shows "map snd (en_bass (st_endingNotes st'))
           = map snd (en_bass (st_endingNotes st))
               @ [barBaseVelocity (st_dynamics st) bar bars (SECTION_CONFIGS (getSongSection bar bars off dir))]"
  using generateBar_calls [OF assms(1)] assms(2) by auto

text \<open>
  The only bar of a one-bar segment without context, in the default style: an intro at
  base velocity \<open>72 - 15 = 57\<close>, which the ending notes record.
\<close>

theorem base_velocity_formula_witness:
  "\<exists>su st'.
      segmentSetup (\<lambda>_. 1 / 2)
        \<lparr>opt_bars = Some 1, opt_key = None, opt_mode = None, opt_tempo = None, opt_style = None,
         opt_totalBarsOffset = None, opt_extensionDirection = None\<rparr> None = Some su
    \<and> generateBar (\<lambda>_. 1 / 2) 1 ''C'' ''major'' ''ambient'' 0 Continue
        (su_styleParams su) (su_scale su) (su_progression su) (su_motif su) 0 (su_state su) = Some st'
    \<and> (0 :: int) \<le> 0 \<and> (0 :: int) < 1
    \<and> map snd (en_bass (st_endingNotes st')) = [57]"
proof -
  define options where "options =
        \<lparr>opt_bars = Some 1, opt_key = None, opt_mode = None, opt_tempo = None, opt_style = None,
         opt_totalBarsOffset = None, opt_extensionDirection = None\<rparr>"
  have d: "default_to (opt_bars options) 16 = 1" "default_to (opt_style options) ''ambient'' = ''ambient''"
    "default_to (opt_key options) ''C'' = ''C''" "default_to (opt_mode options) ''major'' = ''major''"
    "default_to (opt_totalBarsOffset options) 0 = 0"
    "default_to (opt_extensionDirection options) Continue = Continue"
    by (simp_all add: options_def default_to_def)
  obtain res where r: "generateSegment (\<lambda>_. 1 / 2) options None = Some res"
    using generateSegment_returns [OF valid_input_default] unfolding options_def by blast
  obtain su st' where su: "segmentSetup (\<lambda>_. 1 / 2) options None = Some su"
    and st: "stateAfterBars (\<lambda>_. 1 / 2) options su 1 = Some st'"
    using generateSegment_facts [OF r] unfolding d by blast
  note g = first_bar [OF st, unfolded d]
  have sec: "getSongSection 0 1 0 Continue = Intro" by (simp add: getSongSection_def Let_def)
  obtain bv bassRoot where
    bv: "bv = min 100 (max 40 (levelMap (level (st_dynamics (su_state su)))
                  + velocityTrend (st_dynamics (su_state su)) * 10
                  + (if (0 :: int) mod 4 = 1 \<or> (0 :: int) mod 4 = 2 then 3 else 0)
                  + sin (real_of_int 0 / real_of_int 1 * pi) * 8))
               + velocityMod (SECTION_CONFIGS (getSongSection 0 1 0 Continue))"
    and en: "en_bass (st_endingNotes st') = en_bass (st_endingNotes (su_state su)) @ [(bassRoot, bv)]"
    using base_velocity_formula [OF g] by auto
  have "bv = 57" unfolding bv setup_state(1) [OF su] sec by simp
  then have "map snd (en_bass (st_endingNotes st')) = [57]"
    unfolding en setup_state(2) [OF su] by simp
  then show ?thesis using su g unfolding options_def by auto
qed

text \<open>
  One bar continuing a piece of 30 bars, from a context at full dynamics (loud, trend
  1.2): the bar is a climax, the clamp leaves 100 and the section adds 15, so the
  generators receive 115 and the ending notes record it, where a clamp of the whole sum
  would give 100.
\<close>

theorem base_velocity_formula_counterexample:
  "\<exists>res.
      generateSegment (\<lambda>_. 1 / 2)
        \<lparr>opt_bars = Some 1, opt_key = None, opt_mode = None, opt_tempo = None, opt_style = None,
         opt_totalBarsOffset = Some 30, opt_extensionDirection = None\<rparr>
        (Some \<lparr>ctx_key = ''C'', ctx_mode = ''major'', ctx_tempo = 90, ctx_style = ''ambient'',
               ctx_progressionPosition = 0, ctx_currentChord = None, ctx_currentChordType = None,
               ctx_lastNotes = \<lparr>en_melody = [], en_bass = [], en_chords = []\<rparr>,
               ctx_dynamics = \<lparr>level = Loud, direction = DynBuilding, velocityTrend = 1.2\<rparr>,
               ctx_totalBars = 30, ctx_motif = None\<rparr>) = Some res
    \<and> map snd (en_bass (seg_endingNotes (segmentInfo res))) = [115]
    \<and> getSongSection 0 1 30 Continue = Climax
    \<and> min 100 (max 40 (levelMap Loud + 1.2 * 10 + 0 + sin (0 / 1 * pi) * 8
                         + velocityMod (SECTION_CONFIGS Climax))) = (100 :: real)"
proof -
  define options where "options =
        \<lparr>opt_bars = Some 1, opt_key = None, opt_mode = None, opt_tempo = None, opt_style = None,
         opt_totalBarsOffset = Some 30, opt_extensionDirection = None\<rparr>"
  define ctx where "ctx =
        \<lparr>ctx_key = ''C'', ctx_mode = ''major'', ctx_tempo = 90, ctx_style = ''ambient'',
               ctx_progressionPosition = 0, ctx_currentChord = None, ctx_currentChordType = None,
               ctx_lastNotes = \<lparr>en_melody = [], en_bass = [], en_chords = []\<rparr>,
               ctx_dynamics = \<lparr>level = Loud, direction = DynBuilding, velocityTrend = 1.2\<rparr>,
               ctx_totalBars = 30, ctx_motif = None\<rparr>"
  have d: "default_to (opt_bars options) 16 = 1" "default_to (opt_style options) ''ambient'' = ''ambient''"
    "default_to (opt_key options) ''C'' = ''C''" "default_to (opt_mode options) ''major'' = ''major''"
    "default_to (opt_totalBarsOffset options) 0 = 30"
    "default_to (opt_extensionDirection options) Continue = Continue"
    by (simp_all add: options_def default_to_def)
  have v: "valid_input (\<lambda>_. 1 / 2) options (Some ctx)"
    by (simp add: valid_input_def unit_interval_def default_to_def NOTES_def OBJECT_PROTOTYPE_def
          valid_context_def options_def ctx_def)
  obtain res where r: "generateSegment (\<lambda>_. 1 / 2) options (Some ctx) = Some res"
    using generateSegment_returns [OF v] by blast
  obtain su st where su: "segmentSetup (\<lambda>_. 1 / 2) options (Some ctx) = Some su"
    and st: "stateAfterBars (\<lambda>_. 1 / 2) options su 1 = Some st"
    and en: "seg_endingNotes (segmentInfo res) = st_endingNotes st"
    using generateSegment_endingNotes [OF r] unfolding d by blast
  note g = first_bar [OF st, unfolded d]
  have sec: "getSongSection 0 1 30 Continue = Climax" by (simp add: getSongSection_def Let_def)
  have dy: "st_dynamics (su_state su) = \<lparr>level = Loud, direction = DynBuilding, velocityTrend = 1.2\<rparr>"
    using setup_state(1) [OF su] by (simp add: ctx_def)
  have bv: "barBaseVelocity (st_dynamics (su_state su)) 0 1 (SECTION_CONFIGS (getSongSection 0 1 30 Continue)) = 115"
    unfolding dy sec by (simp add: barBaseVelocity_def getBaseVelocity_def Let_def jsrem_def)
  have "map snd (en_bass (st_endingNotes st)) = [115]"
    using last_bars_record [OF g] unfolding bv setup_state(2) [OF su] by simp
  moreover have "min 100 (max 40 (levelMap Loud + 1.2 * 10 + 0 + sin (0 / 1 * pi) * 8
                         + velocityMod (SECTION_CONFIGS Climax))) = (100 :: real)"
    by simp
  ultimately show ?thesis using r en sec unfolding options_def ctx_def by auto
qed

end
